(* ===== verification/VP_Prelude.thy ===== *)
theory VP_Prelude
  imports Main "HOL-Library.Word"
begin

text \<open>
  Shared vocabulary of the development: the machine types of the C++ sources
  (\<open>uint8_t\<close>, \<open>uint16_t\<close>, \<open>uint32_t\<close>, \<open>uint64_t\<close> as words; an \<open>int32_t\<close> is the
  \<open>32 word\<close> with the same bits, read with \<open>sint\<close>), the generic facts on words that
  the components share, and the little-endian \<open>memcpy\<close> between integers and byte buffers.

  Word equations that come from masks and shifts are proved by comparing the bits one by
  one: \<open>u32_eqI\<close> reduces an equation on 32-bit words to 32 concrete bit positions,
  and the collection \<open>bitwise\<close> evaluates a bit of an expression at a concrete position.
\<close>

unbundle bit_operations_syntax

section \<open>Machine types\<close>

type_synonym u8 = "8 word"
type_synonym u16 = "16 word"
type_synonym u32 = "32 word"
type_synonym u64 = "64 word"

named_theorems bitwise \<open>evaluation of the bits of a word expression\<close>

section \<open>Bitwise equality\<close>

lemma All_less_Suc_down [bitwise]: "(\<forall>n<Suc k. P n) \<longleftrightarrow> P k \<and> (\<forall>n<k. P n)"
  by (auto simp: less_Suc_eq)

lemma All_less_numeral_down [bitwise]:
  "(\<forall>n<numeral k. P n) \<longleftrightarrow> P (pred_numeral k) \<and> (\<forall>n<pred_numeral k. P n)"
  by (simp add: All_less_Suc_down numeral_eq_Suc)

lemma u32_eqI:
  assumes "\<forall>n<32. bit a n = bit b n"
  shows "a = (b :: u32)"
  using assms by (intro bit_word_eqI) simp

lemma u64_eqI:
  assumes "\<forall>n<64. bit a n = bit b n"
  shows "a = (b :: u64)"
  using assms by (intro bit_word_eqI) simp

lemma word_bits_eqI: "\<forall>n<LENGTH('a). bit a n = bit b n \<Longrightarrow> a = b" for a b :: "'a::len word"
  by (rule bit_word_eqI) simp

lemma not_bit_beyond [bitwise]:
  fixes w :: "'a::len word"
  assumes "LENGTH('a) \<le> n"
  shows "bit w n = False"
  using assms bit_imp_le_length leD by blast

lemma bit_times_2_word [bitwise]:
  "bit (w * 2) n \<longleftrightarrow> 0 < n \<and> n < LENGTH('a) \<and> bit w (n - 1)" for w :: "'a::len word"
  by (auto simp: mult.commute [of w] bit_double_iff)

declare bit_simps [bitwise]

lemma Suc_Suc_0_eq_2 [bitwise]: "Suc (Suc 0) = 2"
  by simp

text \<open>A masked field compared with a constant, decided by the bits of the field.\<close>

lemma u32_eq_bits: "(a :: u32) = b \<longleftrightarrow> (\<forall>n<32. bit a n = bit b n)"
  by (auto intro: u32_eqI)

lemma and_3_eq_iff [bitwise]:
  "(w :: u32) AND 3 = 0 \<longleftrightarrow> \<not> bit w 1 \<and> \<not> bit w 0"
  "w AND 3 = 1 \<longleftrightarrow> \<not> bit w 1 \<and> bit w 0"
  "w AND 3 = 2 \<longleftrightarrow> bit w 1 \<and> \<not> bit w 0"
  "w AND 3 = 3 \<longleftrightarrow> bit w 1 \<and> bit w 0"
  unfolding u32_eq_bits by (auto simp: bitwise)

lemma and_7_eq_iff [bitwise]:
  "(w :: u32) AND 7 = 0 \<longleftrightarrow> \<not> bit w 2 \<and> \<not> bit w 1 \<and> \<not> bit w 0"
  "w AND 7 = 1 \<longleftrightarrow> \<not> bit w 2 \<and> \<not> bit w 1 \<and> bit w 0"
  "w AND 7 = 2 \<longleftrightarrow> \<not> bit w 2 \<and> bit w 1 \<and> \<not> bit w 0"
  "w AND 7 = 3 \<longleftrightarrow> \<not> bit w 2 \<and> bit w 1 \<and> bit w 0"
  "w AND 7 = 4 \<longleftrightarrow> bit w 2 \<and> \<not> bit w 1 \<and> \<not> bit w 0"
  "w AND 7 = 5 \<longleftrightarrow> bit w 2 \<and> \<not> bit w 1 \<and> bit w 0"
  "w AND 7 = 6 \<longleftrightarrow> bit w 2 \<and> bit w 1 \<and> \<not> bit w 0"
  "w AND 7 = 7 \<longleftrightarrow> bit w 2 \<and> bit w 1 \<and> bit w 0"
  unfolding u32_eq_bits by (auto simp: bitwise)

lemma and_1_eq_iff [bitwise]: "(w :: u32) AND 1 = 0 \<longleftrightarrow> \<not> bit w 0"
  unfolding u32_eq_bits by (auto simp: bitwise)

text \<open>A test of a single mask bit, \<open>(x & (1 << n)) != 0\<close> in the sources.\<close>

lemma and_mask_bit_iff:
  fixes w :: "'a::len word"
  assumes "m = 2 ^ n"
  shows "w AND m = 0 \<longleftrightarrow> \<not> bit w n"
  using assms by (simp add: and_exp_eq_0_iff_not_bit)

text \<open>No bit outside a mask.\<close>

definition within :: "'a::len word \<Rightarrow> 'a word \<Rightarrow> bool" where
  "within m a = (a AND NOT m = 0)"

lemma within_iff: "within m a \<longleftrightarrow> (\<forall>n. bit a n \<longrightarrow> bit m n)"
  by (auto simp: within_def bit_eq_iff bit_simps dest: bit_imp_le_length)

lemma word_and_less: "m < k \<Longrightarrow> w AND m < k" for w :: "'a::len word"
  using word_and_le1 le_less_trans by blast

end
