(* ===== verification/RV32_Defs.thy ===== *)
theory RV32_Defs
  imports VP_Prelude
begin

text \<open>
  Model of \<open>src/src/cpu/rv32_defs.h\<close>: the opcode, function-code, CSR-address, status-bit and
  cause constants of the RV32IMAC core under their source names (abbreviations, so that the
  simplifier sees the numerals; a mask such as \<open>1 << 3\<close> is written as its value), the
  instruction field extractors and the five immediate decoders.

  The lemmas relate the extractors to reference encoders of the RISC-V instruction formats
  (R, I, S, B, U, J), whose arguments are words of exactly the field's width: every extractor
  recovers the field that was encoded, and every immediate comes back sign-extended.
\<close>

unbundle bit_operations_syntax

section \<open>Constants\<close>

text \<open>Major opcodes (bits 6 to 0).\<close>

abbreviation (input) OP_LUI :: u32 where "OP_LUI \<equiv> 0b0110111"
abbreviation (input) OP_AUIPC :: u32 where "OP_AUIPC \<equiv> 0b0010111"
abbreviation (input) OP_JAL :: u32 where "OP_JAL \<equiv> 0b1101111"
abbreviation (input) OP_JALR :: u32 where "OP_JALR \<equiv> 0b1100111"
abbreviation (input) OP_BRANCH :: u32 where "OP_BRANCH \<equiv> 0b1100011"
abbreviation (input) OP_LOAD :: u32 where "OP_LOAD \<equiv> 0b0000011"
abbreviation (input) OP_STORE :: u32 where "OP_STORE \<equiv> 0b0100011"
abbreviation (input) OP_IMM :: u32 where "OP_IMM \<equiv> 0b0010011"
abbreviation (input) OP_REG :: u32 where "OP_REG \<equiv> 0b0110011"
abbreviation (input) OP_FENCE :: u32 where "OP_FENCE \<equiv> 0b0001111"
abbreviation (input) OP_SYSTEM :: u32 where "OP_SYSTEM \<equiv> 0b1110011"
abbreviation (input) OP_AMO :: u32 where "OP_AMO \<equiv> 0b0101111"

text \<open>funct3 for branches.\<close>

abbreviation (input) F3_BEQ :: u32 where "F3_BEQ \<equiv> 0"
abbreviation (input) F3_BNE :: u32 where "F3_BNE \<equiv> 1"
abbreviation (input) F3_BLT :: u32 where "F3_BLT \<equiv> 0b100"
abbreviation (input) F3_BGE :: u32 where "F3_BGE \<equiv> 0b101"
abbreviation (input) F3_BLTU :: u32 where "F3_BLTU \<equiv> 0b110"
abbreviation (input) F3_BGEU :: u32 where "F3_BGEU \<equiv> 0b111"

text \<open>funct3 for loads.\<close>

abbreviation (input) F3_LB :: u32 where "F3_LB \<equiv> 0"
abbreviation (input) F3_LH :: u32 where "F3_LH \<equiv> 1"
abbreviation (input) F3_LW :: u32 where "F3_LW \<equiv> 0b010"
abbreviation (input) F3_LBU :: u32 where "F3_LBU \<equiv> 0b100"
abbreviation (input) F3_LHU :: u32 where "F3_LHU \<equiv> 0b101"

text \<open>funct3 for stores.\<close>

abbreviation (input) F3_SB :: u32 where "F3_SB \<equiv> 0"
abbreviation (input) F3_SH :: u32 where "F3_SH \<equiv> 1"
abbreviation (input) F3_SW :: u32 where "F3_SW \<equiv> 0b010"

text \<open>funct3 for ALU immediate / register.\<close>

abbreviation (input) F3_ADD_SUB :: u32 where "F3_ADD_SUB \<equiv> 0"
abbreviation (input) F3_SLL :: u32 where "F3_SLL \<equiv> 1"
abbreviation (input) F3_SLT :: u32 where "F3_SLT \<equiv> 0b010"
abbreviation (input) F3_SLTU :: u32 where "F3_SLTU \<equiv> 0b011"
abbreviation (input) F3_XOR :: u32 where "F3_XOR \<equiv> 0b100"
abbreviation (input) F3_SRL_SRA :: u32 where "F3_SRL_SRA \<equiv> 0b101"
abbreviation (input) F3_OR :: u32 where "F3_OR \<equiv> 0b110"
abbreviation (input) F3_AND :: u32 where "F3_AND \<equiv> 0b111"

text \<open>funct7.\<close>

abbreviation (input) F7_NORMAL :: u32 where "F7_NORMAL \<equiv> 0"
abbreviation (input) F7_ALT :: u32 where "F7_ALT \<equiv> 0b0100000"
abbreviation (input) F7_MULDIV :: u32 where "F7_MULDIV \<equiv> 1"

text \<open>funct3 for M extension.\<close>

abbreviation (input) F3_MUL :: u32 where "F3_MUL \<equiv> 0"
abbreviation (input) F3_MULH :: u32 where "F3_MULH \<equiv> 1"
abbreviation (input) F3_MULHSU :: u32 where "F3_MULHSU \<equiv> 0b010"
abbreviation (input) F3_MULHU :: u32 where "F3_MULHU \<equiv> 0b011"
abbreviation (input) F3_DIV :: u32 where "F3_DIV \<equiv> 0b100"
abbreviation (input) F3_DIVU :: u32 where "F3_DIVU \<equiv> 0b101"
abbreviation (input) F3_REM :: u32 where "F3_REM \<equiv> 0b110"
abbreviation (input) F3_REMU :: u32 where "F3_REMU \<equiv> 0b111"

text \<open>funct5 for A extension (bits 31 to 27).\<close>

abbreviation (input) F5_LR :: u32 where "F5_LR \<equiv> 0b00010"
abbreviation (input) F5_SC :: u32 where "F5_SC \<equiv> 0b00011"
abbreviation (input) F5_AMOSWAP :: u32 where "F5_AMOSWAP \<equiv> 1"
abbreviation (input) F5_AMOADD :: u32 where "F5_AMOADD \<equiv> 0"
abbreviation (input) F5_AMOXOR :: u32 where "F5_AMOXOR \<equiv> 0b00100"
abbreviation (input) F5_AMOAND :: u32 where "F5_AMOAND \<equiv> 0b01100"
abbreviation (input) F5_AMOOR :: u32 where "F5_AMOOR \<equiv> 0b01000"
abbreviation (input) F5_AMOMIN :: u32 where "F5_AMOMIN \<equiv> 0b10000"
abbreviation (input) F5_AMOMAX :: u32 where "F5_AMOMAX \<equiv> 0b10100"
abbreviation (input) F5_AMOMINU :: u32 where "F5_AMOMINU \<equiv> 0b11000"
abbreviation (input) F5_AMOMAXU :: u32 where "F5_AMOMAXU \<equiv> 0b11100"

text \<open>funct3 for SYSTEM.\<close>

abbreviation (input) F3_PRIV :: u32 where "F3_PRIV \<equiv> 0"
abbreviation (input) F3_CSRRW :: u32 where "F3_CSRRW \<equiv> 1"
abbreviation (input) F3_CSRRS :: u32 where "F3_CSRRS \<equiv> 0b010"
abbreviation (input) F3_CSRRC :: u32 where "F3_CSRRC \<equiv> 0b011"
abbreviation (input) F3_CSRRWI :: u32 where "F3_CSRRWI \<equiv> 0b101"
abbreviation (input) F3_CSRRSI :: u32 where "F3_CSRRSI \<equiv> 0b110"
abbreviation (input) F3_CSRRCI :: u32 where "F3_CSRRCI \<equiv> 0b111"

text \<open>SYSTEM funct12 (bits 31 to 20) of the privileged instructions.\<close>

abbreviation (input) F12_ECALL :: u32 where "F12_ECALL \<equiv> 0"
abbreviation (input) F12_EBREAK :: u32 where "F12_EBREAK \<equiv> 1"
abbreviation (input) F12_URET :: u32 where "F12_URET \<equiv> 0x002"
abbreviation (input) F12_SRET :: u32 where "F12_SRET \<equiv> 0x102"
abbreviation (input) F12_MRET :: u32 where "F12_MRET \<equiv> 0x302"
abbreviation (input) F12_WFI :: u32 where "F12_WFI \<equiv> 0x105"

text \<open>funct7 for SFENCE.VMA.\<close>

abbreviation (input) F7_SFENCE_VMA :: u32 where "F7_SFENCE_VMA \<equiv> 0b0001001"

text \<open>funct3 for FENCE.\<close>

abbreviation (input) F3_FENCE :: u32 where "F3_FENCE \<equiv> 0"
abbreviation (input) F3_FENCEI :: u32 where "F3_FENCEI \<equiv> 1"

text \<open>CSR addresses.\<close>


text \<open>User-level.\<close>

abbreviation (input) CSR_CYCLE :: u16 where "CSR_CYCLE \<equiv> 0xC00"
abbreviation (input) CSR_TIME :: u16 where "CSR_TIME \<equiv> 0xC01"
abbreviation (input) CSR_INSTRET :: u16 where "CSR_INSTRET \<equiv> 0xC02"
abbreviation (input) CSR_CYCLEH :: u16 where "CSR_CYCLEH \<equiv> 0xC80"
abbreviation (input) CSR_TIMEH :: u16 where "CSR_TIMEH \<equiv> 0xC81"
abbreviation (input) CSR_INSTRETH :: u16 where "CSR_INSTRETH \<equiv> 0xC82"

text \<open>Supervisor-level.\<close>

abbreviation (input) CSR_SSTATUS :: u16 where "CSR_SSTATUS \<equiv> 0x100"
abbreviation (input) CSR_SIE :: u16 where "CSR_SIE \<equiv> 0x104"
abbreviation (input) CSR_STVEC :: u16 where "CSR_STVEC \<equiv> 0x105"
abbreviation (input) CSR_SCOUNTEREN :: u16 where "CSR_SCOUNTEREN \<equiv> 0x106"
abbreviation (input) CSR_SSCRATCH :: u16 where "CSR_SSCRATCH \<equiv> 0x140"
abbreviation (input) CSR_SEPC :: u16 where "CSR_SEPC \<equiv> 0x141"
abbreviation (input) CSR_SCAUSE :: u16 where "CSR_SCAUSE \<equiv> 0x142"
abbreviation (input) CSR_STVAL :: u16 where "CSR_STVAL \<equiv> 0x143"
abbreviation (input) CSR_SIP :: u16 where "CSR_SIP \<equiv> 0x144"
abbreviation (input) CSR_SATP :: u16 where "CSR_SATP \<equiv> 0x180"

text \<open>Machine-level.\<close>

abbreviation (input) CSR_MSTATUS :: u16 where "CSR_MSTATUS \<equiv> 0x300"
abbreviation (input) CSR_MISA :: u16 where "CSR_MISA \<equiv> 0x301"
abbreviation (input) CSR_MEDELEG :: u16 where "CSR_MEDELEG \<equiv> 0x302"
abbreviation (input) CSR_MIDELEG :: u16 where "CSR_MIDELEG \<equiv> 0x303"
abbreviation (input) CSR_MIE :: u16 where "CSR_MIE \<equiv> 0x304"
abbreviation (input) CSR_MTVEC :: u16 where "CSR_MTVEC \<equiv> 0x305"
abbreviation (input) CSR_MCOUNTEREN :: u16 where "CSR_MCOUNTEREN \<equiv> 0x306"
abbreviation (input) CSR_MSCRATCH :: u16 where "CSR_MSCRATCH \<equiv> 0x340"
abbreviation (input) CSR_MEPC :: u16 where "CSR_MEPC \<equiv> 0x341"
abbreviation (input) CSR_MCAUSE :: u16 where "CSR_MCAUSE \<equiv> 0x342"
abbreviation (input) CSR_MTVAL :: u16 where "CSR_MTVAL \<equiv> 0x343"
abbreviation (input) CSR_MIP :: u16 where "CSR_MIP \<equiv> 0x344"

text \<open>Machine counters.\<close>

abbreviation (input) CSR_MCYCLE :: u16 where "CSR_MCYCLE \<equiv> 0xB00"
abbreviation (input) CSR_MINSTRET :: u16 where "CSR_MINSTRET \<equiv> 0xB02"
abbreviation (input) CSR_MCYCLEH :: u16 where "CSR_MCYCLEH \<equiv> 0xB80"
abbreviation (input) CSR_MINSTRETH :: u16 where "CSR_MINSTRETH \<equiv> 0xB82"

text \<open>Machine info (read-only).\<close>

abbreviation (input) CSR_MVENDORID :: u16 where "CSR_MVENDORID \<equiv> 0xF11"
abbreviation (input) CSR_MARCHID :: u16 where "CSR_MARCHID \<equiv> 0xF12"
abbreviation (input) CSR_MIMPID :: u16 where "CSR_MIMPID \<equiv> 0xF13"
abbreviation (input) CSR_MHARTID :: u16 where "CSR_MHARTID \<equiv> 0xF14"

text \<open>mstatus bit positions.\<close>

abbreviation (input) MSTATUS_MIE :: u32 where "MSTATUS_MIE \<equiv> 8"
abbreviation (input) MSTATUS_SIE :: u32 where "MSTATUS_SIE \<equiv> 2"
abbreviation (input) MSTATUS_MPIE :: u32 where "MSTATUS_MPIE \<equiv> 0x80"
abbreviation (input) MSTATUS_SPIE :: u32 where "MSTATUS_SPIE \<equiv> 0x20"
abbreviation (input) MSTATUS_MPP_SHIFT :: nat where "MSTATUS_MPP_SHIFT \<equiv> 11"
abbreviation (input) MSTATUS_MPP_MASK :: u32 where "MSTATUS_MPP_MASK \<equiv> 0x1800"
abbreviation (input) MSTATUS_SPP :: u32 where "MSTATUS_SPP \<equiv> 0x100"
abbreviation (input) MSTATUS_MPRV :: u32 where "MSTATUS_MPRV \<equiv> 0x20000"
abbreviation (input) MSTATUS_SUM :: u32 where "MSTATUS_SUM \<equiv> 0x40000"
abbreviation (input) MSTATUS_MXR :: u32 where "MSTATUS_MXR \<equiv> 0x80000"
abbreviation (input) MSTATUS_TVM :: u32 where "MSTATUS_TVM \<equiv> 0x100000"
abbreviation (input) MSTATUS_TW :: u32 where "MSTATUS_TW \<equiv> 0x200000"
abbreviation (input) MSTATUS_TSR :: u32 where "MSTATUS_TSR \<equiv> 0x400000"

text \<open>mip / mie bit positions.\<close>

abbreviation (input) MIP_SSIP :: u32 where "MIP_SSIP \<equiv> 2"
abbreviation (input) MIP_MSIP :: u32 where "MIP_MSIP \<equiv> 8"
abbreviation (input) MIP_STIP :: u32 where "MIP_STIP \<equiv> 0x20"
abbreviation (input) MIP_MTIP :: u32 where "MIP_MTIP \<equiv> 0x80"
abbreviation (input) MIP_SEIP :: u32 where "MIP_SEIP \<equiv> 0x200"
abbreviation (input) MIP_MEIP :: u32 where "MIP_MEIP \<equiv> 0x800"

text \<open>Exception cause codes (mcause/scause without interrupt bit).\<close>

abbreviation (input) CAUSE_MISALIGNED_FETCH :: u32 where "CAUSE_MISALIGNED_FETCH \<equiv> 0"
abbreviation (input) CAUSE_FETCH_ACCESS :: u32 where "CAUSE_FETCH_ACCESS \<equiv> 1"
abbreviation (input) CAUSE_ILLEGAL_INSTR :: u32 where "CAUSE_ILLEGAL_INSTR \<equiv> 2"
abbreviation (input) CAUSE_BREAKPOINT :: u32 where "CAUSE_BREAKPOINT \<equiv> 3"
abbreviation (input) CAUSE_MISALIGNED_LOAD :: u32 where "CAUSE_MISALIGNED_LOAD \<equiv> 4"
abbreviation (input) CAUSE_LOAD_ACCESS :: u32 where "CAUSE_LOAD_ACCESS \<equiv> 5"
abbreviation (input) CAUSE_MISALIGNED_STORE :: u32 where "CAUSE_MISALIGNED_STORE \<equiv> 6"
abbreviation (input) CAUSE_STORE_ACCESS :: u32 where "CAUSE_STORE_ACCESS \<equiv> 7"
abbreviation (input) CAUSE_ECALL_U :: u32 where "CAUSE_ECALL_U \<equiv> 8"
abbreviation (input) CAUSE_ECALL_S :: u32 where "CAUSE_ECALL_S \<equiv> 9"
abbreviation (input) CAUSE_ECALL_M :: u32 where "CAUSE_ECALL_M \<equiv> 11"
abbreviation (input) CAUSE_FETCH_PAGE_FAULT :: u32 where "CAUSE_FETCH_PAGE_FAULT \<equiv> 12"
abbreviation (input) CAUSE_LOAD_PAGE_FAULT :: u32 where "CAUSE_LOAD_PAGE_FAULT \<equiv> 13"
abbreviation (input) CAUSE_STORE_PAGE_FAULT :: u32 where "CAUSE_STORE_PAGE_FAULT \<equiv> 15"

text \<open>Interrupt cause codes (mcause with bit 31 set).\<close>

abbreviation (input) INT_BIT :: u32 where "INT_BIT \<equiv> 0x80000000"
abbreviation (input) IRQ_S_SOFTWARE :: u32 where "IRQ_S_SOFTWARE \<equiv> 0x80000001"
abbreviation (input) IRQ_M_SOFTWARE :: u32 where "IRQ_M_SOFTWARE \<equiv> 0x80000003"
abbreviation (input) IRQ_S_TIMER :: u32 where "IRQ_S_TIMER \<equiv> 0x80000005"
abbreviation (input) IRQ_M_TIMER :: u32 where "IRQ_M_TIMER \<equiv> 0x80000007"
abbreviation (input) IRQ_S_EXTERNAL :: u32 where "IRQ_S_EXTERNAL \<equiv> 0x80000009"
abbreviation (input) IRQ_M_EXTERNAL :: u32 where "IRQ_M_EXTERNAL \<equiv> 0x8000000b"

text \<open>Privilege levels.\<close>

abbreviation (input) PRV_U :: u8 where "PRV_U \<equiv> 0"
abbreviation (input) PRV_S :: u8 where "PRV_S \<equiv> 1"
abbreviation (input) PRV_M :: u8 where "PRV_M \<equiv> 3"

text \<open>SATP fields (Sv32).\<close>

abbreviation (input) SATP_MODE_BARE :: u32 where "SATP_MODE_BARE \<equiv> 0"
abbreviation (input) SATP_MODE_SV32 :: u32 where "SATP_MODE_SV32 \<equiv> 1"
abbreviation (input) SATP_MODE_SHIFT :: nat where "SATP_MODE_SHIFT \<equiv> 31"
abbreviation (input) SATP_PPN_MASK :: u32 where "SATP_PPN_MASK \<equiv> 0x003FFFFF"

text \<open>Page table entry bits.\<close>

abbreviation (input) PTE_V :: u32 where "PTE_V \<equiv> 1"
abbreviation (input) PTE_R :: u32 where "PTE_R \<equiv> 2"
abbreviation (input) PTE_W :: u32 where "PTE_W \<equiv> 4"
abbreviation (input) PTE_X :: u32 where "PTE_X \<equiv> 8"
abbreviation (input) PTE_U :: u32 where "PTE_U \<equiv> 0x10"
abbreviation (input) PTE_G :: u32 where "PTE_G \<equiv> 0x20"
abbreviation (input) PTE_A :: u32 where "PTE_A \<equiv> 0x40"
abbreviation (input) PTE_D :: u32 where "PTE_D \<equiv> 0x80"
abbreviation (input) PTE_PPN_SHIFT :: nat where "PTE_PPN_SHIFT \<equiv> 10"

text \<open>MISA value for RV32IMAC.\<close>

abbreviation (input) MISA_RV32 :: u32 where "MISA_RV32 \<equiv> 0x40000000"
abbreviation (input) MISA_I :: u32 where "MISA_I \<equiv> 0x100"
abbreviation (input) MISA_M :: u32 where "MISA_M \<equiv> 0x1000"
abbreviation (input) MISA_A :: u32 where "MISA_A \<equiv> 1"
abbreviation (input) MISA_C :: u32 where "MISA_C \<equiv> 4"
abbreviation (input) MISA_S :: u32 where "MISA_S \<equiv> 0x40000"
abbreviation (input) MISA_U :: u32 where "MISA_U \<equiv> 0x100000"
abbreviation (input) MISA_VALUE :: u32 where "MISA_VALUE \<equiv> 0x40141105"

section \<open>Instruction field extraction\<close>

definition opcode :: "u32 \<Rightarrow> u32" where
  "opcode instr = instr AND 0x7F"

definition rd :: "u32 \<Rightarrow> u32" where
  "rd instr = drop_bit 7 instr AND 0x1F"

definition funct3 :: "u32 \<Rightarrow> u32" where
  "funct3 instr = drop_bit 12 instr AND 0x7"

definition rs1 :: "u32 \<Rightarrow> u32" where
  "rs1 instr = drop_bit 15 instr AND 0x1F"

definition rs2 :: "u32 \<Rightarrow> u32" where
  "rs2 instr = drop_bit 20 instr AND 0x1F"

definition funct7 :: "u32 \<Rightarrow> u32" where
  "funct7 instr = drop_bit 25 instr AND 0x7F"

definition funct5 :: "u32 \<Rightarrow> u32" where
  "funct5 instr = drop_bit 27 instr AND 0x1F"

definition funct12 :: "u32 \<Rightarrow> u32" where
  "funct12 instr = drop_bit 20 instr AND 0xFFF"

text \<open>
  Immediates. The source shifts an \<open>int32_t\<close> to the right, which is the arithmetic shift
  \<open>signed_drop_bit\<close>.
\<close>

definition imm_i :: "u32 \<Rightarrow> u32" where
  "imm_i instr = signed_drop_bit 20 instr"

definition imm_s :: "u32 \<Rightarrow> u32" where
  "imm_s instr = signed_drop_bit 20 (instr AND 0xFE000000) OR (drop_bit 7 instr AND 0x1F)"

definition imm_b :: "u32 \<Rightarrow> u32" where
  "imm_b instr =
     signed_drop_bit 19 (instr AND 0x80000000) OR
     push_bit 4 (instr AND 0x80) OR
     (drop_bit 20 instr AND 0x7E0) OR
     (drop_bit 7 instr AND 0x1E)"

definition imm_u :: "u32 \<Rightarrow> u32" where
  "imm_u instr = instr AND 0xFFFFF000"

definition imm_j :: "u32 \<Rightarrow> u32" where
  "imm_j instr =
     signed_drop_bit 11 (instr AND 0x80000000) OR
     (instr AND 0xFF000) OR
     (drop_bit 9 instr AND 0x800) OR
     (drop_bit 20 instr AND 0x7FE)"

definition csr_zimm :: "u32 \<Rightarrow> u32" where
  "csr_zimm instr = rs1 instr"

lemmas field_defs = opcode_def rd_def funct3_def rs1_def rs2_def funct7_def funct5_def
  funct12_def

lemmas imm_defs = imm_i_def imm_s_def imm_b_def imm_u_def imm_j_def

section \<open>Reference encoders of the instruction formats\<close>

text \<open>
  The formats of the RISC-V unprivileged specification, with each field at its own width.
  A branch or jump offset is given without its always-zero lowest bit.
\<close>

definition enc_r :: "7 word \<Rightarrow> 5 word \<Rightarrow> 5 word \<Rightarrow> 3 word \<Rightarrow> 5 word \<Rightarrow> 7 word \<Rightarrow> u32" where
  "enc_r f7 r2 r1 f3 r op =
     push_bit 25 (ucast f7) OR push_bit 20 (ucast r2) OR push_bit 15 (ucast r1) OR
     push_bit 12 (ucast f3) OR push_bit 7 (ucast r) OR ucast op"

definition enc_i :: "12 word \<Rightarrow> 5 word \<Rightarrow> 3 word \<Rightarrow> 5 word \<Rightarrow> 7 word \<Rightarrow> u32" where
  "enc_i imm r1 f3 r op =
     push_bit 20 (ucast imm) OR push_bit 15 (ucast r1) OR
     push_bit 12 (ucast f3) OR push_bit 7 (ucast r) OR ucast op"

definition enc_s :: "12 word \<Rightarrow> 5 word \<Rightarrow> 5 word \<Rightarrow> 3 word \<Rightarrow> 7 word \<Rightarrow> u32" where
  "enc_s imm r2 r1 f3 op =
     push_bit 25 (ucast (drop_bit 5 imm)) OR push_bit 20 (ucast r2) OR push_bit 15 (ucast r1) OR
     push_bit 12 (ucast f3) OR push_bit 7 (ucast (imm AND 0x1F)) OR ucast op"

definition enc_b :: "12 word \<Rightarrow> 5 word \<Rightarrow> 5 word \<Rightarrow> 3 word \<Rightarrow> 7 word \<Rightarrow> u32" where
  "enc_b off r2 r1 f3 op =
     push_bit 31 (ucast (drop_bit 11 off)) OR push_bit 25 (ucast (drop_bit 4 off AND 0x3F)) OR
     push_bit 20 (ucast r2) OR push_bit 15 (ucast r1) OR push_bit 12 (ucast f3) OR
     push_bit 8 (ucast (off AND 0xF)) OR push_bit 7 (ucast (drop_bit 10 off AND 1)) OR ucast op"

definition enc_u :: "20 word \<Rightarrow> 5 word \<Rightarrow> 7 word \<Rightarrow> u32" where
  "enc_u imm r op = push_bit 12 (ucast imm) OR push_bit 7 (ucast r) OR ucast op"

definition enc_j :: "20 word \<Rightarrow> 5 word \<Rightarrow> 7 word \<Rightarrow> u32" where
  "enc_j off r op =
     push_bit 31 (ucast (drop_bit 19 off)) OR push_bit 21 (ucast (off AND 0x3FF)) OR
     push_bit 20 (ucast (drop_bit 10 off AND 1)) OR push_bit 12 (ucast (drop_bit 11 off AND 0xFF)) OR
     push_bit 7 (ucast r) OR ucast op"

lemmas enc_defs = enc_r_def enc_i_def enc_s_def enc_b_def enc_u_def enc_j_def


section \<open>The extractors invert the encoders\<close>

lemma fields_enc_r [simp]:
  "opcode (enc_r f7 r2 r1 f3 r op) = ucast op"
  "rd (enc_r f7 r2 r1 f3 r op) = ucast r"
  "funct3 (enc_r f7 r2 r1 f3 r op) = ucast f3"
  "rs1 (enc_r f7 r2 r1 f3 r op) = ucast r1"
  "rs2 (enc_r f7 r2 r1 f3 r op) = ucast r2"
  "funct7 (enc_r f7 r2 r1 f3 r op) = ucast f7"
  by (rule u32_eqI, simp add: field_defs enc_defs bitwise)+

lemma funct5_enc_r [simp]: "funct5 (enc_r f7 r2 r1 f3 r op) = drop_bit 2 (ucast f7)"
  by (rule u32_eqI, simp add: field_defs enc_defs bitwise)

lemma fields_enc_i [simp]:
  "opcode (enc_i imm r1 f3 r op) = ucast op"
  "rd (enc_i imm r1 f3 r op) = ucast r"
  "funct3 (enc_i imm r1 f3 r op) = ucast f3"
  "rs1 (enc_i imm r1 f3 r op) = ucast r1"
  "funct12 (enc_i imm r1 f3 r op) = ucast imm"
  "funct7 (enc_i imm r1 f3 r op) = drop_bit 5 (ucast imm)"
  "rs2 (enc_i imm r1 f3 r op) = ucast (imm AND 0x1F)"
  "imm_i (enc_i imm r1 f3 r op) = scast imm"
  by (rule u32_eqI, simp add: field_defs imm_defs enc_defs bitwise)+

lemma fields_enc_s [simp]:
  "opcode (enc_s imm r2 r1 f3 op) = ucast op"
  "funct3 (enc_s imm r2 r1 f3 op) = ucast f3"
  "rs1 (enc_s imm r2 r1 f3 op) = ucast r1"
  "rs2 (enc_s imm r2 r1 f3 op) = ucast r2"
  "imm_s (enc_s imm r2 r1 f3 op) = scast imm"
  by (rule u32_eqI, simp add: field_defs imm_defs enc_defs bitwise)+

lemma fields_enc_b [simp]:
  "opcode (enc_b off r2 r1 f3 op) = ucast op"
  "funct3 (enc_b off r2 r1 f3 op) = ucast f3"
  "rs1 (enc_b off r2 r1 f3 op) = ucast r1"
  "rs2 (enc_b off r2 r1 f3 op) = ucast r2"
  "imm_b (enc_b off r2 r1 f3 op) = scast off * 2"
  by (rule u32_eqI, simp add: field_defs imm_defs enc_defs bitwise)+

lemma fields_enc_u [simp]:
  "opcode (enc_u imm r op) = ucast op"
  "rd (enc_u imm r op) = ucast r"
  "imm_u (enc_u imm r op) = push_bit 12 (ucast imm)"
  by (rule u32_eqI, simp add: field_defs imm_defs enc_defs bitwise)+

lemma fields_enc_j [simp]:
  "opcode (enc_j off r op) = ucast op"
  "rd (enc_j off r op) = ucast r"
  "imm_j (enc_j off r op) = scast off * 2"
  by (rule u32_eqI, simp add: field_defs imm_defs enc_defs bitwise)+

text \<open>An extracted register number addresses one of the 32 registers.\<close>

lemma field_bounds [simp]:
  "rd i < 32" "rs1 i < 32" "rs2 i < 32"
  by (simp_all add: field_defs word_and_less)

end
