(* ===== verification/Decode.thy ===== *)
theory Decode
  imports RV32_Defs
begin

text \<open>
  Model of \<open>src/src/cpu/decode.h\<close> and \<open>src/src/cpu/decode.cpp\<close>: the decoded-instruction
  record, the 32-bit decoder \<open>decode32\<close>, the RVC expander \<open>expand_compressed\<close> and the
  top-level \<open>decode\<close>. Each arm of the source's opcode switch is a definition of its own
  (\<open>decode_branch\<close>, \<open>decode_load\<close>, ...), each quadrant of the RVC expander too.
  In the RVC expander the 16-bit parcel is promoted to \<open>int\<close> before it is shifted, so the
  model works on its 32-bit zero extension; an \<open>int32_t\<close> is shifted arithmetically.
\<close>

unbundle bit_operations_syntax

section \<open>Decoded instructions\<close>

datatype (plugins only: code) InstrType =
    I_LUI | I_AUIPC | I_JAL | I_JALR
  | I_BEQ | I_BNE | I_BLT | I_BGE | I_BLTU | I_BGEU
  | I_LB | I_LH | I_LW | I_LBU | I_LHU
  | I_SB | I_SH | I_SW
  | I_ADDI | I_SLTI | I_SLTIU | I_XORI | I_ORI | I_ANDI | I_SLLI | I_SRLI | I_SRAI
  | I_ADD | I_SUB | I_SLL | I_SLT | I_SLTU | I_XOR | I_SRL | I_SRA | I_OR | I_AND
  | I_MUL | I_MULH | I_MULHSU | I_MULHU | I_DIV | I_DIVU | I_REM | I_REMU
  | I_LR_W | I_SC_W | I_AMOSWAP_W | I_AMOADD_W | I_AMOXOR_W | I_AMOAND_W | I_AMOOR_W
  | I_AMOMIN_W | I_AMOMAX_W | I_AMOMINU_W | I_AMOMAXU_W
  | I_ECALL | I_EBREAK | I_MRET | I_SRET | I_URET | I_WFI | I_SFENCE_VMA
  | I_CSRRW | I_CSRRS | I_CSRRC | I_CSRRWI | I_CSRRSI | I_CSRRCI
  | I_FENCE | I_FENCEI
  | I_ILLEGAL

record DecodedInstr =
  d_type :: InstrType
  d_rd :: u32
  d_rs1 :: u32
  d_rs2 :: u32
  d_imm :: u32
  d_csr :: u32
  d_raw :: u32
  d_compressed :: bool

text \<open>The default member initialisers of the struct.\<close>

definition DecodedInstr_init :: DecodedInstr where
  "DecodedInstr_init = \<lparr>d_type = I_ILLEGAL, d_rd = 0, d_rs1 = 0, d_rs2 = 0, d_imm = 0,
     d_csr = 0, d_raw = 0, d_compressed = False\<rparr>"

definition instr_len :: "DecodedInstr \<Rightarrow> u32" where
  "instr_len d = (if d_compressed d then 2 else 4)"

section \<open>The 32-bit decoder\<close>

definition decode_branch :: "u32 \<Rightarrow> DecodedInstr \<Rightarrow> DecodedInstr" where
  "decode_branch instr d = (let f3 = funct3 instr in
     d\<lparr>d_rs1 := rs1 instr, d_rs2 := rs2 instr, d_imm := imm_b instr,
       d_type :=
         (if f3 = F3_BEQ then I_BEQ
          else if f3 = F3_BNE then I_BNE
          else if f3 = F3_BLT then I_BLT
          else if f3 = F3_BGE then I_BGE
          else if f3 = F3_BLTU then I_BLTU
          else if f3 = F3_BGEU then I_BGEU
          else I_ILLEGAL)\<rparr>)"

definition decode_load :: "u32 \<Rightarrow> DecodedInstr \<Rightarrow> DecodedInstr" where
  "decode_load instr d = (let f3 = funct3 instr in
     d\<lparr>d_rd := rd instr, d_rs1 := rs1 instr, d_imm := imm_i instr,
       d_type :=
         (if f3 = F3_LB then I_LB
          else if f3 = F3_LH then I_LH
          else if f3 = F3_LW then I_LW
          else if f3 = F3_LBU then I_LBU
          else if f3 = F3_LHU then I_LHU
          else I_ILLEGAL)\<rparr>)"

definition decode_store :: "u32 \<Rightarrow> DecodedInstr \<Rightarrow> DecodedInstr" where
  "decode_store instr d = (let f3 = funct3 instr in
     d\<lparr>d_rs1 := rs1 instr, d_rs2 := rs2 instr, d_imm := imm_s instr,
       d_type :=
         (if f3 = F3_SB then I_SB
          else if f3 = F3_SH then I_SH
          else if f3 = F3_SW then I_SW
          else I_ILLEGAL)\<rparr>)"

definition decode_op_imm :: "u32 \<Rightarrow> DecodedInstr \<Rightarrow> DecodedInstr" where
  "decode_op_imm instr d0 =
     (let d = d0\<lparr>d_rd := rd instr, d_rs1 := rs1 instr, d_imm := imm_i instr\<rparr>;
          f3 = funct3 instr; f7 = funct7 instr
      in if f3 = F3_ADD_SUB then d\<lparr>d_type := I_ADDI\<rparr>
         else if f3 = F3_SLT then d\<lparr>d_type := I_SLTI\<rparr>
         else if f3 = F3_SLTU then d\<lparr>d_type := I_SLTIU\<rparr>
         else if f3 = F3_XOR then d\<lparr>d_type := I_XORI\<rparr>
         else if f3 = F3_OR then d\<lparr>d_type := I_ORI\<rparr>
         else if f3 = F3_AND then d\<lparr>d_type := I_ANDI\<rparr>
         else if f3 = F3_SLL then
           d\<lparr>d_type := (if f7 = F7_NORMAL then I_SLLI else I_ILLEGAL), d_imm := rs2 instr\<rparr>
         else if f3 = F3_SRL_SRA then
           d\<lparr>d_type := (if f7 = F7_NORMAL then I_SRLI
                        else if f7 = F7_ALT then I_SRAI else I_ILLEGAL),
             d_imm := rs2 instr\<rparr>
         else d\<lparr>d_type := I_ILLEGAL\<rparr>)"

definition decode_op_reg :: "u32 \<Rightarrow> DecodedInstr \<Rightarrow> DecodedInstr" where
  "decode_op_reg instr d0 =
     (let d = d0\<lparr>d_rd := rd instr, d_rs1 := rs1 instr, d_rs2 := rs2 instr\<rparr>;
          f3 = funct3 instr; f7 = funct7 instr
      in if f7 = F7_MULDIV then
           (if f3 = F3_MUL then d\<lparr>d_type := I_MUL\<rparr>
            else if f3 = F3_MULH then d\<lparr>d_type := I_MULH\<rparr>
            else if f3 = F3_MULHSU then d\<lparr>d_type := I_MULHSU\<rparr>
            else if f3 = F3_MULHU then d\<lparr>d_type := I_MULHU\<rparr>
            else if f3 = F3_DIV then d\<lparr>d_type := I_DIV\<rparr>
            else if f3 = F3_DIVU then d\<lparr>d_type := I_DIVU\<rparr>
            else if f3 = F3_REM then d\<lparr>d_type := I_REM\<rparr>
            else if f3 = F3_REMU then d\<lparr>d_type := I_REMU\<rparr>
            else d)
         else if f7 = F7_NORMAL then
           (if f3 = F3_ADD_SUB then d\<lparr>d_type := I_ADD\<rparr>
            else if f3 = F3_SLL then d\<lparr>d_type := I_SLL\<rparr>
            else if f3 = F3_SLT then d\<lparr>d_type := I_SLT\<rparr>
            else if f3 = F3_SLTU then d\<lparr>d_type := I_SLTU\<rparr>
            else if f3 = F3_XOR then d\<lparr>d_type := I_XOR\<rparr>
            else if f3 = F3_SRL_SRA then d\<lparr>d_type := I_SRL\<rparr>
            else if f3 = F3_OR then d\<lparr>d_type := I_OR\<rparr>
            else if f3 = F3_AND then d\<lparr>d_type := I_AND\<rparr>
            else d)
         else if f7 = F7_ALT then
           (if f3 = F3_ADD_SUB then d\<lparr>d_type := I_SUB\<rparr>
            else if f3 = F3_SRL_SRA then d\<lparr>d_type := I_SRA\<rparr>
            else d\<lparr>d_type := I_ILLEGAL\<rparr>)
         else d\<lparr>d_type := I_ILLEGAL\<rparr>)"

definition decode_amo :: "u32 \<Rightarrow> DecodedInstr \<Rightarrow> DecodedInstr" where
  "decode_amo instr d0 =
     (let d = d0\<lparr>d_rd := rd instr, d_rs1 := rs1 instr, d_rs2 := rs2 instr\<rparr>;
          f5 = funct5 instr
      in if funct3 instr \<noteq> 0b010 then d\<lparr>d_type := I_ILLEGAL\<rparr>
         else d\<lparr>d_type :=
           (if f5 = F5_LR then I_LR_W
            else if f5 = F5_SC then I_SC_W
            else if f5 = F5_AMOSWAP then I_AMOSWAP_W
            else if f5 = F5_AMOADD then I_AMOADD_W
            else if f5 = F5_AMOXOR then I_AMOXOR_W
            else if f5 = F5_AMOAND then I_AMOAND_W
            else if f5 = F5_AMOOR then I_AMOOR_W
            else if f5 = F5_AMOMIN then I_AMOMIN_W
            else if f5 = F5_AMOMAX then I_AMOMAX_W
            else if f5 = F5_AMOMINU then I_AMOMINU_W
            else if f5 = F5_AMOMAXU then I_AMOMAXU_W
            else I_ILLEGAL)\<rparr>)"

definition decode_system :: "u32 \<Rightarrow> DecodedInstr \<Rightarrow> DecodedInstr" where
  "decode_system instr d =
     (let f3 = funct3 instr
      in if f3 = F3_PRIV then
           (let f7v = funct7 instr; f12v = funct12 instr
            in if f7v = F7_SFENCE_VMA then
                 d\<lparr>d_type := I_SFENCE_VMA, d_rs1 := rs1 instr, d_rs2 := rs2 instr\<rparr>
               else d\<lparr>d_type :=
                 (if f12v = F12_ECALL then I_ECALL
                  else if f12v = F12_EBREAK then I_EBREAK
                  else if f12v = F12_MRET then I_MRET
                  else if f12v = F12_SRET then I_SRET
                  else if f12v = F12_URET then I_URET
                  else if f12v = F12_WFI then I_WFI
                  else I_ILLEGAL)\<rparr>)
         else d\<lparr>d_rd := rd instr, d_rs1 := rs1 instr, d_csr := funct12 instr,
                d_imm := csr_zimm instr,
                d_type :=
                  (if f3 = F3_CSRRW then I_CSRRW
                   else if f3 = F3_CSRRS then I_CSRRS
                   else if f3 = F3_CSRRC then I_CSRRC
                   else if f3 = F3_CSRRWI then I_CSRRWI
                   else if f3 = F3_CSRRSI then I_CSRRSI
                   else if f3 = F3_CSRRCI then I_CSRRCI
                   else I_ILLEGAL)\<rparr>)"

definition decode32 :: "u32 \<Rightarrow> DecodedInstr" where
  "decode32 instr =
     (let d = DecodedInstr_init\<lparr>d_raw := instr\<rparr>; op = opcode instr
      in if op = OP_LUI then d\<lparr>d_type := I_LUI, d_rd := rd instr, d_imm := imm_u instr\<rparr>
         else if op = OP_AUIPC then d\<lparr>d_type := I_AUIPC, d_rd := rd instr, d_imm := imm_u instr\<rparr>
         else if op = OP_JAL then d\<lparr>d_type := I_JAL, d_rd := rd instr, d_imm := imm_j instr\<rparr>
         else if op = OP_JALR then
           d\<lparr>d_type := I_JALR, d_rd := rd instr, d_rs1 := rs1 instr, d_imm := imm_i instr\<rparr>
         else if op = OP_BRANCH then decode_branch instr d
         else if op = OP_LOAD then decode_load instr d
         else if op = OP_STORE then decode_store instr d
         else if op = OP_IMM then decode_op_imm instr d
         else if op = OP_REG then decode_op_reg instr d
         else if op = OP_AMO then decode_amo instr d
         else if op = OP_FENCE then
           d\<lparr>d_type := (if funct3 instr = F3_FENCEI then I_FENCEI else I_FENCE)\<rparr>
         else if op = OP_SYSTEM then decode_system instr d
         else d\<lparr>d_type := I_ILLEGAL\<rparr>)"

section \<open>RVC expansion\<close>

definition creg :: "u32 \<Rightarrow> u32" where
  "creg bits = bits + 8"

definition expand_q0 :: "u32 \<Rightarrow> u32 \<Rightarrow> u32" where
  "expand_q0 ci f3 =
     (if f3 = 0b000 then
        (let nzuimm = (drop_bit 1 ci AND 0x3C0) OR (drop_bit 7 ci AND 0x30) OR
                      (drop_bit 2 ci AND 0x8) OR (drop_bit 4 ci AND 0x4)
         in if nzuimm = 0 then 0
            else let rdp = creg (drop_bit 2 ci AND 0x7)
                 in push_bit 20 nzuimm OR push_bit 15 2 OR push_bit 12 0b000 OR
                    push_bit 7 rdp OR OP_IMM)
      else if f3 = 0b010 then
        (let rs1p = creg (drop_bit 7 ci AND 0x7);
             rdp = creg (drop_bit 2 ci AND 0x7);
             off = (drop_bit 7 ci AND 0x38) OR (drop_bit 4 ci AND 0x4) OR (push_bit 1 ci AND 0x40)
         in push_bit 20 off OR push_bit 15 rs1p OR push_bit 12 0b010 OR
            push_bit 7 rdp OR OP_LOAD)
      else if f3 = 0b110 then
        (let rs1p = creg (drop_bit 7 ci AND 0x7);
             rs2p = creg (drop_bit 2 ci AND 0x7);
             off = (drop_bit 7 ci AND 0x38) OR (drop_bit 4 ci AND 0x4) OR (push_bit 1 ci AND 0x40);
             imm_s_hi = drop_bit 5 off AND 0x7F;
             imm_s_lo = off AND 0x1F
         in push_bit 25 imm_s_hi OR push_bit 20 rs2p OR push_bit 15 rs1p OR
            push_bit 12 0b010 OR push_bit 7 imm_s_lo OR OP_STORE)
      else 0)"

text \<open>The six-bit signed immediate of C.ADDI, C.LI, C.LUI and C.ANDI.\<close>

definition c_imm6 :: "u32 \<Rightarrow> u32" where
  "c_imm6 ci =
     (let imm = (drop_bit 7 ci AND 0x20) OR (drop_bit 2 ci AND 0x1F)
      in if imm AND 0x20 \<noteq> 0 then imm OR NOT 0x3F else imm)"

text \<open>The jump immediate of C.JAL and C.J, already placed in its J-format position.\<close>

definition c_jump_imm20 :: "u32 \<Rightarrow> u32" where
  "c_jump_imm20 ci =
     (let off0 = (drop_bit 1 ci AND 0x800) OR (drop_bit 7 ci AND 0x10) OR
                 (drop_bit 1 ci AND 0x300) OR (push_bit 2 ci AND 0x400) OR
                 (drop_bit 1 ci AND 0x40) OR (push_bit 1 ci AND 0x80) OR
                 (drop_bit 2 ci AND 0xE) OR (push_bit 3 ci AND 0x20);
          off = (if off0 AND 0x800 \<noteq> 0 then off0 OR NOT 0xFFF else off0)
      in push_bit 31 (signed_drop_bit 20 off AND 0x1) OR
         push_bit 21 (signed_drop_bit 1 off AND 0x3FF) OR
         push_bit 20 (signed_drop_bit 11 off AND 0x1) OR
         push_bit 12 (signed_drop_bit 12 off AND 0xFF))"

text \<open>C.BEQZ and C.BNEZ; the two source cases differ in the funct3 they emit.\<close>

definition expand_cb :: "u32 \<Rightarrow> u32 \<Rightarrow> u32" where
  "expand_cb ci bf3 =
     (let rs1p = creg (drop_bit 7 ci AND 0x7);
          off0 = (drop_bit 4 ci AND 0x100) OR (drop_bit 7 ci AND 0x18) OR
                 (push_bit 1 ci AND 0xC0) OR (drop_bit 2 ci AND 0x6) OR
                 (push_bit 3 ci AND 0x20);
          off = (if off0 AND 0x100 \<noteq> 0 then off0 OR NOT 0x1FF else off0);
          imm_hi = push_bit 6 (signed_drop_bit 12 off AND 0x1) OR (signed_drop_bit 5 off AND 0x3F);
          imm_lo = push_bit 1 (signed_drop_bit 1 off AND 0xF) OR (signed_drop_bit 11 off AND 0x1)
      in push_bit 25 imm_hi OR push_bit 20 0 OR push_bit 15 rs1p OR
         push_bit 12 bf3 OR push_bit 7 imm_lo OR OP_BRANCH)"

text \<open>C.ADDI16SP and C.LUI, selected by the register field.\<close>

definition expand_c_lui :: "u32 \<Rightarrow> u32" where
  "expand_c_lui ci =
     (let r = drop_bit 7 ci AND 0x1F
      in if r = 2 then
           (let nz0 = (drop_bit 3 ci AND 0x200) OR (drop_bit 2 ci AND 0x10) OR
                      (push_bit 1 ci AND 0x40) OR (push_bit 4 ci AND 0x180) OR
                      (push_bit 3 ci AND 0x20);
                nzimm = (if nz0 AND 0x200 \<noteq> 0 then nz0 OR NOT 0x3FF else nz0)
            in if nzimm = 0 then 0
               else push_bit 20 nzimm OR push_bit 15 2 OR push_bit 12 0b000 OR
                    push_bit 7 2 OR OP_IMM)
         else
           (let nzimm = c_imm6 ci
            in if nzimm = 0 then 0
               else push_bit 12 nzimm OR push_bit 7 r OR OP_LUI))"

text \<open>C.SRLI, C.SRAI, C.ANDI, C.SUB, C.XOR, C.OR and C.AND.\<close>

definition expand_c_alu :: "u32 \<Rightarrow> u32" where
  "expand_c_alu ci =
     (let rdp = creg (drop_bit 7 ci AND 0x7);
          sub = drop_bit 10 ci AND 0x3;
          shamt = (drop_bit 7 ci AND 0x20) OR (drop_bit 2 ci AND 0x1F)
      in if sub = 0b00 then
           push_bit 25 F7_NORMAL OR push_bit 20 shamt OR push_bit 15 rdp OR
           push_bit 12 F3_SRL_SRA OR push_bit 7 rdp OR OP_IMM
         else if sub = 0b01 then
           push_bit 25 F7_ALT OR push_bit 20 shamt OR push_bit 15 rdp OR
           push_bit 12 F3_SRL_SRA OR push_bit 7 rdp OR OP_IMM
         else if sub = 0b10 then
           push_bit 20 (c_imm6 ci) OR push_bit 15 rdp OR
           push_bit 12 F3_AND OR push_bit 7 rdp OR OP_IMM
         else
           (let rs2p = creg (drop_bit 2 ci AND 0x7);
                sub2 = drop_bit 5 ci AND 0x3;
                hi = (drop_bit 12 ci AND 0x1 \<noteq> 0)
            in if \<not> hi then
                 (if sub2 = 0b00 then
                    push_bit 25 F7_ALT OR push_bit 20 rs2p OR push_bit 15 rdp OR
                    push_bit 12 F3_ADD_SUB OR push_bit 7 rdp OR OP_REG
                  else if sub2 = 0b01 then
                    push_bit 25 F7_NORMAL OR push_bit 20 rs2p OR push_bit 15 rdp OR
                    push_bit 12 F3_XOR OR push_bit 7 rdp OR OP_REG
                  else if sub2 = 0b10 then
                    push_bit 25 F7_NORMAL OR push_bit 20 rs2p OR push_bit 15 rdp OR
                    push_bit 12 F3_OR OR push_bit 7 rdp OR OP_REG
                  else
                    push_bit 25 F7_NORMAL OR push_bit 20 rs2p OR push_bit 15 rdp OR
                    push_bit 12 F3_AND OR push_bit 7 rdp OR OP_REG)
               else 0))"

definition expand_q1 :: "u32 \<Rightarrow> u32 \<Rightarrow> u32" where
  "expand_q1 ci f3 =
     (let r = drop_bit 7 ci AND 0x1F
      in if f3 = 0b000 then
           push_bit 20 (c_imm6 ci) OR push_bit 15 r OR push_bit 12 0b000 OR push_bit 7 r OR OP_IMM
         else if f3 = 0b001 then
           c_jump_imm20 ci OR push_bit 7 1 OR OP_JAL
         else if f3 = 0b010 then
           push_bit 20 (c_imm6 ci) OR push_bit 15 0 OR push_bit 12 0b000 OR push_bit 7 r OR OP_IMM
         else if f3 = 0b011 then expand_c_lui ci
         else if f3 = 0b100 then expand_c_alu ci
         else if f3 = 0b101 then
           c_jump_imm20 ci OR push_bit 7 0 OR OP_JAL
         else if f3 = 0b110 then expand_cb ci F3_BEQ
         else if f3 = 0b111 then expand_cb ci F3_BNE
         else 0)"

definition expand_q2 :: "u32 \<Rightarrow> u32 \<Rightarrow> u32" where
  "expand_q2 ci f3 =
     (if f3 = 0b000 then
        (let r = drop_bit 7 ci AND 0x1F;
             shamt = (drop_bit 7 ci AND 0x20) OR (drop_bit 2 ci AND 0x1F)
         in push_bit 25 F7_NORMAL OR push_bit 20 shamt OR push_bit 15 r OR
            push_bit 12 F3_SLL OR push_bit 7 r OR OP_IMM)
      else if f3 = 0b010 then
        (let r = drop_bit 7 ci AND 0x1F
         in if r = 0 then 0
            else let off = (drop_bit 7 ci AND 0x20) OR (drop_bit 2 ci AND 0x1C) OR (push_bit 4 ci AND 0xC0)
                 in push_bit 20 off OR push_bit 15 2 OR push_bit 12 0b010 OR push_bit 7 r OR OP_LOAD)
      else if f3 = 0b100 then
        (let r1 = drop_bit 7 ci AND 0x1F;
             r2 = drop_bit 2 ci AND 0x1F;
             hi = (drop_bit 12 ci AND 0x1 \<noteq> 0)
         in if \<not> hi then
              (if r2 = 0 then
                 (if r1 = 0 then 0
                  else push_bit 15 r1 OR push_bit 12 0 OR push_bit 7 0 OR OP_JALR)
               else push_bit 25 F7_NORMAL OR push_bit 20 r2 OR push_bit 15 0 OR
                    push_bit 12 F3_ADD_SUB OR push_bit 7 r1 OR OP_REG)
            else
              (if r2 = 0 then
                 (if r1 = 0 then push_bit 20 F12_EBREAK OR OP_SYSTEM
                  else push_bit 15 r1 OR push_bit 12 0 OR push_bit 7 1 OR OP_JALR)
               else push_bit 25 F7_NORMAL OR push_bit 20 r2 OR push_bit 15 r1 OR
                    push_bit 12 F3_ADD_SUB OR push_bit 7 r1 OR OP_REG))
      else if f3 = 0b110 then
        (let r2 = drop_bit 2 ci AND 0x1F;
             off = (drop_bit 7 ci AND 0x3C) OR (drop_bit 1 ci AND 0xC0);
             imm_hi = drop_bit 5 off AND 0x7F;
             imm_lo = off AND 0x1F
         in push_bit 25 imm_hi OR push_bit 20 r2 OR push_bit 15 2 OR
            push_bit 12 0b010 OR push_bit 7 imm_lo OR OP_STORE)
      else 0)"

definition expand_compressed :: "u16 \<Rightarrow> u32" where
  "expand_compressed c =
     (let ci = ucast c; op = ci AND 0x3; f3 = drop_bit 13 ci AND 0x7
      in if op = 0b00 then expand_q0 ci f3
         else if op = 0b01 then expand_q1 ci f3
         else if op = 0b10 then expand_q2 ci f3
         else 0)"

section \<open>The top-level decoder\<close>

definition decode :: "u32 \<Rightarrow> DecodedInstr" where
  "decode instr =
     (if instr AND 0x3 \<noteq> 0x3 then
        (let expanded = expand_compressed (ucast (instr AND 0xFFFF))
         in if expanded = 0 then
              DecodedInstr_init\<lparr>d_raw := instr AND 0xFFFF, d_compressed := True, d_type := I_ILLEGAL\<rparr>
            else (decode32 expanded)\<lparr>d_raw := instr AND 0xFFFF, d_compressed := True\<rparr>)
      else decode32 instr)"

end
