(* ===== verification/CSR.thy ===== *)
theory CSR
  imports RV32_Defs
begin

text \<open>
  Model of \<open>src/src/cpu/csr.h\<close> and \<open>src/src/cpu/csr.cpp\<close>: the control and status register
  file. \<open>csr_read\<close> and \<open>csr_write\<close> are \<open>CSRFile::read\<close> and \<open>CSRFile::write\<close>; the
  C++ result \<open>false\<close> is \<open>None\<close>. A successful write also says whether the
  \<open>on_satp_write\<close> callback is invoked: the callback belongs to the instruction set
  simulator, which sequences it (the write of \<open>satp\<close> precedes it and nothing follows it).

  The lemmas give the invariant of the register file (the legal values of its WARL fields),
  the value read back after each write, the independence of unrelated registers, the
  confinement of supervisor and user code, and the 64-bit counters.
\<close>

unbundle bit_operations_syntax

section \<open>The register file\<close>

record CSRFile =
  mstatus :: u32
  misa :: u32
  medeleg :: u32
  mideleg :: u32
  mie :: u32
  mtvec :: u32
  mcounteren :: u32
  mscratch :: u32
  mepc :: u32
  mcause :: u32
  mtval :: u32
  stvec :: u32
  scounteren :: u32
  sscratch :: u32
  sepc :: u32
  scause :: u32
  stval :: u32
  satp :: u32
  mcycle :: u32
  mcycleh :: u32
  minstret :: u32
  minstreth :: u32
  hw_mip :: u32
  sw_mip :: u32

text \<open>The masks of the class, as the sums of bits that the source writes.\<close>

definition MSTATUS_WRITE_MASK :: u32 where
  "MSTATUS_WRITE_MASK =
     push_bit 1 1 OR push_bit 3 1 OR push_bit 5 1 OR push_bit 7 1 OR
     push_bit 8 1 OR push_bit 11 3 OR
     push_bit 17 1 OR push_bit 18 1 OR push_bit 19 1 OR
     push_bit 20 1 OR push_bit 21 1 OR push_bit 22 1"

definition SSTATUS_MASK :: u32 where
  "SSTATUS_MASK = push_bit 1 1 OR push_bit 5 1 OR push_bit 8 1 OR push_bit 18 1 OR push_bit 19 1"

definition S_INT_MASK :: u32 where
  "S_INT_MASK = push_bit 1 1 OR push_bit 5 1 OR push_bit 9 1"

definition CSRFile_init :: CSRFile where
  "CSRFile_init = \<lparr>mstatus = 0, misa = MISA_VALUE, medeleg = 0, mideleg = 0, mie = 0, mtvec = 0,
     mcounteren = 0, mscratch = 0, mepc = 0, mcause = 0, mtval = 0, stvec = 0, scounteren = 0,
     sscratch = 0, sepc = 0, scause = 0, stval = 0, satp = 0, mcycle = 0, mcycleh = 0,
     minstret = 0, minstreth = 0, hw_mip = 0, sw_mip = 0\<rparr>"

definition get_mip :: "CSRFile \<Rightarrow> u32" where
  "get_mip c = sw_mip c OR hw_mip c"

definition inc_mcycle :: "CSRFile \<Rightarrow> CSRFile" where
  "inc_mcycle c = (let c' = c\<lparr>mcycle := mcycle c + 1\<rparr>
     in if mcycle c' = 0 then c'\<lparr>mcycleh := mcycleh c' + 1\<rparr> else c')"

definition inc_minstret :: "CSRFile \<Rightarrow> CSRFile" where
  "inc_minstret c = (let c' = c\<lparr>minstret := minstret c + 1\<rparr>
     in if minstret c' = 0 then c'\<lparr>minstreth := minstreth c' + 1\<rparr> else c')"

definition set_hw_bit :: "nat \<Rightarrow> bool \<Rightarrow> CSRFile \<Rightarrow> CSRFile" where
  "set_hw_bit n v c =
     (if v then c\<lparr>hw_mip := hw_mip c OR push_bit n 1\<rparr>
      else c\<lparr>hw_mip := hw_mip c AND NOT (push_bit n 1)\<rparr>)"

definition set_mip_mtip :: "bool \<Rightarrow> CSRFile \<Rightarrow> CSRFile" where "set_mip_mtip = set_hw_bit 7"

definition set_mip_msip :: "bool \<Rightarrow> CSRFile \<Rightarrow> CSRFile" where "set_mip_msip = set_hw_bit 3"

definition set_mip_meip :: "bool \<Rightarrow> CSRFile \<Rightarrow> CSRFile" where "set_mip_meip = set_hw_bit 11"

definition set_mip_seip :: "bool \<Rightarrow> CSRFile \<Rightarrow> CSRFile" where "set_mip_seip = set_hw_bit 9"

definition set_mip_stip :: "bool \<Rightarrow> CSRFile \<Rightarrow> CSRFile" where "set_mip_stip = set_hw_bit 5"

definition set_mip_ssip :: "bool \<Rightarrow> CSRFile \<Rightarrow> CSRFile" where "set_mip_ssip = set_hw_bit 1"

section \<open>Access\<close>

definition priv_ok :: "u16 \<Rightarrow> u8 \<Rightarrow> bool" where
  "priv_ok addr priv = (let required = ucast (drop_bit 8 addr AND 0x3) in required \<le> priv)"

definition is_read_only :: "u16 \<Rightarrow> bool" where
  "is_read_only addr = (drop_bit 10 addr AND 0x3 = 0x3)"

definition csr_read :: "CSRFile \<Rightarrow> u16 \<Rightarrow> u8 \<Rightarrow> u32 option" where
  "csr_read c addr priv =
     (if \<not> priv_ok addr priv then None
      else if addr = CSR_MVENDORID then Some 0
      else if addr = CSR_MARCHID then Some 0
      else if addr = CSR_MIMPID then Some 0
      else if addr = CSR_MHARTID then Some 0
      else if addr = CSR_MSTATUS then Some (mstatus c)
      else if addr = CSR_MISA then Some (misa c)
      else if addr = CSR_MEDELEG then Some (medeleg c)
      else if addr = CSR_MIDELEG then Some (mideleg c)
      else if addr = CSR_MIE then Some (mie c)
      else if addr = CSR_MTVEC then Some (mtvec c)
      else if addr = CSR_MCOUNTEREN then Some (mcounteren c)
      else if addr = CSR_MSCRATCH then Some (mscratch c)
      else if addr = CSR_MEPC then Some (mepc c)
      else if addr = CSR_MCAUSE then Some (mcause c)
      else if addr = CSR_MTVAL then Some (mtval c)
      else if addr = CSR_MIP then Some (get_mip c)
      else if addr = CSR_MCYCLE then Some (mcycle c)
      else if addr = CSR_MCYCLEH then Some (mcycleh c)
      else if addr = CSR_MINSTRET then Some (minstret c)
      else if addr = CSR_MINSTRETH then Some (minstreth c)
      else if addr = CSR_CYCLE then Some (mcycle c)
      else if addr = CSR_CYCLEH then Some (mcycleh c)
      else if addr = CSR_INSTRET then Some (minstret c)
      else if addr = CSR_INSTRETH then Some (minstreth c)
      else if addr = CSR_TIME then Some (mcycle c)
      else if addr = CSR_TIMEH then Some (mcycleh c)
      else if addr = CSR_SSTATUS then Some (mstatus c AND SSTATUS_MASK)
      else if addr = CSR_SIE then Some (mie c AND S_INT_MASK)
      else if addr = CSR_STVEC then Some (stvec c)
      else if addr = CSR_SCOUNTEREN then Some (scounteren c)
      else if addr = CSR_SSCRATCH then Some (sscratch c)
      else if addr = CSR_SEPC then Some (sepc c)
      else if addr = CSR_SCAUSE then Some (scause c)
      else if addr = CSR_STVAL then Some (stval c)
      else if addr = CSR_SIP then Some (get_mip c AND S_INT_MASK)
      else if addr = CSR_SATP then Some (satp c)
      else None)"

text \<open>The \<open>mstatus\<close> case: mask, then replace the illegal MPP value 2 by U.\<close>

definition write_mstatus :: "u32 \<Rightarrow> u32" where
  "write_mstatus val =
     (let ms = val AND MSTATUS_WRITE_MASK; mpp = drop_bit 11 ms AND 0x3
      in if mpp = 2 then ms AND NOT (push_bit 11 3) else ms)"

definition csr_write :: "CSRFile \<Rightarrow> u16 \<Rightarrow> u8 \<Rightarrow> u32 \<Rightarrow> (CSRFile \<times> bool) option" where
  "csr_write c addr priv val =
     (if \<not> priv_ok addr priv then None
      else if is_read_only addr then None
      else if addr = CSR_MSTATUS then Some (c\<lparr>mstatus := write_mstatus val\<rparr>, False)
      else if addr = CSR_MISA then Some (c, False)
      else if addr = CSR_MEDELEG then Some (c\<lparr>medeleg := val\<rparr>, False)
      else if addr = CSR_MIDELEG then Some (c\<lparr>mideleg := val\<rparr>, False)
      else if addr = CSR_MIE then Some (c\<lparr>mie := val\<rparr>, False)
      else if addr = CSR_MTVEC then Some (c\<lparr>mtvec := val\<rparr>, False)
      else if addr = CSR_MCOUNTEREN then Some (c\<lparr>mcounteren := val\<rparr>, False)
      else if addr = CSR_MSCRATCH then Some (c\<lparr>mscratch := val\<rparr>, False)
      else if addr = CSR_MEPC then Some (c\<lparr>mepc := val AND NOT 0x1\<rparr>, False)
      else if addr = CSR_MCAUSE then Some (c\<lparr>mcause := val\<rparr>, False)
      else if addr = CSR_MTVAL then Some (c\<lparr>mtval := val\<rparr>, False)
      else if addr = CSR_MIP then Some (c\<lparr>sw_mip := val AND push_bit 1 1\<rparr>, False)
      else if addr = CSR_MCYCLE then Some (c\<lparr>mcycle := val\<rparr>, False)
      else if addr = CSR_MCYCLEH then Some (c\<lparr>mcycleh := val\<rparr>, False)
      else if addr = CSR_MINSTRET then Some (c\<lparr>minstret := val\<rparr>, False)
      else if addr = CSR_MINSTRETH then Some (c\<lparr>minstreth := val\<rparr>, False)
      else if addr = CSR_SSTATUS then
        Some (c\<lparr>mstatus := (mstatus c AND NOT SSTATUS_MASK) OR (val AND SSTATUS_MASK)\<rparr>, False)
      else if addr = CSR_SIE then
        Some (c\<lparr>mie := (mie c AND NOT S_INT_MASK) OR (val AND S_INT_MASK)\<rparr>, False)
      else if addr = CSR_STVEC then Some (c\<lparr>stvec := val\<rparr>, False)
      else if addr = CSR_SCOUNTEREN then Some (c\<lparr>scounteren := val\<rparr>, False)
      else if addr = CSR_SSCRATCH then Some (c\<lparr>sscratch := val\<rparr>, False)
      else if addr = CSR_SEPC then Some (c\<lparr>sepc := val AND NOT 0x1\<rparr>, False)
      else if addr = CSR_SCAUSE then Some (c\<lparr>scause := val\<rparr>, False)
      else if addr = CSR_STVAL then Some (c\<lparr>stval := val\<rparr>, False)
      else if addr = CSR_SIP then Some (c\<lparr>sw_mip := val AND push_bit 1 1\<rparr>, False)
      else if addr = CSR_SATP then Some (c\<lparr>satp := val\<rparr>, True)
      else None)"

section \<open>Reference notions\<close>

text \<open>The invariant: every WARL field holds a legal value, whatever software wrote.\<close>

definition mstatus_ok :: "u32 \<Rightarrow> bool" where
  "mstatus_ok ms = (within MSTATUS_WRITE_MASK ms \<and> \<not> (bit ms 12 \<and> \<not> bit ms 11))"

definition csr_inv :: "CSRFile \<Rightarrow> bool" where
  "csr_inv c = (mstatus_ok (mstatus c) \<and> misa c = MISA_VALUE \<and>
     \<not> bit (mepc c) 0 \<and> \<not> bit (sepc c) 0 \<and>
     within 0x2 (sw_mip c) \<and> within 0xAAA (hw_mip c))"

text \<open>
  The value a CSR holds after \<open>val\<close> is written to it, by the bits of its legal fields. In \<open>mstatus\<close>
  they are SIE, MIE, SPIE, MPIE, SPP, MPP, MPRV, SUM, MXR, TVM, TW and TSR, and the reserved
  encoding 2 of MPP (bits 12 and 11) becomes 0, user mode; \<open>sstatus\<close> shows SIE, SPIE, SPP, SUM and
  MXR. Of \<open>mip\<close> software sets SSIP only.
\<close>

definition csr_warl :: "CSRFile \<Rightarrow> u16 \<Rightarrow> u32 \<Rightarrow> u32" where
  "csr_warl c addr val =
     (if addr = CSR_MSTATUS then (if bit val 12 \<and> \<not> bit val 11 then val AND 0x7E01AA else val AND 0x7E19AA)
      else if addr = CSR_MISA then misa c
      else if addr = CSR_MEPC \<or> addr = CSR_SEPC then val AND 0xFFFFFFFE
      else if addr = CSR_MIP then (val AND 0x002) OR hw_mip c
      else if addr = CSR_SIP then (val AND 0x002) OR (hw_mip c AND 0x222)
      else if addr = CSR_SSTATUS then val AND 0x000C0122
      else if addr = CSR_SIE then val AND 0x222
      else val)"

text \<open>The register that backs a CSR address: views and shadows share their register.\<close>

definition csr_backing :: "u16 \<Rightarrow> u16" where
  "csr_backing addr =
     (if addr = CSR_SSTATUS then CSR_MSTATUS
      else if addr = CSR_SIE then CSR_MIE
      else if addr = CSR_SIP then CSR_MIP
      else if addr = CSR_CYCLE \<or> addr = CSR_TIME then CSR_MCYCLE
      else if addr = CSR_CYCLEH \<or> addr = CSR_TIMEH then CSR_MCYCLEH
      else if addr = CSR_INSTRET then CSR_MINSTRET
      else if addr = CSR_INSTRETH then CSR_MINSTRETH
      else addr)"

text \<open>What machine mode keeps to itself: everything that is not visible through a supervisor CSR.\<close>

definition machine_view :: "CSRFile \<Rightarrow> CSRFile" where
  "machine_view c = c\<lparr>mstatus := mstatus c AND NOT SSTATUS_MASK, mie := mie c AND NOT S_INT_MASK,
     stvec := 0, scounteren := 0, sscratch := 0, sepc := 0, scause := 0, stval := 0, satp := 0,
     sw_mip := 0\<rparr>"

text \<open>The counters as the 64-bit values that their two halves represent.\<close>

definition mcycle64 :: "CSRFile \<Rightarrow> u64" where
  "mcycle64 c = push_bit 32 (ucast (mcycleh c)) + ucast (mcycle c)"

definition minstret64 :: "CSRFile \<Rightarrow> u64" where
  "minstret64 c = push_bit 32 (ucast (minstreth c)) + ucast (minstret c)"

section \<open>Masks\<close>

lemma mask_values:
  "MSTATUS_WRITE_MASK = 0x7E19AA" "SSTATUS_MASK = 0xC0122" "S_INT_MASK = 0x222"
  by (simp_all add: MSTATUS_WRITE_MASK_def SSTATUS_MASK_def S_INT_MASK_def)

lemma sstatus_mask_sub: "bit SSTATUS_MASK n \<Longrightarrow> bit MSTATUS_WRITE_MASK n"
proof -
  have "within MSTATUS_WRITE_MASK SSTATUS_MASK" by (simp add: within_def mask_values)
  then show "bit SSTATUS_MASK n \<Longrightarrow> bit MSTATUS_WRITE_MASK n" by (simp add: within_iff)
qed

lemma sstatus_mask_mpp: "\<not> bit SSTATUS_MASK 11" "\<not> bit SSTATUS_MASK 12"
  by (simp_all add: mask_values)

lemma merge_masked: "((a AND NOT m) OR (v AND m)) AND m = v AND m"
  "((a AND NOT m) OR (v AND m)) AND NOT m = a AND NOT m" for a m v :: u32
  by (rule bit_word_eqI, auto simp: bit_simps)+

section \<open>The invariant\<close>

lemma write_mstatus_ok [simp]: "mstatus_ok (write_mstatus v)"
  by (auto simp: mstatus_ok_def write_mstatus_def Let_def within_iff bit_simps bitwise)

lemma write_mstatus_id: "mstatus_ok v \<Longrightarrow> write_mstatus v = v"
proof -
  assume ok: "mstatus_ok v"
  then have "v AND MSTATUS_WRITE_MASK = v"
    by (intro bit_word_eqI) (auto simp: mstatus_ok_def within_iff bit_simps)
  with ok show ?thesis by (auto simp: write_mstatus_def Let_def mstatus_ok_def bitwise)
qed

lemma sstatus_ok [simp]:
  "mstatus_ok ms \<Longrightarrow> mstatus_ok ((ms AND NOT SSTATUS_MASK) OR (v AND SSTATUS_MASK))"
  by (auto simp: mstatus_ok_def within_iff bit_simps sstatus_mask_mpp dest: sstatus_mask_sub)

lemma csr_inv_init: "csr_inv CSRFile_init"
  by (simp add: csr_inv_def CSRFile_init_def mstatus_ok_def within_def)

lemma csr_inv_write:
  assumes "csr_write c addr priv val = Some (c', f)" and "csr_inv c"
  shows "csr_inv c'"
  using assms
  by (simp add: csr_write_def split: if_splits)
    (auto simp: csr_inv_def within_iff bit_simps)

lemma csr_inv_inc [simp]: "csr_inv (inc_mcycle c) = csr_inv c" "csr_inv (inc_minstret c) = csr_inv c"
  by (simp_all add: csr_inv_def inc_mcycle_def inc_minstret_def Let_def)

lemma csr_inv_set_hw_bit: "csr_inv c \<Longrightarrow> bit (0xAAA :: u32) n \<Longrightarrow> csr_inv (set_hw_bit n v c)"
  by (auto simp: csr_inv_def set_hw_bit_def within_iff bit_simps)

lemmas set_mip_defs = set_mip_mtip_def set_mip_msip_def set_mip_meip_def set_mip_seip_def
  set_mip_stip_def set_mip_ssip_def

lemma csr_inv_set_mip:
  assumes "csr_inv c"
  shows "csr_inv (set_mip_mtip v c)" "csr_inv (set_mip_msip v c)" "csr_inv (set_mip_meip v c)"
    "csr_inv (set_mip_seip v c)" "csr_inv (set_mip_stip v c)" "csr_inv (set_mip_ssip v c)"
  using assms by (simp_all add: set_mip_defs csr_inv_set_hw_bit)

text \<open>
  C7. The register file keeps its WARL invariant under every operation: a write through any
  CSR address at any privilege, the counter increments and the six hardware interrupt lines
  leave \<open>mstatus\<close> within its writable bits and with a legal MPP (never the reserved value 2),
  \<open>misa\<close> at its fixed value, \<open>mepc\<close> and \<open>sepc\<close> even, and only implemented bits pending.
\<close>

theorem csr_operations_inv:
  assumes "csr_inv c"
  shows "csr_inv (inc_mcycle c) \<and> csr_inv (inc_minstret c) \<and>
    csr_inv (set_mip_mtip v c) \<and> csr_inv (set_mip_msip v c) \<and> csr_inv (set_mip_meip v c) \<and>
    csr_inv (set_mip_seip v c) \<and> csr_inv (set_mip_stip v c) \<and> csr_inv (set_mip_ssip v c) \<and>
    (\<forall>c' f. csr_write c addr priv val = Some (c', f) \<longrightarrow> csr_inv c')"
  using assms csr_inv_set_mip [OF assms, of v] csr_inv_write [OF _ assms] by simp

theorem csr_operations_inv_witness:
  "csr_inv (set_mip_seip True CSRFile_init) \<and>
   csr_write CSRFile_init CSR_MSTATUS PRV_M 0xFFFFFFFF =
     Some (CSRFile_init\<lparr>mstatus := 0x7E19AA\<rparr>, False) \<and>
   csr_inv (CSRFile_init\<lparr>mstatus := 0x7E19AA\<rparr>)"
proof -
  have w: "csr_write CSRFile_init CSR_MSTATUS PRV_M 0xFFFFFFFF =
      Some (CSRFile_init\<lparr>mstatus := 0x7E19AA\<rparr>, False)"
    by (simp add: csr_write_def priv_ok_def is_read_only_def write_mstatus_def mask_values)
  with csr_operations_inv [OF csr_inv_init, of True CSR_MSTATUS PRV_M "0xFFFFFFFF"]
  show ?thesis by fastforce
qed

section \<open>Reading back and independence\<close>

lemma write_mstatus_legal:
  "write_mstatus val = (if bit val 12 \<and> \<not> bit val 11 then val AND 0x7E01AA else val AND 0x7E19AA)"
  by (rule u32_eqI) (auto simp: write_mstatus_def Let_def mask_values bitwise)

text \<open>
  C8. A successful write is read back, at the same privilege, as the legal value the written
  one stands for, bit by bit: fields that do not exist read zero, the reserved MPP encoding reads
  as user mode (supervisor mode is legal), the return addresses are even, and the interrupt bits
  that the hardware drives are not changed. The \<open>satp\<close> callback is invoked exactly by a write
  of \<open>satp\<close>.
\<close>

theorem csr_write_read:
  assumes "csr_write c addr priv val = Some (c', f)"
  shows "csr_read c' addr priv = Some (csr_warl c addr val) \<and> f = (addr = CSR_SATP)"
proof -
  have m: "(x OR h) AND 0x222 = (x AND 0x222) OR (h AND 0x222)" "(x AND 2) AND 0x222 = x AND 2"
    "x AND - 2 = x AND 0xFFFFFFFE" "(x AND - 547) AND 0x222 = 0"
    "((x AND - 786723) OR (h AND 0xC0122)) AND 0xC0122 = h AND 0xC0122" for x h :: u32
    by (rule u32_eqI, auto simp: bitwise)+
  show ?thesis
    using assms
    by (simp add: csr_write_def split: if_splits)
      (auto simp: csr_read_def csr_warl_def get_mip_def write_mstatus_legal mask_values m)
qed

theorem csr_write_read_witness:
  "csr_write CSRFile_init CSR_MEPC PRV_M 0x80000003 = Some (CSRFile_init\<lparr>mepc := 0x80000002\<rparr>, False) \<and>
   csr_read (CSRFile_init\<lparr>mepc := 0x80000002\<rparr>) CSR_MEPC PRV_M = Some 0x80000002"
proof -
  have w: "csr_write CSRFile_init CSR_MEPC PRV_M 0x80000003 =
      Some (CSRFile_init\<lparr>mepc := 0x80000002\<rparr>, False)"
    by (simp add: csr_write_def priv_ok_def is_read_only_def)
  with csr_write_read [OF w] show ?thesis by (simp add: csr_warl_def)
qed

lemma csr_backing_neq:
  "csr_backing b \<noteq> CSR_MSTATUS \<Longrightarrow> b \<noteq> CSR_MSTATUS \<and> b \<noteq> CSR_SSTATUS"
  "csr_backing b \<noteq> CSR_MIE \<Longrightarrow> b \<noteq> CSR_MIE \<and> b \<noteq> CSR_SIE"
  "csr_backing b \<noteq> CSR_MIP \<Longrightarrow> b \<noteq> CSR_MIP \<and> b \<noteq> CSR_SIP"
  "csr_backing b \<noteq> CSR_MCYCLE \<Longrightarrow> b \<noteq> CSR_MCYCLE \<and> b \<noteq> CSR_CYCLE \<and> b \<noteq> CSR_TIME"
  "csr_backing b \<noteq> CSR_MCYCLEH \<Longrightarrow> b \<noteq> CSR_MCYCLEH \<and> b \<noteq> CSR_CYCLEH \<and> b \<noteq> CSR_TIMEH"
  "csr_backing b \<noteq> CSR_MINSTRET \<Longrightarrow> b \<noteq> CSR_MINSTRET \<and> b \<noteq> CSR_INSTRET"
  "csr_backing b \<noteq> CSR_MINSTRETH \<Longrightarrow> b \<noteq> CSR_MINSTRETH \<and> b \<noteq> CSR_INSTRETH"
  by (auto simp: csr_backing_def)

lemma csr_backing_eval [simp]:
  "csr_backing CSR_MSTATUS = CSR_MSTATUS" "csr_backing CSR_SSTATUS = CSR_MSTATUS"
  "csr_backing CSR_MIE = CSR_MIE" "csr_backing CSR_SIE = CSR_MIE"
  "csr_backing CSR_MIP = CSR_MIP" "csr_backing CSR_SIP = CSR_MIP"
  "csr_backing CSR_MCYCLE = CSR_MCYCLE" "csr_backing CSR_MCYCLEH = CSR_MCYCLEH"
  "csr_backing CSR_MINSTRET = CSR_MINSTRET" "csr_backing CSR_MINSTRETH = CSR_MINSTRETH"
  by (simp_all add: csr_backing_def)

lemma csr_read_frame:
  "b \<noteq> CSR_MSTATUS \<Longrightarrow> b \<noteq> CSR_SSTATUS \<Longrightarrow> csr_read (c\<lparr>mstatus := v\<rparr>) b q = csr_read c b q"
  "b \<noteq> CSR_MIE \<Longrightarrow> b \<noteq> CSR_SIE \<Longrightarrow> csr_read (c\<lparr>mie := v\<rparr>) b q = csr_read c b q"
  "b \<noteq> CSR_MIP \<Longrightarrow> b \<noteq> CSR_SIP \<Longrightarrow> csr_read (c\<lparr>sw_mip := v\<rparr>) b q = csr_read c b q"
  "b \<noteq> CSR_MCYCLE \<Longrightarrow> b \<noteq> CSR_CYCLE \<Longrightarrow> b \<noteq> CSR_TIME \<Longrightarrow> csr_read (c\<lparr>mcycle := v\<rparr>) b q = csr_read c b q"
  "b \<noteq> CSR_MCYCLEH \<Longrightarrow> b \<noteq> CSR_CYCLEH \<Longrightarrow> b \<noteq> CSR_TIMEH \<Longrightarrow> csr_read (c\<lparr>mcycleh := v\<rparr>) b q = csr_read c b q"
  "b \<noteq> CSR_MINSTRET \<Longrightarrow> b \<noteq> CSR_INSTRET \<Longrightarrow> csr_read (c\<lparr>minstret := v\<rparr>) b q = csr_read c b q"
  "b \<noteq> CSR_MINSTRETH \<Longrightarrow> b \<noteq> CSR_INSTRETH \<Longrightarrow> csr_read (c\<lparr>minstreth := v\<rparr>) b q = csr_read c b q"
  "b \<noteq> CSR_MEDELEG \<Longrightarrow> csr_read (c\<lparr>medeleg := v\<rparr>) b q = csr_read c b q"
  "b \<noteq> CSR_MIDELEG \<Longrightarrow> csr_read (c\<lparr>mideleg := v\<rparr>) b q = csr_read c b q"
  "b \<noteq> CSR_MTVEC \<Longrightarrow> csr_read (c\<lparr>mtvec := v\<rparr>) b q = csr_read c b q"
  "b \<noteq> CSR_MCOUNTEREN \<Longrightarrow> csr_read (c\<lparr>mcounteren := v\<rparr>) b q = csr_read c b q"
  "b \<noteq> CSR_MSCRATCH \<Longrightarrow> csr_read (c\<lparr>mscratch := v\<rparr>) b q = csr_read c b q"
  "b \<noteq> CSR_MEPC \<Longrightarrow> csr_read (c\<lparr>mepc := v\<rparr>) b q = csr_read c b q"
  "b \<noteq> CSR_MCAUSE \<Longrightarrow> csr_read (c\<lparr>mcause := v\<rparr>) b q = csr_read c b q"
  "b \<noteq> CSR_MTVAL \<Longrightarrow> csr_read (c\<lparr>mtval := v\<rparr>) b q = csr_read c b q"
  "b \<noteq> CSR_STVEC \<Longrightarrow> csr_read (c\<lparr>stvec := v\<rparr>) b q = csr_read c b q"
  "b \<noteq> CSR_SCOUNTEREN \<Longrightarrow> csr_read (c\<lparr>scounteren := v\<rparr>) b q = csr_read c b q"
  "b \<noteq> CSR_SSCRATCH \<Longrightarrow> csr_read (c\<lparr>sscratch := v\<rparr>) b q = csr_read c b q"
  "b \<noteq> CSR_SEPC \<Longrightarrow> csr_read (c\<lparr>sepc := v\<rparr>) b q = csr_read c b q"
  "b \<noteq> CSR_SCAUSE \<Longrightarrow> csr_read (c\<lparr>scause := v\<rparr>) b q = csr_read c b q"
  "b \<noteq> CSR_STVAL \<Longrightarrow> csr_read (c\<lparr>stval := v\<rparr>) b q = csr_read c b q"
  "b \<noteq> CSR_SATP \<Longrightarrow> csr_read (c\<lparr>satp := v\<rparr>) b q = csr_read c b q"
  by (simp_all add: csr_read_def get_mip_def cong: if_cong split del: if_split)

text \<open>
  C9. Writing one register changes the value read at no address backed by another: only the
  documented views (\<open>sstatus\<close>, \<open>sie\<close>, \<open>sip\<close>, the counter shadows) share state.
\<close>

theorem csr_write_frame:
  assumes "csr_write c addr priv val = Some (c', f)" and "csr_backing b \<noteq> csr_backing addr"
  shows "csr_read c' b q = csr_read c b q"
proof -
  have *: "b \<noteq> addr" using assms(2) by auto
  from assms(1) show ?thesis
    using assms(2) * csr_backing_neq [of b]
    by (simp add: csr_write_def split: if_splits)
      (auto simp: csr_read_frame)
qed

theorem csr_write_frame_witness:
  "csr_write CSRFile_init CSR_SSTATUS PRV_S 0x2 = Some (CSRFile_init\<lparr>mstatus := 0x2\<rparr>, False) \<and>
   csr_read (CSRFile_init\<lparr>mstatus := 0x2\<rparr>) CSR_MISA PRV_M = Some MISA_VALUE"
proof -
  have w: "csr_write CSRFile_init CSR_SSTATUS PRV_S 0x2 = Some (CSRFile_init\<lparr>mstatus := 0x2\<rparr>, False)"
    by (simp add: csr_write_def priv_ok_def is_read_only_def mask_values CSRFile_init_def)
  moreover have "csr_read CSRFile_init CSR_MISA PRV_M = Some MISA_VALUE"
    by (simp add: csr_read_def priv_ok_def CSRFile_init_def)
  ultimately show ?thesis
    using csr_write_frame [OF w, of CSR_MISA PRV_M] by (simp add: csr_backing_def)
qed

section \<open>Privilege\<close>

lemma csr_write_user: "csr_write c addr PRV_U val = None"
  by (auto simp: csr_write_def priv_ok_def)

lemma csr_write_machine_view:
  assumes "csr_write c addr priv val = Some (c', f)" and "priv < PRV_M"
  shows "machine_view c' = machine_view c"
  using assms
  by (simp add: csr_write_def split: if_splits)
    (auto simp: priv_ok_def machine_view_def merge_masked)

lemma csr_read_only: "is_read_only addr \<Longrightarrow> csr_write c addr priv val = None"
  by (simp add: csr_write_def)

text \<open>
  C10. Below machine mode no CSR write reaches machine state: user mode can write no CSR at
  all, and a supervisor write leaves the machine view of the register file as it was (delegation,
  machine trap registers, counters, and the bits of \<open>mstatus\<close> and \<open>mie\<close> that have no
  supervisor view); read-only addresses refuse every write at every privilege.
\<close>

theorem csr_write_confined:
  "csr_write c addr PRV_U val = None \<and>
   (csr_write c addr PRV_S val = Some (c', f) \<longrightarrow> machine_view c' = machine_view c) \<and>
   (is_read_only addr \<longrightarrow> csr_write c addr priv val = None)"
  using csr_write_user csr_write_machine_view [of c addr PRV_S val c' f] csr_read_only
  by simp

theorem csr_write_confined_witness:
  "csr_write CSRFile_init CSR_SIE PRV_S 0xFFF = Some (CSRFile_init\<lparr>mie := 0x222\<rparr>, False) \<and>
   machine_view (CSRFile_init\<lparr>mie := 0x222\<rparr>) = machine_view CSRFile_init \<and>
   csr_write CSRFile_init CSR_CYCLE PRV_M 5 = None"
proof -
  have w: "csr_write CSRFile_init CSR_SIE PRV_S 0xFFF = Some (CSRFile_init\<lparr>mie := 0x222\<rparr>, False)"
    by (simp add: csr_write_def priv_ok_def is_read_only_def mask_values CSRFile_init_def)
  have "is_read_only CSR_CYCLE" by (simp add: is_read_only_def)
  with w csr_write_confined [of CSRFile_init CSR_SIE "0xFFF" "CSRFile_init\<lparr>mie := 0x222\<rparr>" False PRV_M]
    csr_write_confined [of CSRFile_init CSR_CYCLE 5 CSRFile_init False PRV_M]
  show ?thesis by simp
qed

section \<open>Counters and interrupt lines\<close>

lemma word_plus_1_eq_0: "w + 1 = 0 \<longleftrightarrow> w = 0xFFFFFFFF" for w :: u32
proof -
  have "(- 1 :: u32) = 0xFFFFFFFF" by simp
  then show ?thesis using eq_neg_iff_add_eq_0 [of w 1] by metis
qed

lemma ucast_Suc_u64: "l + 1 \<noteq> 0 \<Longrightarrow> ucast (l + 1) = (ucast l + 1 :: u64)" for l :: u32
proof -
  assume "l + 1 \<noteq> 0"
  then have "unat (l + 1) = Suc (unat l)" using unatSuc [of l] by (simp add: add.commute)
  then have "of_nat (unat (l + 1)) = (of_nat (Suc (unat l)) :: u64)" by simp
  then show ?thesis by (simp add: of_nat_unat add.commute)
qed

lemma counter64_step:
  fixes h l :: u32
  shows "push_bit 32 (ucast (if l + 1 = 0 then h + 1 else h)) + ucast (l + 1) =
    (push_bit 32 (ucast h) + ucast l + 1 :: u64)"
proof (cases "l + 1 = 0")
  case True
  then have l: "l = 0xFFFFFFFF" by (simp add: word_plus_1_eq_0)
  show ?thesis
  proof (cases "h + 1 = 0")
    case True
    then have "h = 0xFFFFFFFF" by (simp add: word_plus_1_eq_0)
    with l show ?thesis by simp
  next
    case False
    show ?thesis
      using ucast_Suc_u64 [OF False] l by (simp add: push_bit_eq_mult distrib_right)
  qed
next
  case False
  with ucast_Suc_u64 [OF False] show ?thesis by simp
qed

text \<open>
  C11. The two halves of each counter behave as one 64-bit counter: an increment carries from
  the low into the high word and wraps at \<open>2^64\<close>; neither increment touches the other counter.
\<close>

theorem counters_increment:
  "mcycle64 (inc_mcycle c) = mcycle64 c + 1 \<and> minstret64 (inc_mcycle c) = minstret64 c \<and>
   minstret64 (inc_minstret c) = minstret64 c + 1 \<and> mcycle64 (inc_minstret c) = mcycle64 c"
  using counter64_step [of "mcycle c" "mcycleh c"] counter64_step [of "minstret c" "minstreth c"]
  by (auto simp: mcycle64_def minstret64_def inc_mcycle_def inc_minstret_def Let_def split: if_splits)

lemma get_mip_set_hw_bit:
  "bit (get_mip (set_hw_bit n v c)) k =
    (if k = n \<and> n < 32 then v \<or> bit (sw_mip c) n else bit (get_mip c) k)"
  by (auto simp: get_mip_def set_hw_bit_def bit_simps dest: bit_imp_le_length)

end
