(* ===== verification/RV32M.thy ===== *)
theory RV32M
  imports VP_Prelude "HOL-Library.Signed_Division"
begin

text \<open>
  Model of \<open>src/src/cpu/rv32m.cpp\<close>, the multiply and divide extension. The source works on
  64-bit products; a signed operand is sign-extended (\<open>scast\<close>), an unsigned one
  zero-extended (\<open>ucast\<close>), and \<open>>> 32\<close> is arithmetic on \<open>int64_t\<close> and logical on
  \<open>uint64_t\<close>. C++ division truncates towards zero: \<open>sdiv\<close> and \<open>smod\<close>.
\<close>

section \<open>Operations\<close>

definition mul :: "u32 \<Rightarrow> u32 \<Rightarrow> u32" where
  "mul rs1 rs2 = (let a = scast rs1 :: u64; b = scast rs2 :: u64 in ucast (a * b))"

definition mulh :: "u32 \<Rightarrow> u32 \<Rightarrow> u32" where
  "mulh rs1 rs2 = (let a = scast rs1 :: u64; b = scast rs2 :: u64
     in ucast (signed_drop_bit 32 (a * b)))"

definition mulhsu :: "u32 \<Rightarrow> u32 \<Rightarrow> u32" where
  "mulhsu rs1 rs2 = (let a = scast rs1 :: u64; b = ucast rs2 :: u64
     in ucast (signed_drop_bit 32 (a * b)))"

definition mulhu :: "u32 \<Rightarrow> u32 \<Rightarrow> u32" where
  "mulhu rs1 rs2 = (let a = ucast rs1 :: u64; b = ucast rs2 :: u64
     in ucast (drop_bit 32 (a * b)))"

definition div_w :: "u32 \<Rightarrow> u32 \<Rightarrow> u32" where
  "div_w rs1 rs2 = (let a = sint rs1; b = sint rs2
     in if b = 0 then 0xFFFFFFFF
        else if a = - (2 ^ 31) \<and> b = - 1 then 0x80000000
        else word_of_int (a sdiv b))"

definition divu :: "u32 \<Rightarrow> u32 \<Rightarrow> u32" where
  "divu rs1 rs2 = (if rs2 = 0 then 0xFFFFFFFF else rs1 div rs2)"

definition rem :: "u32 \<Rightarrow> u32 \<Rightarrow> u32" where
  "rem rs1 rs2 = (let a = sint rs1; b = sint rs2
     in if b = 0 then rs1
        else if a = - (2 ^ 31) \<and> b = - 1 then 0
        else word_of_int (a smod b))"

definition remu :: "u32 \<Rightarrow> u32 \<Rightarrow> u32" where
  "remu rs1 rs2 = (if rs2 = 0 then rs1 else rs1 mod rs2)"

section \<open>Products\<close>

lemma sint_bounds_u32: "- (2 ^ 31) \<le> sint w" "sint w < 2 ^ 31" for w :: u32
  using sint_range_size [of w] by (simp_all add: word_size)

lemma uint_bounds_u32: "0 \<le> uint w" "uint w < 2 ^ 32" for w :: u32
  using uint_lt2p [of w] by simp_all

lemma product_bounds:
  fixes a b :: int
  assumes "- (2 ^ 31) \<le> a" "a \<le> 2 ^ 31" "- (2 ^ 32) \<le> b" "b < 2 ^ 32"
  shows "- (2 ^ 63) \<le> a * b" "a * b < 2 ^ 63 \<or> a = 2 ^ 31 \<or> b = - (2 ^ 32)"
proof -
  have "\<bar>a * b\<bar> \<le> 2 ^ 31 * 2 ^ 32"
    unfolding abs_mult using assms by (intro mult_mono) auto
  then show "- (2 ^ 63) \<le> a * b" by simp
  show "a * b < 2 ^ 63 \<or> a = 2 ^ 31 \<or> b = - (2 ^ 32)"
  proof (rule ccontr)
    assume *: "\<not> ?thesis"
    then have "\<bar>b\<bar> \<le> 2 ^ 32 - 1" using assms by auto
    then have "\<bar>a * b\<bar> \<le> 2 ^ 31 * (2 ^ 32 - 1)"
      unfolding abs_mult using assms by (intro mult_mono) auto
    with * show False by simp
  qed
qed

text \<open>The 64-bit products do not overflow, so they represent the mathematical product.\<close>

lemma sint_word_of_int_64: "- (2 ^ 63) \<le> k \<Longrightarrow> k < 2 ^ 63 \<Longrightarrow> sint (word_of_int k :: u64) = k"
  by (simp add: signed_of_int signed_take_bit_int_eq_self)

lemma sint_product_ss: "sint (scast x * scast y :: u64) = sint x * sint y" for x y :: u32
proof -
  have "- (2 ^ 63) \<le> sint x * sint y" "sint x * sint y < 2 ^ 63"
    using product_bounds [of "sint x" "sint y"] sint_bounds_u32 [of x] sint_bounds_u32 [of y] by auto
  moreover have "scast x * scast y = (word_of_int (sint x * sint y) :: u64)"
    by (simp add: of_int_sint of_int_uint)
  ultimately show ?thesis by (simp only: sint_word_of_int_64)
qed

lemma sint_product_su: "sint (scast x * ucast y :: u64) = sint x * uint y" for x y :: u32
proof -
  have "- (2 ^ 63) \<le> sint x * uint y" "sint x * uint y < 2 ^ 63"
    using product_bounds [of "sint x" "uint y"] sint_bounds_u32 [of x] uint_bounds_u32 [of y] by auto
  moreover have "scast x * ucast y = (word_of_int (sint x * uint y) :: u64)"
    by (simp add: of_int_sint of_int_uint)
  ultimately show ?thesis by (simp only: sint_word_of_int_64)
qed

lemma uint_product_uu: "uint (ucast x * ucast y :: u64) = uint x * uint y" for x y :: u32
proof -
  have "uint x * uint y \<le> (2 ^ 32 - 1) * (2 ^ 32 - 1)"
    using uint_bounds_u32 [of x] uint_bounds_u32 [of y] by (intro mult_mono) auto
  then have "uint x * uint y < 2 ^ 64" by simp
  moreover have "ucast x * ucast y = (word_of_int (uint x * uint y) :: u64)"
    by (simp add: of_int_uint)
  ultimately show ?thesis
    using take_bit_int_eq_self [of "uint x * uint y" 64] by (simp only: unsigned_of_int) simp
qed

lemma ucast_sint_64: "ucast w = (word_of_int (sint w) :: u32)" for w :: u64
  by (rule bit_word_eqI) (simp add: bit_simps min_def)

lemma ucast_uint_64: "ucast w = (word_of_int (uint w) :: u32)" for w :: u64
  by simp

lemma uint_drop_bit_64: "uint (drop_bit n w) = uint w div 2 ^ n" for w :: u64
  unfolding unsigned_drop_bit_eq using uint_lt2p [of w] by (simp add: drop_bit_eq_div take_bit_int_eq_self)

lemma mul_word: "mul x y = word_of_int (sint x * sint y)"
  unfolding mul_def Let_def ucast_sint_64 sint_product_ss ..

lemma mulh_word: "mulh x y = word_of_int (sint x * sint y div 2 ^ 32)"
  unfolding mulh_def Let_def ucast_sint_64 sint_signed_drop_bit_eq sint_product_ss drop_bit_eq_div ..

lemma mulhsu_word: "mulhsu x y = word_of_int (sint x * uint y div 2 ^ 32)"
  unfolding mulhsu_def Let_def ucast_sint_64 sint_signed_drop_bit_eq sint_product_su drop_bit_eq_div ..

lemma mulhu_word: "mulhu x y = word_of_int (uint x * uint y div 2 ^ 32)"
  unfolding mulhu_def Let_def ucast_uint_64 uint_drop_bit_64 uint_product_uu ..

text \<open>
  C12. The multiplications compute the low and high words of the exact product of their
  operands: signed by signed, signed by unsigned, unsigned by unsigned. The 64-bit products in
  between do not overflow.
\<close>

theorem multiply_correct:
  "mul x y = word_of_int (sint x * sint y) \<and>
   mulh x y = word_of_int (sint x * sint y div 2 ^ 32) \<and>
   mulhsu x y = word_of_int (sint x * uint y div 2 ^ 32) \<and>
   mulhu x y = word_of_int (uint x * uint y div 2 ^ 32)"
  by (intro conjI mul_word mulh_word mulhsu_word mulhu_word)

section \<open>Division\<close>

lemma sint_eq_0_u32: "sint w = 0 \<longleftrightarrow> w = 0" for w :: u32
  by (metis signed_0 signed_word_eqI)

lemma sint_word_of_int_32: "- (2 ^ 31) \<le> k \<Longrightarrow> k < 2 ^ 31 \<Longrightarrow> sint (word_of_int k :: u32) = k"
  by (simp add: signed_of_int signed_take_bit_int_eq_self)

lemma sint_rem:
  assumes "y \<noteq> 0"
  shows "sint (rem x y) = sint x smod sint y"
proof -
  have "\<bar>sint x smod sint y\<bar> < \<bar>sint y\<bar>"
    using assms by (simp add: smod_int_alt_def abs_mult sint_eq_0_u32 abs_mod_less)
  then have "sint (word_of_int (sint x smod sint y) :: u32) = sint x smod sint y"
    using sint_bounds_u32 [of y] by (intro sint_word_of_int_32) auto
  moreover have "- (2 ^ 31) smod - 1 = (0 :: int)" by (simp add: smod_int_alt_def)
  ultimately show ?thesis using assms by (simp add: rem_def Let_def sint_eq_0_u32)
qed

lemma sint_quotient:
  fixes a b :: int
  assumes "b \<noteq> 0" and "\<not> (a = - (2 ^ 31) \<and> b = - 1)" and "- (2 ^ 31) \<le> a" and "a < 2 ^ 31"
  shows "sint (word_of_int (a sdiv b) :: u32) = a sdiv b"
proof (rule sint_word_of_int_32)
  consider "b = 1" | "b = - 1" | "2 \<le> \<bar>b\<bar>" using assms(1) by linarith
  then have "- (2 ^ 31) \<le> a sdiv b \<and> a sdiv b < 2 ^ 31"
  proof cases
    case 3
    have "\<bar>a\<bar> div \<bar>b\<bar> \<le> \<bar>a\<bar> div 2" by (rule zdiv_mono2) (use 3 in auto)
    moreover have "\<bar>a sdiv b\<bar> \<le> \<bar>a\<bar> div \<bar>b\<bar>"
      by (auto simp: signed_divide_int_def abs_mult sgn_if pos_imp_zdiv_nonneg_iff)
    ultimately show ?thesis using assms(3,4) by auto
  qed (use assms in \<open>auto simp: signed_divide_int_def sgn_if\<close>)
  then show "- (2 ^ 31) \<le> a sdiv b" "a sdiv b < 2 ^ 31" by simp_all
qed

lemma signed_division:
  assumes "y \<noteq> 0" and "\<not> (sint x = - (2 ^ 31) \<and> sint y = - 1)"
  shows "sint x = sint (div_w x y) * sint y + sint (rem x y)"
proof -
  have y: "sint y \<noteq> 0" using assms(1) by (simp add: sint_eq_0_u32)
  have "div_w x y = word_of_int (sint x sdiv sint y)" using assms y by (auto simp: div_w_def Let_def)
  then have "sint (div_w x y) = sint x sdiv sint y"
    using sint_quotient [OF y assms(2) sint_bounds_u32] by simp
  with sint_rem [OF assms(1), of x] show ?thesis
    using mult_sdiv_smod_eq [of "sint y" "sint x"] by (simp add: mult.commute)
qed

lemma signed_remainder:
  assumes "y \<noteq> 0"
  shows "\<bar>sint (rem x y)\<bar> < \<bar>sint y\<bar>" and "0 \<le> sint (rem x y) * sint x"
proof -
  show "\<bar>sint (rem x y)\<bar> < \<bar>sint y\<bar>"
    using assms by (simp add: sint_rem smod_int_alt_def abs_mult sint_eq_0_u32)
  have "0 \<le> sgn a * m * a" if "0 \<le> m" for a m :: int
    using that by (simp add: sgn_if mult_nonneg_nonpos)
  with assms show "0 \<le> sint (rem x y) * sint x" by (simp add: sint_rem smod_int_alt_def sint_eq_0_u32)
qed

lemma unsigned_division:
  assumes "y \<noteq> 0"
  shows "uint x = uint (divu x y) * uint y + uint (remu x y)" and "uint (remu x y) < uint y"
proof -
  have "0 < uint y" using assms by (simp add: word_neq_0_conv word_less_alt)
  then show "uint x = uint (divu x y) * uint y + uint (remu x y)" "uint (remu x y) < uint y"
    using assms by (simp_all add: divu_def remu_def uint_div uint_mod)
qed

text \<open>
  C13. Division and remainder are those of the specification. For a divisor other than zero, the
  overflowing case apart, dividend = quotient * divisor + remainder holds over the integers, the
  remainder is smaller than the divisor in magnitude and never has the sign opposite to the
  dividend (division truncates towards zero), which determines both; likewise unsigned, with the
  remainder below the divisor. Division by zero gives the quotient with all bits set and the
  dividend as remainder; the overflowing signed division gives the dividend and remainder zero.
\<close>

theorem divide_correct:
  "(y = 0 \<longrightarrow> div_w x y = - 1 \<and> divu x y = - 1 \<and> rem x y = x \<and> remu x y = x) \<and>
   (sint x = - (2 ^ 31) \<and> sint y = - 1 \<longrightarrow> div_w x y = x \<and> rem x y = 0) \<and>
   (y \<noteq> 0 \<and> \<not> (sint x = - (2 ^ 31) \<and> sint y = - 1) \<longrightarrow>
      sint x = sint (div_w x y) * sint y + sint (rem x y) \<and>
      \<bar>sint (rem x y)\<bar> < \<bar>sint y\<bar> \<and> 0 \<le> sint (rem x y) * sint x) \<and>
   (y \<noteq> 0 \<longrightarrow> uint x = uint (divu x y) * uint y + uint (remu x y) \<and> uint (remu x y) < uint y)"
proof -
  have "div_w x y = x \<and> rem x y = 0" if "sint x = - (2 ^ 31) \<and> sint y = - 1"
  proof -
    have "x = 0x80000000" using conjunct1 [OF that] by (intro signed_word_eqI) simp
    with that show ?thesis by (simp add: div_w_def rem_def)
  qed
  moreover have "div_w x y = - 1 \<and> divu x y = - 1 \<and> rem x y = x \<and> remu x y = x" if "y = 0"
    using that by (simp add: div_w_def divu_def rem_def remu_def)
  ultimately show ?thesis using signed_division [of y x] signed_remainder [of y x] unsigned_division [of y x] by blast
qed

theorem divide_correct_witness:
  "sint (div_w (- 7) 2) * 2 + sint (rem (- 7) 2) = - 7 \<and> sint (rem (- 7) 2) \<le> 0 \<and>
   uint (divu 7 2) * 2 + uint (remu 7 2) = 7 \<and> div_w 5 0 = - 1 \<and> div_w 0x80000000 (- 1) = 0x80000000"
  using divide_correct [of 2 "- 7"] divide_correct [of 2 7] divide_correct [of 0 5] divide_correct [of "- 1" "0x80000000"]
  by simp

end
