(* ===== verification/RV32A.thy ===== *)
theory RV32A
  imports VP_Prelude
begin

text \<open>
  Model of \<open>src/src/cpu/rv32a.h\<close>: the load reservation of LR/SC and the nine read-modify-write
  functions of the atomic memory operations.
\<close>

unbundle bit_operations_syntax

section \<open>The reservation\<close>

record Reservation =
  res_addr :: u32
  res_valid :: bool

definition Reservation_init :: Reservation where
  "Reservation_init = \<lparr>res_addr = 0, res_valid = False\<rparr>"

definition reservation_set :: "u32 \<Rightarrow> Reservation \<Rightarrow> Reservation" where
  "reservation_set a r = r\<lparr>res_addr := a AND NOT 0x3, res_valid := True\<rparr>"

definition reservation_clear :: "Reservation \<Rightarrow> Reservation" where
  "reservation_clear r = r\<lparr>res_valid := False\<rparr>"

definition reservation_check :: "Reservation \<Rightarrow> u32 \<Rightarrow> bool" where
  "reservation_check r a = (res_valid r \<and> res_addr r = a AND NOT 0x3)"

section \<open>Read-modify-write functions\<close>

definition amo_swap :: "u32 \<Rightarrow> u32 \<Rightarrow> u32" where "amo_swap mem r2 = r2"

definition amo_add :: "u32 \<Rightarrow> u32 \<Rightarrow> u32" where "amo_add mem r2 = mem + r2"

definition amo_xor :: "u32 \<Rightarrow> u32 \<Rightarrow> u32" where "amo_xor mem r2 = mem XOR r2"

definition amo_and :: "u32 \<Rightarrow> u32 \<Rightarrow> u32" where "amo_and mem r2 = mem AND r2"

definition amo_or :: "u32 \<Rightarrow> u32 \<Rightarrow> u32" where "amo_or mem r2 = mem OR r2"

definition amo_min :: "u32 \<Rightarrow> u32 \<Rightarrow> u32" where
  "amo_min mem r2 = word_of_int (min (sint mem) (sint r2))"

definition amo_max :: "u32 \<Rightarrow> u32 \<Rightarrow> u32" where
  "amo_max mem r2 = word_of_int (max (sint mem) (sint r2))"

definition amo_minu :: "u32 \<Rightarrow> u32 \<Rightarrow> u32" where "amo_minu mem r2 = min mem r2"

definition amo_maxu :: "u32 \<Rightarrow> u32 \<Rightarrow> u32" where "amo_maxu mem r2 = max mem r2"

section \<open>Lemmas\<close>

lemma reservation_check_set: "reservation_check (reservation_set a r) b \<longleftrightarrow> a AND NOT 0x3 = b AND NOT 0x3"
  by (simp add: reservation_check_def reservation_set_def)

lemma reservation_check_clear: "\<not> reservation_check (reservation_clear r) a"
  by (simp add: reservation_check_def reservation_clear_def)

lemma amo_min_or: "amo_min a b = a \<or> amo_min a b = b"
  by (simp add: amo_min_def min_def)

lemma amo_max_or: "amo_max a b = a \<or> amo_max a b = b"
  by (simp add: amo_max_def max_def)

end
