(* ===== verification/Execute.thy ===== *)
theory Execute
  imports Decode CSR RV32M RV32A
begin

text \<open>
  Model of \<open>src/src/cpu/execute.h\<close> and \<open>src/src/cpu/execute.cpp\<close>: the architectural state of
  the hart and the execution of one decoded instruction.

  The memory callbacks of \<open>MemIf\<close> and the \<open>on_satp_write\<close> callback of the CSR file run
  code of the simulator that owns the state (translation, bus, devices, which may in turn drive
  interrupt lines of this hart). They therefore thread both the hart state and an environment
  of type \<open>'e\<close> that stands for everything outside the hart.

  An \<open>int32_t\<close> register is the \<open>u32\<close> with the same bits. Signed additions and
  subtractions are the two's complement ones.
\<close>

unbundle bit_operations_syntax

section \<open>State\<close>

record CPUState =
  regs :: "u32 list"
  pc :: u32
  next_pc :: u32
  priv :: u8
  csr :: CSRFile
  lr_sc :: Reservation

definition CPUState_init :: CPUState where
  "CPUState_init = \<lparr>regs = replicate 32 0, pc = 0, next_pc = 0, priv = 3, csr = CSRFile_init,
     lr_sc = Reservation_init\<rparr>"

record 'e MemIf =
  mem_read :: "u32 \<Rightarrow> nat \<Rightarrow> CPUState \<Rightarrow> 'e \<Rightarrow> u32 \<times> CPUState \<times> 'e"
  mem_write :: "u32 \<Rightarrow> u32 \<Rightarrow> nat \<Rightarrow> CPUState \<Rightarrow> 'e \<Rightarrow> CPUState \<times> 'e"
  on_satp_write :: "CPUState \<Rightarrow> 'e \<Rightarrow> CPUState \<times> 'e"

record ExecResult =
  exception :: bool
  cause :: u32
  tval :: u32
  wfi :: bool
  fence_i :: bool
  sfence_vma :: bool

definition ExecResult_init :: ExecResult where
  "ExecResult_init = \<lparr>exception = False, cause = 0, tval = 0, wfi = False, fence_i = False,
     sfence_vma = False\<rparr>"

definition make_exception :: "u32 \<Rightarrow> u32 \<Rightarrow> ExecResult" where
  "make_exception c t = ExecResult_init\<lparr>exception := True, cause := c, tval := t\<rparr>"

definition get_reg :: "CPUState \<Rightarrow> u32 \<Rightarrow> u32" where
  "get_reg s i = (if i = 0 then 0 else regs s ! unat i)"

definition set_reg :: "u32 \<Rightarrow> u32 \<Rightarrow> CPUState \<Rightarrow> CPUState" where
  "set_reg i v s = (if i \<noteq> 0 then s\<lparr>regs := (regs s)[unat i := v]\<rparr> else s)"

type_synonym 'e exec = "ExecResult \<times> CPUState \<times> 'e"

section \<open>Groups of instructions\<close>

text \<open>\<open>break\<close> out of the switch and return the default result.\<close>

definition exec_done :: "CPUState \<Rightarrow> 'e \<Rightarrow> 'e exec" where
  "exec_done s e = (ExecResult_init, s, e)"

definition set_rd :: "DecodedInstr \<Rightarrow> u32 \<Rightarrow> CPUState \<Rightarrow> 'e \<Rightarrow> 'e exec" where
  "set_rd d v s e = exec_done (set_reg (d_rd d) v s) e"

definition exec_branch :: "bool \<Rightarrow> DecodedInstr \<Rightarrow> CPUState \<Rightarrow> 'e \<Rightarrow> 'e exec" where
  "exec_branch taken d s e = exec_done (if taken then s\<lparr>next_pc := pc s + d_imm d\<rparr> else s) e"

text \<open>
  The five loads differ in the width, the alignment mask and the extension of the loaded value;
  the three stores in the width, the mask and the stored bits.
\<close>

definition exec_load :: "'e MemIf \<Rightarrow> nat \<Rightarrow> u32 \<Rightarrow> (u32 \<Rightarrow> u32) \<Rightarrow> DecodedInstr \<Rightarrow> CPUState \<Rightarrow> 'e \<Rightarrow> 'e exec"
  where
  "exec_load m bytes amask ext d s e =
     (let addr = get_reg s (d_rs1 d) + d_imm d
      in if addr AND amask \<noteq> 0 then (make_exception CAUSE_MISALIGNED_LOAD addr, s, e)
         else let (v, s', e') = mem_read m addr bytes s e in set_rd d (ext v) s' e')"

definition exec_store :: "'e MemIf \<Rightarrow> nat \<Rightarrow> u32 \<Rightarrow> u32 \<Rightarrow> DecodedInstr \<Rightarrow> CPUState \<Rightarrow> 'e \<Rightarrow> 'e exec"
  where
  "exec_store m bytes amask v d s e =
     (let addr = get_reg s (d_rs1 d) + d_imm d
      in if addr AND amask \<noteq> 0 then (make_exception CAUSE_MISALIGNED_STORE addr, s, e)
         else let (s', e') = mem_write m addr v bytes s e
              in exec_done (s'\<lparr>lr_sc := reservation_clear (lr_sc s')\<rparr>) e')"

definition exec_lr :: "'e MemIf \<Rightarrow> DecodedInstr \<Rightarrow> CPUState \<Rightarrow> 'e \<Rightarrow> 'e exec" where
  "exec_lr m d s e =
     (let addr = get_reg s (d_rs1 d)
      in if addr AND 3 \<noteq> 0 then (make_exception CAUSE_MISALIGNED_LOAD addr, s, e)
         else let (v, s', e') = mem_read m addr 4 s e; s'' = set_reg (d_rd d) v s'
              in exec_done (s''\<lparr>lr_sc := reservation_set addr (lr_sc s'')\<rparr>) e')"

definition exec_sc :: "'e MemIf \<Rightarrow> DecodedInstr \<Rightarrow> CPUState \<Rightarrow> 'e \<Rightarrow> 'e exec" where
  "exec_sc m d s e =
     (let addr = get_reg s (d_rs1 d); r2 = get_reg s (d_rs2 d)
      in if addr AND 3 \<noteq> 0 then (make_exception CAUSE_MISALIGNED_STORE addr, s, e)
         else let (s', e') = (if reservation_check (lr_sc s) addr
                              then (let (s1, e1) = mem_write m addr r2 4 s e
                                    in (set_reg (d_rd d) 0 s1, e1))
                              else (set_reg (d_rd d) 1 s, e))
              in exec_done (s'\<lparr>lr_sc := reservation_clear (lr_sc s')\<rparr>) e')"

definition exec_amo :: "'e MemIf \<Rightarrow> (u32 \<Rightarrow> u32 \<Rightarrow> u32) \<Rightarrow> DecodedInstr \<Rightarrow> CPUState \<Rightarrow> 'e \<Rightarrow> 'e exec" where
  "exec_amo m f d s e =
     (let addr = get_reg s (d_rs1 d); r2 = get_reg s (d_rs2 d)
      in if addr AND 3 \<noteq> 0 then (make_exception CAUSE_MISALIGNED_STORE addr, s, e)
         else let (mem_val, s', e') = mem_read m addr 4 s e;
                  (s'', e'') = mem_write m addr (f mem_val r2) 4 (set_reg (d_rd d) mem_val s') e'
              in exec_done s'' e'')"

text \<open>\<open>s.csr.write\<close> with the callback of \<open>satp\<close>; \<open>None\<close> is the result \<open>false\<close>.\<close>

definition exec_csr_write :: "'e MemIf \<Rightarrow> u16 \<Rightarrow> u32 \<Rightarrow> CPUState \<Rightarrow> 'e \<Rightarrow> (CPUState \<times> 'e) option" where
  "exec_csr_write m addr val s e =
     (case csr_write (csr s) addr (priv s) val of
        None \<Rightarrow> None
      | Some (c, satp_written) \<Rightarrow>
          let s' = s\<lparr>csr := c\<rparr> in Some (if satp_written then on_satp_write m s' e else (s', e)))"

definition csr_illegal :: "DecodedInstr \<Rightarrow> CPUState \<Rightarrow> 'e \<Rightarrow> 'e exec" where
  "csr_illegal d s e = (make_exception CAUSE_ILLEGAL_INSTR (d_raw d), s, e)"

text \<open>CSRRW and CSRRWI: no read, and no read side effect, when \<open>rd\<close> is x0.\<close>

definition exec_csrrw :: "'e MemIf \<Rightarrow> u32 \<Rightarrow> DecodedInstr \<Rightarrow> CPUState \<Rightarrow> 'e \<Rightarrow> 'e exec" where
  "exec_csrrw m val d s e =
     (let addr = ucast (d_csr d);
          after_read = (if d_rd d \<noteq> 0
                        then (case csr_read (csr s) addr (priv s) of
                                None \<Rightarrow> None
                              | Some old_val \<Rightarrow> Some (set_reg (d_rd d) old_val s))
                        else Some s)
      in case after_read of
           None \<Rightarrow> csr_illegal d s e
         | Some s' \<Rightarrow>
             (case exec_csr_write m addr val s' e of
                None \<Rightarrow> csr_illegal d s' e
              | Some (s'', e') \<Rightarrow> exec_done s'' e'))"

text \<open>
  CSRRS, CSRRC and their immediate forms: the value written is a function of the old one, and
  nothing is written when the source field is zero.
\<close>

definition exec_csrrx :: "'e MemIf \<Rightarrow> (u32 \<Rightarrow> u32) \<Rightarrow> DecodedInstr \<Rightarrow> CPUState \<Rightarrow> 'e \<Rightarrow> 'e exec" where
  "exec_csrrx m f d s e =
     (let addr = ucast (d_csr d)
      in case csr_read (csr s) addr (priv s) of
           None \<Rightarrow> csr_illegal d s e
         | Some old_val \<Rightarrow>
             (let s' = set_reg (d_rd d) old_val s
              in if d_rs1 d \<noteq> 0
                 then (case exec_csr_write m addr (f old_val) s' e of
                         None \<Rightarrow> csr_illegal d s' e
                       | Some (s'', e') \<Rightarrow> exec_done s'' e')
                 else exec_done s' e))"

definition exec_ecall :: "CPUState \<Rightarrow> 'e \<Rightarrow> 'e exec" where
  "exec_ecall s e =
     (make_exception (if priv s = PRV_U then CAUSE_ECALL_U
                      else if priv s = PRV_S then CAUSE_ECALL_S else CAUSE_ECALL_M) 0, s, e)"

text \<open>The \<open>mstatus\<close> stack of the two returns.\<close>

definition mret_mstatus :: "u32 \<Rightarrow> u32" where
  "mret_mstatus ms =
     (let mpie = (ms AND MSTATUS_MPIE \<noteq> 0);
          ms1 = (ms AND NOT MSTATUS_MIE) OR (if mpie then MSTATUS_MIE else 0);
          ms2 = ms1 OR MSTATUS_MPIE
      in ms2 AND NOT MSTATUS_MPP_MASK)"

definition sret_mstatus :: "u32 \<Rightarrow> u32" where
  "sret_mstatus ms =
     (let spie = (ms AND MSTATUS_SPIE \<noteq> 0);
          ms1 = (ms AND NOT MSTATUS_SIE) OR (if spie then MSTATUS_SIE else 0);
          ms2 = ms1 OR MSTATUS_SPIE
      in ms2 AND NOT MSTATUS_SPP)"

definition exec_mret :: "DecodedInstr \<Rightarrow> CPUState \<Rightarrow> 'e \<Rightarrow> 'e exec" where
  "exec_mret d s e =
     (if priv s < PRV_M then csr_illegal d s e
      else
        let mpp = drop_bit MSTATUS_MPP_SHIFT (mstatus (csr s)) AND 0x3
        in exec_done (s\<lparr>next_pc := mepc (csr s),
                        csr := (csr s)\<lparr>mstatus := mret_mstatus (mstatus (csr s))\<rparr>,
                        priv := ucast mpp\<rparr>) e)"

definition exec_sret :: "DecodedInstr \<Rightarrow> CPUState \<Rightarrow> 'e \<Rightarrow> 'e exec" where
  "exec_sret d s e =
     (if priv s < PRV_S then csr_illegal d s e
      else if mstatus (csr s) AND MSTATUS_TSR \<noteq> 0 \<and> priv s = PRV_S then csr_illegal d s e
      else
        let spp = (mstatus (csr s) AND MSTATUS_SPP \<noteq> 0)
        in exec_done (s\<lparr>next_pc := sepc (csr s),
                        csr := (csr s)\<lparr>mstatus := sret_mstatus (mstatus (csr s))\<rparr>,
                        priv := (if spp then PRV_S else PRV_U)\<rparr>) e)"

definition exec_sfence_vma :: "DecodedInstr \<Rightarrow> CPUState \<Rightarrow> 'e \<Rightarrow> 'e exec" where
  "exec_sfence_vma d s e =
     (if priv s < PRV_S then csr_illegal d s e
      else if mstatus (csr s) AND MSTATUS_TVM \<noteq> 0 \<and> priv s = PRV_S then csr_illegal d s e
      else (ExecResult_init\<lparr>sfence_vma := True\<rparr>, s, e))"

section \<open>The switch\<close>

definition shamt :: "u32 \<Rightarrow> nat" where
  "shamt x = unat (x AND 0x1F)"

definition bool_w :: "bool \<Rightarrow> u32" where
  "bool_w b = (if b then 1 else 0)"

definition execute :: "'e MemIf \<Rightarrow> DecodedInstr \<Rightarrow> CPUState \<Rightarrow> 'e \<Rightarrow> 'e exec" where
  "execute m d s0 e =
     (let r1 = get_reg s0 (d_rs1 d); r2 = get_reg s0 (d_rs2 d); imm = d_imm d;
          s = s0\<lparr>next_pc := pc s0 + instr_len d\<rparr>
      in case d_type d of
        I_LUI \<Rightarrow> set_rd d imm s e
      | I_AUIPC \<Rightarrow> set_rd d (pc s + imm) s e
      | I_JAL \<Rightarrow> exec_done ((set_reg (d_rd d) (pc s + instr_len d) s)\<lparr>next_pc := pc s + imm\<rparr>) e
      | I_JALR \<Rightarrow>
          (let target = (r1 + imm) AND NOT 1
           in exec_done ((set_reg (d_rd d) (pc s + instr_len d) s)\<lparr>next_pc := target\<rparr>) e)
      | I_BEQ \<Rightarrow> exec_branch (r1 = r2) d s e
      | I_BNE \<Rightarrow> exec_branch (r1 \<noteq> r2) d s e
      | I_BLT \<Rightarrow> exec_branch (sint r1 < sint r2) d s e
      | I_BGE \<Rightarrow> exec_branch (sint r2 \<le> sint r1) d s e
      | I_BLTU \<Rightarrow> exec_branch (r1 < r2) d s e
      | I_BGEU \<Rightarrow> exec_branch (r2 \<le> r1) d s e
      | I_LB \<Rightarrow> exec_load m 1 0 (\<lambda>v. scast (ucast v :: u8)) d s e
      | I_LH \<Rightarrow> exec_load m 2 1 (\<lambda>v. scast (ucast v :: u16)) d s e
      | I_LW \<Rightarrow> exec_load m 4 3 (\<lambda>v. v) d s e
      | I_LBU \<Rightarrow> exec_load m 1 0 (\<lambda>v. v AND 0xFF) d s e
      | I_LHU \<Rightarrow> exec_load m 2 1 (\<lambda>v. v AND 0xFFFF) d s e
      | I_SB \<Rightarrow> exec_store m 1 0 (r2 AND 0xFF) d s e
      | I_SH \<Rightarrow> exec_store m 2 1 (r2 AND 0xFFFF) d s e
      | I_SW \<Rightarrow> exec_store m 4 3 r2 d s e
      | I_ADDI \<Rightarrow> set_rd d (r1 + imm) s e
      | I_SLTI \<Rightarrow> set_rd d (bool_w (sint r1 < sint imm)) s e
      | I_SLTIU \<Rightarrow> set_rd d (bool_w (r1 < imm)) s e
      | I_XORI \<Rightarrow> set_rd d (r1 XOR imm) s e
      | I_ORI \<Rightarrow> set_rd d (r1 OR imm) s e
      | I_ANDI \<Rightarrow> set_rd d (r1 AND imm) s e
      | I_SLLI \<Rightarrow> set_rd d (push_bit (shamt imm) r1) s e
      | I_SRLI \<Rightarrow> set_rd d (drop_bit (shamt imm) r1) s e
      | I_SRAI \<Rightarrow> set_rd d (signed_drop_bit (shamt imm) r1) s e
      | I_ADD \<Rightarrow> set_rd d (r1 + r2) s e
      | I_SUB \<Rightarrow> set_rd d (r1 - r2) s e
      | I_SLL \<Rightarrow> set_rd d (push_bit (shamt r2) r1) s e
      | I_SLT \<Rightarrow> set_rd d (bool_w (sint r1 < sint r2)) s e
      | I_SLTU \<Rightarrow> set_rd d (bool_w (r1 < r2)) s e
      | I_XOR \<Rightarrow> set_rd d (r1 XOR r2) s e
      | I_SRL \<Rightarrow> set_rd d (drop_bit (shamt r2) r1) s e
      | I_SRA \<Rightarrow> set_rd d (signed_drop_bit (shamt r2) r1) s e
      | I_OR \<Rightarrow> set_rd d (r1 OR r2) s e
      | I_AND \<Rightarrow> set_rd d (r1 AND r2) s e
      | I_MUL \<Rightarrow> set_rd d (mul r1 r2) s e
      | I_MULH \<Rightarrow> set_rd d (mulh r1 r2) s e
      | I_MULHSU \<Rightarrow> set_rd d (mulhsu r1 r2) s e
      | I_MULHU \<Rightarrow> set_rd d (mulhu r1 r2) s e
      | I_DIV \<Rightarrow> set_rd d (div_w r1 r2) s e
      | I_DIVU \<Rightarrow> set_rd d (divu r1 r2) s e
      | I_REM \<Rightarrow> set_rd d (rem r1 r2) s e
      | I_REMU \<Rightarrow> set_rd d (remu r1 r2) s e
      | I_LR_W \<Rightarrow> exec_lr m d s e
      | I_SC_W \<Rightarrow> exec_sc m d s e
      | I_AMOSWAP_W \<Rightarrow> exec_amo m amo_swap d s e
      | I_AMOADD_W \<Rightarrow> exec_amo m amo_add d s e
      | I_AMOXOR_W \<Rightarrow> exec_amo m amo_xor d s e
      | I_AMOAND_W \<Rightarrow> exec_amo m amo_and d s e
      | I_AMOOR_W \<Rightarrow> exec_amo m amo_or d s e
      | I_AMOMIN_W \<Rightarrow> exec_amo m amo_min d s e
      | I_AMOMAX_W \<Rightarrow> exec_amo m amo_max d s e
      | I_AMOMINU_W \<Rightarrow> exec_amo m amo_minu d s e
      | I_AMOMAXU_W \<Rightarrow> exec_amo m amo_maxu d s e
      | I_CSRRW \<Rightarrow> exec_csrrw m r1 d s e
      | I_CSRRS \<Rightarrow> exec_csrrx m (\<lambda>old. old OR r1) d s e
      | I_CSRRC \<Rightarrow> exec_csrrx m (\<lambda>old. old AND NOT r1) d s e
      | I_CSRRWI \<Rightarrow> exec_csrrw m (d_rs1 d) d s e
      | I_CSRRSI \<Rightarrow> exec_csrrx m (\<lambda>old. old OR d_rs1 d) d s e
      | I_CSRRCI \<Rightarrow> exec_csrrx m (\<lambda>old. old AND NOT (d_rs1 d)) d s e
      | I_ECALL \<Rightarrow> exec_ecall s e
      | I_EBREAK \<Rightarrow> (make_exception CAUSE_BREAKPOINT (pc s), s, e)
      | I_MRET \<Rightarrow> exec_mret d s e
      | I_SRET \<Rightarrow> exec_sret d s e
      | I_URET \<Rightarrow> csr_illegal d s e
      | I_WFI \<Rightarrow> (ExecResult_init\<lparr>wfi := True\<rparr>, s, e)
      | I_SFENCE_VMA \<Rightarrow> exec_sfence_vma d s e
      | I_FENCE \<Rightarrow> exec_done s e
      | I_FENCEI \<Rightarrow> (ExecResult_init\<lparr>fence_i := True\<rparr>, s, e)
      | I_ILLEGAL \<Rightarrow> csr_illegal d s e)"

end
