(* ===== verification/Execute_Props.thy ===== *)
theory Execute_Props
  imports Execute
begin

text \<open>
  What executing one instruction may do to the hart, whatever the memory behind it. The
  contract of the memory callbacks is the locale \<open>mem_if\<close>: from inside a callback the rest of
  the platform may drive the hart's interrupt lines and nothing else. Under it, every arm of
  the switch is an \<open>arch_step\<close>: it keeps the well-formedness of the hart, changes at most the
  destination register, never raises the privilege, and below machine mode leaves machine state
  alone.
\<close>

unbundle bit_operations_syntax

section \<open>Well-formed harts\<close>

definition cpu_inv :: "CPUState \<Rightarrow> bool" where
  "cpu_inv s = (length (regs s) = 32 \<and> priv s \<in> {PRV_U, PRV_S, PRV_M} \<and> csr_inv (csr s) \<and>
     res_addr (lr_sc s) AND 0x3 = 0)"

text \<open>Machine state as seen by no one below machine mode; interrupt lines belong to the devices.\<close>

definition machine_state :: "CPUState \<Rightarrow> CSRFile" where
  "machine_state s = (machine_view (csr s))\<lparr>hw_mip := 0\<rparr>"

definition arch_step :: "DecodedInstr \<Rightarrow> CPUState \<Rightarrow> CPUState \<Rightarrow> bool" where
  "arch_step d s s' =
     (pc s' = pc s \<and> length (regs s') = length (regs s) \<and>
      (\<forall>i. i \<noteq> unat (d_rd d) \<longrightarrow> regs s' ! i = regs s ! i) \<and>
      (cpu_inv s \<longrightarrow> cpu_inv s') \<and>
      (cpu_inv s \<longrightarrow> priv s' \<le> priv s) \<and>
      (cpu_inv s \<longrightarrow> priv s < PRV_M \<longrightarrow> machine_state s' = machine_state s))"

lemma arch_step_refl [simp]: "arch_step d s s"
  by (simp add: arch_step_def)

lemma arch_step_trans [trans]: "arch_step d s s' \<Longrightarrow> arch_step d s' s'' \<Longrightarrow> arch_step d s s''"
  unfolding arch_step_def by auto

text \<open>The callbacks may move interrupt lines, within the implemented ones.\<close>

definition hw_frame :: "CPUState \<Rightarrow> CPUState \<Rightarrow> bool" where
  "hw_frame s s' = (s' = s\<lparr>csr := (csr s)\<lparr>hw_mip := hw_mip (csr s')\<rparr>\<rparr> \<and>
     (within 0xAAA (hw_mip (csr s)) \<longrightarrow> within 0xAAA (hw_mip (csr s'))))"

lemma hw_frame_refl [simp]: "hw_frame s s"
  by (simp add: hw_frame_def)

lemma hw_frameE:
  assumes "hw_frame s s'"
  obtains h where "s' = s\<lparr>csr := (csr s)\<lparr>hw_mip := h\<rparr>\<rparr>"
    and "within 0xAAA (hw_mip (csr s)) \<Longrightarrow> within 0xAAA h"
  using assms unfolding hw_frame_def by blast

lemma hw_frameI:
  "within 0xAAA (hw_mip (csr s)) \<longrightarrow> within 0xAAA h \<Longrightarrow> hw_frame s (s\<lparr>csr := (csr s)\<lparr>hw_mip := h\<rparr>\<rparr>)"
  by (simp add: hw_frame_def)

lemma hw_frame_trans:
  assumes "hw_frame s s'" and "hw_frame s' s''"
  shows "hw_frame s s''"
proof -
  from assms(1) obtain h where 1: "s' = s\<lparr>csr := (csr s)\<lparr>hw_mip := h\<rparr>\<rparr>"
    "within 0xAAA (hw_mip (csr s)) \<Longrightarrow> within 0xAAA h" by (rule hw_frameE) blast
  from assms(2) obtain h' where "s'' = s'\<lparr>csr := (csr s')\<lparr>hw_mip := h'\<rparr>\<rparr>"
    "within 0xAAA (hw_mip (csr s')) \<Longrightarrow> within 0xAAA h'" by (rule hw_frameE) blast
  with 1 show ?thesis using hw_frameI [of s h'] by simp
qed

lemma hw_frame_arch_step:
  assumes "hw_frame s s'"
  shows "arch_step d s s'"
  using assms
  by (elim hw_frameE) (simp add: arch_step_def cpu_inv_def csr_inv_def machine_state_def machine_view_def)

section \<open>Elementary updates\<close>

lemma set_reg_arch_step [simp]: "arch_step d s (set_reg (d_rd d) v s)"
  by (auto simp: arch_step_def set_reg_def cpu_inv_def machine_state_def)

lemma next_pc_arch_step [simp]: "arch_step d s (s\<lparr>next_pc := v\<rparr>)"
  by (simp add: arch_step_def cpu_inv_def machine_state_def)

lemma clear_arch_step [simp]: "arch_step d s (s\<lparr>lr_sc := reservation_clear (lr_sc s)\<rparr>)"
  by (simp add: arch_step_def cpu_inv_def machine_state_def reservation_clear_def)

lemma aligned_and_3: "(a AND NOT 3) AND 3 = (0 :: u32)"
  by (simp add: and.assoc)

lemma set_arch_step [simp]: "arch_step d s (s\<lparr>lr_sc := reservation_set a (lr_sc s)\<rparr>)"
  using aligned_and_3 by (simp add: arch_step_def cpu_inv_def machine_state_def reservation_set_def)

lemma csr_write_arch_step:
  assumes "csr_write (csr s) a (priv s) v = Some (c, f)"
  shows "arch_step d s (s\<lparr>csr := c\<rparr>)"
  using csr_inv_write [OF assms] csr_write_machine_view [OF assms]
  by (simp add: arch_step_def cpu_inv_def machine_state_def)

section \<open>Returns from traps\<close>

lemma within_or: "within m (a OR b) \<longleftrightarrow> within m a \<and> within m b" for a b m :: u32
  by (auto simp: within_iff bit_simps)

lemma within_and: "within m a \<Longrightarrow> within m (a AND b)" for a b m :: u32
  by (auto simp: within_iff bit_simps)

lemma mstatus_bits_within:
  "within MSTATUS_WRITE_MASK MSTATUS_MIE" "within MSTATUS_WRITE_MASK MSTATUS_MPIE"
  "within MSTATUS_WRITE_MASK MSTATUS_SIE" "within MSTATUS_WRITE_MASK MSTATUS_SPIE"
  "within MSTATUS_WRITE_MASK MSTATUS_SPP" "within MSTATUS_WRITE_MASK 0"
  by (simp_all add: within_def mask_values)

lemma mstatus_ok_mret [simp]: "mstatus_ok ms \<Longrightarrow> mstatus_ok (mret_mstatus ms)"
  by (simp add: mstatus_ok_def mret_mstatus_def Let_def within_or within_and mstatus_bits_within bit_simps)

lemma mstatus_ok_sret [simp]: "mstatus_ok ms \<Longrightarrow> mstatus_ok (sret_mstatus ms)"
  by (simp add: mstatus_ok_def sret_mstatus_def Let_def within_or within_and mstatus_bits_within bit_simps)

lemma sret_machine_bits [simp]: "sret_mstatus ms AND NOT SSTATUS_MASK = ms AND NOT SSTATUS_MASK"
  by (rule u32_eqI) (simp add: sret_mstatus_def Let_def mask_values bitwise)

lemma mpp_legal:
  assumes "mstatus_ok ms"
  shows "(ucast (drop_bit 11 ms AND 0x3) :: u8) \<in> {PRV_U, PRV_S, PRV_M}"
proof -
  have "drop_bit 11 ms AND 0x3 \<in> {0, 1, 3}"
    using assms by (auto simp: mstatus_ok_def u32_eq_bits bitwise)
  then show ?thesis by auto
qed

lemma exec_mret_arch_step: "exec_mret d s e = (r, s', e') \<Longrightarrow> arch_step d s s'"
  using mpp_legal [of "mstatus (csr s)"]
  by (auto simp: exec_mret_def exec_done_def csr_illegal_def Let_def arch_step_def cpu_inv_def
      csr_inv_def split: if_splits)

lemma exec_sret_arch_step: "exec_sret d s e = (r, s', e') \<Longrightarrow> arch_step d s s'"
  by (auto simp: exec_sret_def exec_done_def csr_illegal_def Let_def arch_step_def cpu_inv_def
      csr_inv_def machine_state_def machine_view_def split: if_splits)

section \<open>The memory contract\<close>

locale mem_if =
  fixes m :: "'e MemIf"
  assumes read_frame: "mem_read m a n s e = (v, s', e') \<Longrightarrow> hw_frame s s'"
    and write_frame: "mem_write m a v n s e = (s', e') \<Longrightarrow> hw_frame s s'"
    and satp_frame: "on_satp_write m s e = (s', e') \<Longrightarrow> hw_frame s s'"
begin

lemma exec_load_arch_step:
  assumes "exec_load m n k f d s e = (r, s', e')"
  shows "arch_step d s s'"
proof (cases "(get_reg s (d_rs1 d) + d_imm d) AND k = 0")
  case True
  obtain v s1 e1 where rd: "mem_read m (get_reg s (d_rs1 d) + d_imm d) n s e = (v, s1, e1)"
    using prod_cases3 by blast
  have "arch_step d s s1" by (rule hw_frame_arch_step [OF read_frame [OF rd]])
  also have "arch_step d s1 (set_reg (d_rd d) (f v) s1)" by simp
  finally show ?thesis using assms True rd by (auto simp: exec_load_def set_rd_def exec_done_def)
next
  case False
  with assms show ?thesis by (simp add: exec_load_def)
qed

lemma exec_store_arch_step:
  assumes "exec_store m n k v d s e = (r, s', e')"
  shows "arch_step d s s'"
proof (cases "(get_reg s (d_rs1 d) + d_imm d) AND k = 0")
  case True
  obtain s1 e1 where wr: "mem_write m (get_reg s (d_rs1 d) + d_imm d) v n s e = (s1, e1)"
    using prod.exhaust by blast
  have "arch_step d s s1" by (rule hw_frame_arch_step [OF write_frame [OF wr]])
  also have "arch_step d s1 (s1\<lparr>lr_sc := reservation_clear (lr_sc s1)\<rparr>)" by simp
  finally show ?thesis using assms True wr by (auto simp: exec_store_def exec_done_def)
next
  case False
  with assms show ?thesis by (simp add: exec_store_def)
qed

lemma exec_lr_arch_step:
  assumes "exec_lr m d s e = (r, s', e')"
  shows "arch_step d s s'"
proof (cases "get_reg s (d_rs1 d) AND 3 = 0")
  case True
  obtain v s1 e1 where rd: "mem_read m (get_reg s (d_rs1 d)) 4 s e = (v, s1, e1)"
    using prod_cases3 by blast
  let ?s2 = "set_reg (d_rd d) v s1"
  have "arch_step d s s1" by (rule hw_frame_arch_step [OF read_frame [OF rd]])
  also have "arch_step d s1 ?s2" by simp
  also have "arch_step d ?s2 (?s2\<lparr>lr_sc := reservation_set (get_reg s (d_rs1 d)) (lr_sc ?s2)\<rparr>)" by simp
  finally show ?thesis using assms True rd by (auto simp: exec_lr_def exec_done_def Let_def)
next
  case False
  with assms show ?thesis by (simp add: exec_lr_def)
qed

lemma exec_sc_arch_step:
  assumes "exec_sc m d s e = (r, s', e')"
  shows "arch_step d s s'"
proof (cases "get_reg s (d_rs1 d) AND 3 = 0 \<and> reservation_check (lr_sc s) (get_reg s (d_rs1 d))")
  case True
  obtain s1 e1 where wr: "mem_write m (get_reg s (d_rs1 d)) (get_reg s (d_rs2 d)) 4 s e = (s1, e1)"
    using prod.exhaust by blast
  let ?s2 = "set_reg (d_rd d) 0 s1"
  have "arch_step d s s1" by (rule hw_frame_arch_step [OF write_frame [OF wr]])
  also have "arch_step d s1 ?s2" by simp
  also have "arch_step d ?s2 (?s2\<lparr>lr_sc := reservation_clear (lr_sc ?s2)\<rparr>)" by simp
  finally show ?thesis using assms True wr by (auto simp: exec_sc_def exec_done_def Let_def)
next
  case False
  let ?s2 = "set_reg (d_rd d) 1 s"
  have "arch_step d s ?s2" by simp
  also have "arch_step d ?s2 (?s2\<lparr>lr_sc := reservation_clear (lr_sc ?s2)\<rparr>)" by simp
  finally show ?thesis
    using assms False by (auto simp: exec_sc_def exec_done_def Let_def split: if_splits)
qed

lemma exec_amo_arch_step:
  assumes "exec_amo m f d s e = (r, s', e')"
  shows "arch_step d s s'"
proof (cases "get_reg s (d_rs1 d) AND 3 = 0")
  case True
  let ?a = "get_reg s (d_rs1 d)"
  obtain v s1 e1 where rd: "mem_read m ?a 4 s e = (v, s1, e1)"
    using prod_cases3 by blast
  let ?s2 = "set_reg (d_rd d) v s1"
  obtain s3 e3 where wr: "mem_write m ?a (f v (get_reg s (d_rs2 d))) 4 ?s2 e1 = (s3, e3)"
    using prod.exhaust by blast
  have "arch_step d s s1" by (rule hw_frame_arch_step [OF read_frame [OF rd]])
  also have "arch_step d s1 ?s2" by simp
  also have "arch_step d ?s2 s3" by (rule hw_frame_arch_step [OF write_frame [OF wr]])
  finally show ?thesis using assms True rd wr by (auto simp: exec_amo_def exec_done_def Let_def)
next
  case False
  with assms show ?thesis by (simp add: exec_amo_def)
qed

lemma exec_csr_write_arch_step:
  assumes "exec_csr_write m a v s e = Some (s', e')"
  shows "arch_step d s s'"
proof -
  from assms obtain c f where w: "csr_write (csr s) a (priv s) v = Some (c, f)"
    and s': "(s', e') = (if f then on_satp_write m (s\<lparr>csr := c\<rparr>) e else (s\<lparr>csr := c\<rparr>, e))"
    by (auto simp: exec_csr_write_def Let_def split: option.splits)
  have "arch_step d s (s\<lparr>csr := c\<rparr>)" by (rule csr_write_arch_step [OF w])
  also have "arch_step d (s\<lparr>csr := c\<rparr>) s'"
    using s' hw_frame_arch_step [OF satp_frame [of "s\<lparr>csr := c\<rparr>" e s' e']] by (auto split: if_splits)
  finally show ?thesis .
qed

lemma exec_csrrw_arch_step:
  assumes "exec_csrrw m v d s e = (r, s', e')"
  shows "arch_step d s s'"
proof -
  have *: "arch_step d s s2" if "exec_csr_write m (ucast (d_csr d)) v (set_reg (d_rd d) w s) e = Some (s2, e2)" for w s2 e2
    using arch_step_trans [OF set_reg_arch_step exec_csr_write_arch_step [OF that]] .
  show ?thesis
    using assms * exec_csr_write_arch_step
    by (auto simp: exec_csrrw_def exec_done_def csr_illegal_def Let_def
        split: if_splits option.splits prod.splits)
qed

lemma exec_csrrx_arch_step:
  assumes "exec_csrrx m f d s e = (r, s', e')"
  shows "arch_step d s s'"
proof -
  have *: "arch_step d s s2" if "exec_csr_write m (ucast (d_csr d)) v (set_reg (d_rd d) w s) e = Some (s2, e2)" for v w s2 e2
    using arch_step_trans [OF set_reg_arch_step exec_csr_write_arch_step [OF that]] .
  show ?thesis
    using assms *
    by (auto simp: exec_csrrx_def exec_done_def csr_illegal_def Let_def
        split: if_splits option.splits prod.splits)
qed

lemmas group_arch_steps = exec_load_arch_step exec_store_arch_step exec_lr_arch_step exec_sc_arch_step
  exec_amo_arch_step exec_csrrw_arch_step exec_csrrx_arch_step exec_mret_arch_step exec_sret_arch_step

end

lemma set_rd_arch_step: "set_rd d v s e = (r, s', e') \<Longrightarrow> arch_step d s s'"
  by (auto simp: set_rd_def exec_done_def)

lemma exec_branch_arch_step: "exec_branch b d s e = (r, s', e') \<Longrightarrow> arch_step d s s'"
  by (auto simp: exec_branch_def exec_done_def)

lemma jump_arch_step: "arch_step d s ((set_reg (d_rd d) v s)\<lparr>next_pc := t\<rparr>)"
  using arch_step_trans [OF set_reg_arch_step next_pc_arch_step] .

context mem_if
begin

lemma execute_arch_step:
  assumes "execute m d s e = (r, s', e')"
  shows "arch_step d s s'"
proof -
  let ?s = "s\<lparr>next_pc := pc s + instr_len d\<rparr>"
  have "arch_step d ?s s'"
    using assms
    by (cases "d_type d")
      (auto simp: execute_def Let_def exec_done_def csr_illegal_def exec_ecall_def exec_sfence_vma_def
        jump_arch_step split: if_splits
        intro: set_rd_arch_step exec_branch_arch_step group_arch_steps)
  then show ?thesis by (rule arch_step_trans [OF next_pc_arch_step])
qed

end

end
