(* ===== verification/Decode_Spec.thy ===== *)
theory Decode_Spec
  imports Decode
begin

text \<open>
  The reference for the decoder: an abstract syntax of RV32IMA assembly (\<open>asm\<close>), the
  encoding of each instruction from the RISC-V specification (\<open>assemble\<close>, through the
  format encoders of \<open>RV32_Defs\<close>) and the decoded record it stands for
  (\<open>asm_decoded\<close>). The main lemma, \<open>decode32_assemble\<close>, says that the 32-bit decoder
  recovers the instruction type and every operand of every assembled instruction.
\<close>

unbundle bit_operations_syntax

section \<open>RV32IMA assembly\<close>

datatype op_u = U_LUI | U_AUIPC
datatype op_b = B_BEQ | B_BNE | B_BLT | B_BGE | B_BLTU | B_BGEU
datatype op_l = L_LB | L_LH | L_LW | L_LBU | L_LHU
datatype op_s = S_SB | S_SH | S_SW
datatype op_i = II_ADDI | II_SLTI | II_SLTIU | II_XORI | II_ORI | II_ANDI
datatype op_sh = SH_SLLI | SH_SRLI | SH_SRAI
datatype op_r = R_ADD | R_SUB | R_SLL | R_SLT | R_SLTU | R_XOR | R_SRL | R_SRA | R_OR | R_AND
datatype op_m = M_MUL | M_MULH | M_MULHSU | M_MULHU | M_DIV | M_DIVU | M_REM | M_REMU
datatype op_a = A_LR | A_SC | A_SWAP | A_ADD | A_XOR | A_AND | A_OR | A_MIN | A_MAX | A_MINU | A_MAXU
datatype op_csr = C_RW | C_RS | C_RC | C_RWI | C_RSI | C_RCI
datatype op_priv = P_ECALL | P_EBREAK | P_MRET | P_SRET | P_URET | P_WFI

primrec u_code :: "op_u \<Rightarrow> InstrType \<times> 7 word" where
  "u_code U_LUI = (I_LUI, 0b0110111)"
| "u_code U_AUIPC = (I_AUIPC, 0b0010111)"

primrec b_code :: "op_b \<Rightarrow> InstrType \<times> 3 word" where
  "b_code B_BEQ = (I_BEQ, 0b000)"
| "b_code B_BNE = (I_BNE, 0b001)"
| "b_code B_BLT = (I_BLT, 0b100)"
| "b_code B_BGE = (I_BGE, 0b101)"
| "b_code B_BLTU = (I_BLTU, 0b110)"
| "b_code B_BGEU = (I_BGEU, 0b111)"

primrec l_code :: "op_l \<Rightarrow> InstrType \<times> 3 word" where
  "l_code L_LB = (I_LB, 0b000)"
| "l_code L_LH = (I_LH, 0b001)"
| "l_code L_LW = (I_LW, 0b010)"
| "l_code L_LBU = (I_LBU, 0b100)"
| "l_code L_LHU = (I_LHU, 0b101)"

primrec s_code :: "op_s \<Rightarrow> InstrType \<times> 3 word" where
  "s_code S_SB = (I_SB, 0b000)"
| "s_code S_SH = (I_SH, 0b001)"
| "s_code S_SW = (I_SW, 0b010)"

primrec i_code :: "op_i \<Rightarrow> InstrType \<times> 3 word" where
  "i_code II_ADDI = (I_ADDI, 0b000)"
| "i_code II_SLTI = (I_SLTI, 0b010)"
| "i_code II_SLTIU = (I_SLTIU, 0b011)"
| "i_code II_XORI = (I_XORI, 0b100)"
| "i_code II_ORI = (I_ORI, 0b110)"
| "i_code II_ANDI = (I_ANDI, 0b111)"

primrec sh_code :: "op_sh \<Rightarrow> InstrType \<times> 7 word \<times> 3 word" where
  "sh_code SH_SLLI = (I_SLLI, 0b0000000, 0b001)"
| "sh_code SH_SRLI = (I_SRLI, 0b0000000, 0b101)"
| "sh_code SH_SRAI = (I_SRAI, 0b0100000, 0b101)"

primrec r_code :: "op_r \<Rightarrow> InstrType \<times> 7 word \<times> 3 word" where
  "r_code R_ADD = (I_ADD, 0b0000000, 0b000)"
| "r_code R_SUB = (I_SUB, 0b0100000, 0b000)"
| "r_code R_SLL = (I_SLL, 0b0000000, 0b001)"
| "r_code R_SLT = (I_SLT, 0b0000000, 0b010)"
| "r_code R_SLTU = (I_SLTU, 0b0000000, 0b011)"
| "r_code R_XOR = (I_XOR, 0b0000000, 0b100)"
| "r_code R_SRL = (I_SRL, 0b0000000, 0b101)"
| "r_code R_SRA = (I_SRA, 0b0100000, 0b101)"
| "r_code R_OR = (I_OR, 0b0000000, 0b110)"
| "r_code R_AND = (I_AND, 0b0000000, 0b111)"

primrec m_code :: "op_m \<Rightarrow> InstrType \<times> 3 word" where
  "m_code M_MUL = (I_MUL, 0b000)"
| "m_code M_MULH = (I_MULH, 0b001)"
| "m_code M_MULHSU = (I_MULHSU, 0b010)"
| "m_code M_MULHU = (I_MULHU, 0b011)"
| "m_code M_DIV = (I_DIV, 0b100)"
| "m_code M_DIVU = (I_DIVU, 0b101)"
| "m_code M_REM = (I_REM, 0b110)"
| "m_code M_REMU = (I_REMU, 0b111)"

primrec a_code :: "op_a \<Rightarrow> InstrType \<times> 5 word" where
  "a_code A_LR = (I_LR_W, 0b00010)"
| "a_code A_SC = (I_SC_W, 0b00011)"
| "a_code A_SWAP = (I_AMOSWAP_W, 0b00001)"
| "a_code A_ADD = (I_AMOADD_W, 0b00000)"
| "a_code A_XOR = (I_AMOXOR_W, 0b00100)"
| "a_code A_AND = (I_AMOAND_W, 0b01100)"
| "a_code A_OR = (I_AMOOR_W, 0b01000)"
| "a_code A_MIN = (I_AMOMIN_W, 0b10000)"
| "a_code A_MAX = (I_AMOMAX_W, 0b10100)"
| "a_code A_MINU = (I_AMOMINU_W, 0b11000)"
| "a_code A_MAXU = (I_AMOMAXU_W, 0b11100)"

primrec csr_code :: "op_csr \<Rightarrow> InstrType \<times> 3 word" where
  "csr_code C_RW = (I_CSRRW, 0b001)"
| "csr_code C_RS = (I_CSRRS, 0b010)"
| "csr_code C_RC = (I_CSRRC, 0b011)"
| "csr_code C_RWI = (I_CSRRWI, 0b101)"
| "csr_code C_RSI = (I_CSRRSI, 0b110)"
| "csr_code C_RCI = (I_CSRRCI, 0b111)"

primrec priv_code :: "op_priv \<Rightarrow> InstrType \<times> 12 word" where
  "priv_code P_ECALL = (I_ECALL, 0x000)"
| "priv_code P_EBREAK = (I_EBREAK, 0x001)"
| "priv_code P_MRET = (I_MRET, 0x302)"
| "priv_code P_SRET = (I_SRET, 0x102)"
| "priv_code P_URET = (I_URET, 0x002)"
| "priv_code P_WFI = (I_WFI, 0x105)"

lemmas op_codes = u_code.simps b_code.simps l_code.simps s_code.simps i_code.simps
  sh_code.simps r_code.simps m_code.simps a_code.simps csr_code.simps priv_code.simps

text \<open>
  Operands are listed in the order immediate, \<open>rs2\<close>, \<open>rs1\<close>, \<open>rd\<close>. The two words of an
  AMO before its registers are its funct5-neighbours \<open>aq\<close> and \<open>rl\<close>, as one 2-bit word.
\<close>

datatype asm =
    ASM_U op_u "20 word" "5 word"
  | ASM_JAL "20 word" "5 word"
  | ASM_JALR "12 word" "5 word" "5 word"
  | ASM_B op_b "12 word" "5 word" "5 word"
  | ASM_L op_l "12 word" "5 word" "5 word"
  | ASM_S op_s "12 word" "5 word" "5 word"
  | ASM_I op_i "12 word" "5 word" "5 word"
  | ASM_SH op_sh "5 word" "5 word" "5 word"
  | ASM_R op_r "5 word" "5 word" "5 word"
  | ASM_M op_m "5 word" "5 word" "5 word"
  | ASM_A op_a "2 word" "5 word" "5 word" "5 word"
  | ASM_CSR op_csr "12 word" "5 word" "5 word"
  | ASM_PRIV op_priv
  | ASM_SFENCE_VMA "5 word" "5 word"
  | ASM_FENCE "12 word"
  | ASM_FENCEI

definition amo_funct7 :: "5 word \<Rightarrow> 2 word \<Rightarrow> 7 word" where
  "amo_funct7 f5 aqrl = push_bit 2 (ucast f5) OR ucast aqrl"

primrec assemble :: "asm \<Rightarrow> u32" where
  "assemble (ASM_U p imm r) = enc_u imm r (snd (u_code p))"
| "assemble (ASM_JAL off r) = enc_j off r 0b1101111"
| "assemble (ASM_JALR imm r1 r) = enc_i imm r1 0 r 0b1100111"
| "assemble (ASM_B p off r2 r1) = enc_b off r2 r1 (snd (b_code p)) 0b1100011"
| "assemble (ASM_L p imm r1 r) = enc_i imm r1 (snd (l_code p)) r 0b0000011"
| "assemble (ASM_S p imm r2 r1) = enc_s imm r2 r1 (snd (s_code p)) 0b0100011"
| "assemble (ASM_I p imm r1 r) = enc_i imm r1 (snd (i_code p)) r 0b0010011"
| "assemble (ASM_SH p sh r1 r) =
     enc_r (fst (snd (sh_code p))) sh r1 (snd (snd (sh_code p))) r 0b0010011"
| "assemble (ASM_R p r2 r1 r) =
     enc_r (fst (snd (r_code p))) r2 r1 (snd (snd (r_code p))) r 0b0110011"
| "assemble (ASM_M p r2 r1 r) = enc_r 0b0000001 r2 r1 (snd (m_code p)) r 0b0110011"
| "assemble (ASM_A p aqrl r2 r1 r) =
     enc_r (amo_funct7 (snd (a_code p)) aqrl) r2 r1 0b010 r 0b0101111"
| "assemble (ASM_CSR p csr r1 r) = enc_i csr r1 (snd (csr_code p)) r 0b1110011"
| "assemble (ASM_PRIV p) = enc_i (snd (priv_code p)) 0 0 0 0b1110011"
| "assemble (ASM_SFENCE_VMA r2 r1) = enc_r 0b0001001 r2 r1 0 0 0b1110011"
| "assemble (ASM_FENCE ops) = enc_i ops 0 0b000 0 0b0001111"
| "assemble ASM_FENCEI = enc_i 0 0 0b001 0 0b0001111"

text \<open>What an instruction decodes to, the raw word apart.\<close>

primrec asm_decoded :: "asm \<Rightarrow> DecodedInstr" where
  "asm_decoded (ASM_U p imm r) = DecodedInstr_init
     \<lparr>d_type := fst (u_code p), d_rd := ucast r, d_imm := push_bit 12 (ucast imm)\<rparr>"
| "asm_decoded (ASM_JAL off r) = DecodedInstr_init
     \<lparr>d_type := I_JAL, d_rd := ucast r, d_imm := 2 * scast off\<rparr>"
| "asm_decoded (ASM_JALR imm r1 r) = DecodedInstr_init
     \<lparr>d_type := I_JALR, d_rd := ucast r, d_rs1 := ucast r1, d_imm := scast imm\<rparr>"
| "asm_decoded (ASM_B p off r2 r1) = DecodedInstr_init
     \<lparr>d_type := fst (b_code p), d_rs1 := ucast r1, d_rs2 := ucast r2, d_imm := 2 * scast off\<rparr>"
| "asm_decoded (ASM_L p imm r1 r) = DecodedInstr_init
     \<lparr>d_type := fst (l_code p), d_rd := ucast r, d_rs1 := ucast r1, d_imm := scast imm\<rparr>"
| "asm_decoded (ASM_S p imm r2 r1) = DecodedInstr_init
     \<lparr>d_type := fst (s_code p), d_rs1 := ucast r1, d_rs2 := ucast r2, d_imm := scast imm\<rparr>"
| "asm_decoded (ASM_I p imm r1 r) = DecodedInstr_init
     \<lparr>d_type := fst (i_code p), d_rd := ucast r, d_rs1 := ucast r1, d_imm := scast imm\<rparr>"
| "asm_decoded (ASM_SH p sh r1 r) = DecodedInstr_init
     \<lparr>d_type := fst (sh_code p), d_rd := ucast r, d_rs1 := ucast r1, d_imm := ucast sh\<rparr>"
| "asm_decoded (ASM_R p r2 r1 r) = DecodedInstr_init
     \<lparr>d_type := fst (r_code p), d_rd := ucast r, d_rs1 := ucast r1, d_rs2 := ucast r2\<rparr>"
| "asm_decoded (ASM_M p r2 r1 r) = DecodedInstr_init
     \<lparr>d_type := fst (m_code p), d_rd := ucast r, d_rs1 := ucast r1, d_rs2 := ucast r2\<rparr>"
| "asm_decoded (ASM_A p aqrl r2 r1 r) = DecodedInstr_init
     \<lparr>d_type := fst (a_code p), d_rd := ucast r, d_rs1 := ucast r1, d_rs2 := ucast r2\<rparr>"
| "asm_decoded (ASM_CSR p csr r1 r) = DecodedInstr_init
     \<lparr>d_type := fst (csr_code p), d_rd := ucast r, d_rs1 := ucast r1, d_csr := ucast csr,
      d_imm := ucast r1\<rparr>"
| "asm_decoded (ASM_PRIV p) = DecodedInstr_init\<lparr>d_type := fst (priv_code p)\<rparr>"
| "asm_decoded (ASM_SFENCE_VMA r2 r1) = DecodedInstr_init
     \<lparr>d_type := I_SFENCE_VMA, d_rs1 := ucast r1, d_rs2 := ucast r2\<rparr>"
| "asm_decoded (ASM_FENCE ops) = DecodedInstr_init\<lparr>d_type := I_FENCE\<rparr>"
| "asm_decoded ASM_FENCEI = DecodedInstr_init\<lparr>d_type := I_FENCEI\<rparr>"

section \<open>The 32-bit decoder against the reference\<close>

lemmas decode_arm_defs = decode_branch_def decode_load_def decode_store_def decode_op_imm_def
  decode_op_reg_def decode_amo_def decode_system_def

lemma funct5_amo [simp]: "drop_bit 2 (ucast (amo_funct7 f5 aqrl)) = (ucast f5 :: u32)"
  by (rule u32_eqI, simp add: amo_funct7_def bitwise)

lemma decode32_assemble: "decode32 (assemble a) = (asm_decoded a)\<lparr>d_raw := assemble a\<rparr>"
proof (cases a)
  case (ASM_U p imm r)
  then show ?thesis by (cases p) (simp_all add: decode32_def)
next
  case (ASM_B p off r2 r1)
  then show ?thesis by (cases p) (simp_all add: decode32_def decode_branch_def)
next
  case (ASM_L p imm r1 r)
  then show ?thesis by (cases p) (simp_all add: decode32_def decode_load_def)
next
  case (ASM_S p imm r1 r)
  then show ?thesis by (cases p) (simp_all add: decode32_def decode_store_def)
next
  case (ASM_I p imm r1 r)
  then show ?thesis by (cases p) (simp_all add: decode32_def decode_op_imm_def)
next
  case (ASM_SH p sh r1 r)
  then show ?thesis by (cases p) (simp_all add: decode32_def decode_op_imm_def)
next
  case (ASM_R p r2 r1 r)
  then show ?thesis by (cases p) (simp_all add: decode32_def decode_op_reg_def)
next
  case (ASM_M p r2 r1 r)
  then show ?thesis by (cases p) (simp_all add: decode32_def decode_op_reg_def)
next
  case (ASM_A p aqrl r2 r1 r)
  then show ?thesis by (cases p) (simp_all add: decode32_def decode_amo_def)
next
  case (ASM_CSR p csr r1 r)
  then show ?thesis by (cases p) (simp_all add: decode32_def decode_system_def csr_zimm_def)
next
  case (ASM_PRIV p)
  then show ?thesis by (cases p) (simp_all add: decode32_def decode_system_def)
qed (simp_all add: decode32_def decode_system_def)

end
