(* ===== verification/RVC_Spec.thy ===== *)
theory RVC_Spec
  imports Decode_Spec
begin

text \<open>
  The reference for the RVC expander: an abstract syntax of the RV32C instructions
  (\<open>rvc\<close>) with the 16-bit encoding of each (\<open>rvc_encode\<close>), its legality condition
  (\<open>rvc_legal\<close>) and the base instruction the RISC-V specification expands it to
  (\<open>rvc_expand\<close>). The lemmas show, form by form, that \<open>expand_compressed\<close> of an encoded
  compressed instruction is the encoding of the instruction it stands for.
\<close>

unbundle bit_operations_syntax

section \<open>Compressed instructions\<close>

text \<open>
  The compressed instructions of RV32C (no floating point). Immediates are the encoded
  fields at their own width: \<open>C_LW\<close> takes \<open>uimm[6:2]\<close>, \<open>C_J\<close> takes \<open>offset[11:1]\<close>, and so on.
\<close>

datatype rvc =
    C_ADDI4SPN "8 word" "3 word"
  | C_LW "5 word" "3 word" "3 word"
  | C_SW "5 word" "3 word" "3 word"
  | C_ADDI "6 word" "5 word"
  | C_JAL "11 word"
  | C_LI "6 word" "5 word"
  | C_ADDI16SP "6 word"
  | C_LUI "6 word" "5 word"
  | C_SRLI "5 word" "3 word"
  | C_SRAI "5 word" "3 word"
  | C_ANDI "6 word" "3 word"
  | C_SUB "3 word" "3 word"
  | C_XOR "3 word" "3 word"
  | C_OR "3 word" "3 word"
  | C_AND "3 word" "3 word"
  | C_J "11 word"
  | C_BEQZ "8 word" "3 word"
  | C_BNEZ "8 word" "3 word"
  | C_SLLI "5 word" "5 word"
  | C_LWSP "6 word" "5 word"
  | C_JR "5 word"
  | C_MV "5 word" "5 word"
  | C_EBREAK
  | C_JALR "5 word"
  | C_ADD "5 word" "5 word"
  | C_SWSP "6 word" "5 word"

text \<open>\<open>place pos n lo w\<close> puts the \<open>n\<close> bits of \<open>w\<close> from bit \<open>lo\<close> upwards at bit \<open>pos\<close>.\<close>

definition place :: "nat \<Rightarrow> nat \<Rightarrow> nat \<Rightarrow> 'a::len word \<Rightarrow> u16" where
  "place pos n lo w = push_bit pos (take_bit n (ucast (drop_bit lo w)))"

definition c_alu_base :: "3 word \<Rightarrow> 3 word \<Rightarrow> 2 word \<Rightarrow> u16" where
  "c_alu_base r r2 f2 = 0x8C01 OR place 7 3 0 r OR place 5 2 0 f2 OR place 2 3 0 r2"

definition c_jump :: "11 word \<Rightarrow> u16" where
  "c_jump off = place 12 1 10 off OR place 11 1 3 off OR place 9 2 7 off OR place 8 1 9 off OR
     place 7 1 5 off OR place 6 1 6 off OR place 3 3 0 off OR place 2 1 4 off"

definition c_branch :: "8 word \<Rightarrow> 3 word \<Rightarrow> u16" where
  "c_branch off r = place 12 1 7 off OR place 10 2 2 off OR place 7 3 0 r OR
     place 5 2 5 off OR place 3 2 0 off OR place 2 1 4 off"

definition c_imm_reg :: "6 word \<Rightarrow> 5 word \<Rightarrow> u16" where
  "c_imm_reg imm r = place 12 1 5 imm OR place 7 5 0 r OR place 2 5 0 imm"

text \<open>C.JR, C.MV, C.EBREAK, C.JALR and C.ADD share a quadrant and a funct3.\<close>

definition c_cr :: "bool \<Rightarrow> 5 word \<Rightarrow> 5 word \<Rightarrow> u16" where
  "c_cr hi r r2 = (if hi then 0x9002 else 0x8002) OR place 7 5 0 r OR place 2 5 0 r2"

primrec rvc_encode :: "rvc \<Rightarrow> u16" where
  "rvc_encode (C_ADDI4SPN u r) =
     place 11 2 2 u OR place 7 4 4 u OR place 6 1 0 u OR place 5 1 1 u OR place 2 3 0 r"
| "rvc_encode (C_LW u r1 r) = 0x4000 OR
     place 10 3 1 u OR place 7 3 0 r1 OR place 6 1 0 u OR place 5 1 4 u OR place 2 3 0 r"
| "rvc_encode (C_SW u r1 r2) = 0xC000 OR
     place 10 3 1 u OR place 7 3 0 r1 OR place 6 1 0 u OR place 5 1 4 u OR place 2 3 0 r2"
| "rvc_encode (C_ADDI imm r) = 0x0001 OR c_imm_reg imm r"
| "rvc_encode (C_JAL off) = 0x2001 OR c_jump off"
| "rvc_encode (C_LI imm r) = 0x4001 OR c_imm_reg imm r"
| "rvc_encode (C_ADDI16SP n) = 0x6101 OR
     place 12 1 5 n OR place 6 1 0 n OR place 5 1 2 n OR place 3 2 3 n OR place 2 1 1 n"
| "rvc_encode (C_LUI imm r) = 0x6001 OR c_imm_reg imm r"
| "rvc_encode (C_SRLI sh r) = 0x8001 OR place 7 3 0 r OR place 2 5 0 sh"
| "rvc_encode (C_SRAI sh r) = 0x8401 OR place 7 3 0 r OR place 2 5 0 sh"
| "rvc_encode (C_ANDI imm r) = 0x8801 OR place 12 1 5 imm OR place 7 3 0 r OR place 2 5 0 imm"
| "rvc_encode (C_SUB r r2) = c_alu_base r r2 0b00"
| "rvc_encode (C_XOR r r2) = c_alu_base r r2 0b01"
| "rvc_encode (C_OR r r2) = c_alu_base r r2 0b10"
| "rvc_encode (C_AND r r2) = c_alu_base r r2 0b11"
| "rvc_encode (C_J off) = 0xA001 OR c_jump off"
| "rvc_encode (C_BEQZ off r) = 0xC001 OR c_branch off r"
| "rvc_encode (C_BNEZ off r) = 0xE001 OR c_branch off r"
| "rvc_encode (C_SLLI sh r) = 0x0002 OR place 7 5 0 r OR place 2 5 0 sh"
| "rvc_encode (C_LWSP u r) = 0x4002 OR
     place 12 1 3 u OR place 7 5 0 r OR place 4 3 0 u OR place 2 2 4 u"
| "rvc_encode (C_JR r) = c_cr False r 0"
| "rvc_encode (C_MV r r2) = c_cr False r r2"
| "rvc_encode C_EBREAK = c_cr True 0 0"
| "rvc_encode (C_JALR r) = c_cr True r 0"
| "rvc_encode (C_ADD r r2) = c_cr True r r2"
| "rvc_encode (C_SWSP u r2) = 0xC002 OR place 9 4 0 u OR place 7 2 4 u OR place 2 5 0 r2"

text \<open>The compressed register numbers stand for \<open>x8\<close> to \<open>x15\<close>.\<close>

definition xreg :: "3 word \<Rightarrow> 5 word" where
  "xreg r = ucast r OR 8"

text \<open>The base instruction a compressed one stands for.\<close>

primrec rvc_expand :: "rvc \<Rightarrow> asm" where
  "rvc_expand (C_ADDI4SPN u r) = ASM_I II_ADDI (push_bit 2 (ucast u)) 2 (xreg r)"
| "rvc_expand (C_LW u r1 r) = ASM_L L_LW (push_bit 2 (ucast u)) (xreg r1) (xreg r)"
| "rvc_expand (C_SW u r1 r2) = ASM_S S_SW (push_bit 2 (ucast u)) (xreg r2) (xreg r1)"
| "rvc_expand (C_ADDI imm r) = ASM_I II_ADDI (scast imm) r r"
| "rvc_expand (C_JAL off) = ASM_JAL (scast off) 1"
| "rvc_expand (C_LI imm r) = ASM_I II_ADDI (scast imm) 0 r"
| "rvc_expand (C_ADDI16SP n) = ASM_I II_ADDI (push_bit 4 (scast n)) 2 2"
| "rvc_expand (C_LUI imm r) = ASM_U U_LUI (scast imm) r"
| "rvc_expand (C_SRLI sh r) = ASM_SH SH_SRLI sh (xreg r) (xreg r)"
| "rvc_expand (C_SRAI sh r) = ASM_SH SH_SRAI sh (xreg r) (xreg r)"
| "rvc_expand (C_ANDI imm r) = ASM_I II_ANDI (scast imm) (xreg r) (xreg r)"
| "rvc_expand (C_SUB r r2) = ASM_R R_SUB (xreg r2) (xreg r) (xreg r)"
| "rvc_expand (C_XOR r r2) = ASM_R R_XOR (xreg r2) (xreg r) (xreg r)"
| "rvc_expand (C_OR r r2) = ASM_R R_OR (xreg r2) (xreg r) (xreg r)"
| "rvc_expand (C_AND r r2) = ASM_R R_AND (xreg r2) (xreg r) (xreg r)"
| "rvc_expand (C_J off) = ASM_JAL (scast off) 0"
| "rvc_expand (C_BEQZ off r) = ASM_B B_BEQ (scast off) 0 (xreg r)"
| "rvc_expand (C_BNEZ off r) = ASM_B B_BNE (scast off) 0 (xreg r)"
| "rvc_expand (C_SLLI sh r) = ASM_SH SH_SLLI sh r r"
| "rvc_expand (C_LWSP u r) = ASM_L L_LW (push_bit 2 (ucast u)) 2 r"
| "rvc_expand (C_JR r) = ASM_JALR 0 r 0"
| "rvc_expand (C_MV r r2) = ASM_R R_ADD r2 0 r"
| "rvc_expand C_EBREAK = ASM_PRIV P_EBREAK"
| "rvc_expand (C_JALR r) = ASM_JALR 0 r 1"
| "rvc_expand (C_ADD r r2) = ASM_R R_ADD r2 r r"
| "rvc_expand (C_SWSP u r2) = ASM_S S_SW (push_bit 2 (ucast u)) r2 2"

text \<open>The encodings the specification does not reserve and does not give to another instruction.\<close>

primrec rvc_legal :: "rvc \<Rightarrow> bool" where
  "rvc_legal (C_ADDI4SPN u r) = (u \<noteq> 0)"
| "rvc_legal (C_LW u r1 r) = True"
| "rvc_legal (C_SW u r1 r2) = True"
| "rvc_legal (C_ADDI imm r) = True"
| "rvc_legal (C_JAL off) = True"
| "rvc_legal (C_LI imm r) = True"
| "rvc_legal (C_ADDI16SP n) = (n \<noteq> 0)"
| "rvc_legal (C_LUI imm r) = (imm \<noteq> 0 \<and> r \<noteq> 2)"
| "rvc_legal (C_SRLI sh r) = True"
| "rvc_legal (C_SRAI sh r) = True"
| "rvc_legal (C_ANDI imm r) = True"
| "rvc_legal (C_SUB r r2) = True"
| "rvc_legal (C_XOR r r2) = True"
| "rvc_legal (C_OR r r2) = True"
| "rvc_legal (C_AND r r2) = True"
| "rvc_legal (C_J off) = True"
| "rvc_legal (C_BEQZ off r) = True"
| "rvc_legal (C_BNEZ off r) = True"
| "rvc_legal (C_SLLI sh r) = True"
| "rvc_legal (C_LWSP u r) = (r \<noteq> 0)"
| "rvc_legal (C_JR r) = (r \<noteq> 0)"
| "rvc_legal (C_MV r r2) = (r2 \<noteq> 0)"
| "rvc_legal C_EBREAK = True"
| "rvc_legal (C_JALR r) = (r \<noteq> 0)"
| "rvc_legal (C_ADD r r2) = (r2 \<noteq> 0)"
| "rvc_legal (C_SWSP u r2) = True"

section \<open>Fields of a compressed parcel\<close>

lemma bit_place [bitwise]:
  "bit (place pos n lo w) k \<longleftrightarrow> pos \<le> k \<and> k < 16 \<and> k - pos < n \<and> bit w (k - pos + lo)"
  for w :: "'a::len word"
  by (auto simp: place_def bit_simps add.commute dest: bit_imp_le_length)

lemmas rvc_parts = c_alu_base_def c_jump_def c_branch_def c_imm_reg_def xreg_def

lemma creg_mask: "creg (w AND 7) = (w AND 7) OR 8"
proof -
  have "(w AND 7) AND 8 = (0 :: u32)" by (rule u32_eqI) (simp add: bitwise)
  then show ?thesis by (simp add: creg_def disjunctive_add_eq_or)
qed

text \<open>The immediates and registers the expander extracts, as bits of the parcel.\<close>

lemma c_imm6_eq:
  "c_imm6 ci = scast (ucast ((drop_bit 7 ci AND 0x20) OR (drop_bit 2 ci AND 0x1F)) :: 6 word)"
proof -
  have test: "((drop_bit 7 ci AND 0x20) OR (drop_bit 2 ci AND 0x1F)) AND 0x20 = 0 \<longleftrightarrow> \<not> bit ci 12"
    by (subst and_mask_bit_iff [where n = 5]) (simp_all add: bitwise)
  show ?thesis
    by (rule u32_eqI; cases "bit ci 12") (simp_all add: c_imm6_def Let_def test bitwise)
qed


section \<open>The RVC expander against the reference\<close>

lemmas expand_defs = expand_compressed_def expand_q0_def expand_q1_def expand_q2_def
  expand_c_alu_def expand_c_lui_def creg_mask c_imm6_eq

lemma expand_reg_forms:
  "expand_compressed (rvc_encode (C_LW u p q)) = assemble (rvc_expand (C_LW u p q))"
  "expand_compressed (rvc_encode (C_SW u p q)) = assemble (rvc_expand (C_SW u p q))"
  "expand_compressed (rvc_encode (C_ADDI imm r)) = assemble (rvc_expand (C_ADDI imm r))"
  "expand_compressed (rvc_encode (C_LI imm r)) = assemble (rvc_expand (C_LI imm r))"
  "expand_compressed (rvc_encode (C_SLLI sh r)) = assemble (rvc_expand (C_SLLI sh r))"
  "expand_compressed (rvc_encode (C_SWSP v r)) = assemble (rvc_expand (C_SWSP v r))"
  by (simp add: expand_defs Let_def rvc_parts bitwise,
      rule u32_eqI, simp add: enc_defs bitwise)+

lemma expand_alu_forms:
  "expand_compressed (rvc_encode (C_SRLI sh r)) = assemble (rvc_expand (C_SRLI sh r))"
  "expand_compressed (rvc_encode (C_SRAI sh r)) = assemble (rvc_expand (C_SRAI sh r))"
  "expand_compressed (rvc_encode (C_ANDI imm r)) = assemble (rvc_expand (C_ANDI imm r))"
  "expand_compressed (rvc_encode (C_SUB r r2)) = assemble (rvc_expand (C_SUB r r2))"
  "expand_compressed (rvc_encode (C_XOR r r2)) = assemble (rvc_expand (C_XOR r r2))"
  "expand_compressed (rvc_encode (C_OR r r2)) = assemble (rvc_expand (C_OR r r2))"
  "expand_compressed (rvc_encode (C_AND r r2)) = assemble (rvc_expand (C_AND r r2))"
  by (simp add: expand_defs Let_def rvc_parts bitwise,
      rule u32_eqI, simp add: enc_defs bitwise)+

lemma c_jump_test:
  "((drop_bit 1 ci AND 0x800) OR (drop_bit 7 ci AND 0x10) OR (drop_bit 1 ci AND 0x300) OR
    (push_bit 2 ci AND 0x400) OR (drop_bit 1 ci AND 0x40) OR (push_bit 1 ci AND 0x80) OR
    (drop_bit 2 ci AND 0xE) OR (push_bit 3 ci AND 0x20)) AND 0x800 = 0 \<longleftrightarrow> \<not> bit (ci :: u32) 12"
  by (subst and_mask_bit_iff [where n = 11]) (simp_all add: bitwise)

lemma c_jump_imm20_eq:
  assumes "\<forall>n<13. 2 \<le> n \<longrightarrow> bit ci n = bit (c_jump off) n"
  shows "c_jump_imm20 ci = enc_j (scast off) 0 0"
proof -
  have bits: "bit ci 2 = bit off 4" "bit ci 3 = bit off 0" "bit ci 4 = bit off 1"
    "bit ci 5 = bit off 2" "bit ci 6 = bit off 6" "bit ci 7 = bit off 5" "bit ci 8 = bit off 9"
    "bit ci 9 = bit off 7" "bit ci 10 = bit off 8" "bit ci 11 = bit off 3" "bit ci 12 = bit off 10"
    using assms by (simp_all add: c_jump_def bitwise)
  show ?thesis
    unfolding c_jump_imm20_def Let_def c_jump_test
    by (rule u32_eqI; cases "bit off 10") (simp_all add: bits enc_j_def bitwise)
qed

lemma enc_j_split: "enc_j off 0 0 OR (push_bit 7 (ucast r) OR ucast op) = enc_j off r op"
  by (rule u32_eqI) (auto simp: enc_j_def bitwise)

lemma expand_jump_forms:
  "expand_compressed (rvc_encode (C_JAL off)) = assemble (rvc_expand (C_JAL off))"
  "expand_compressed (rvc_encode (C_J off)) = assemble (rvc_expand (C_J off))"
proof -
  have jal: "c_jump_imm20 (ucast (rvc_encode (C_JAL off))) = enc_j (scast off) 0 0"
    and j: "c_jump_imm20 (ucast (rvc_encode (C_J off))) = enc_j (scast off) 0 0"
    by (rule c_jump_imm20_eq, simp add: bitwise)+
  have "ucast (rvc_encode (C_JAL off)) AND 3 = (1 :: u32)"
    "drop_bit 13 (ucast (rvc_encode (C_JAL off))) AND 7 = (1 :: u32)"
    by (simp_all add: bitwise c_jump_def)
  then show "expand_compressed (rvc_encode (C_JAL off)) = assemble (rvc_expand (C_JAL off))"
    using enc_j_split [of "scast off" 1 "0b1101111"]
    by (simp add: expand_compressed_def expand_q1_def jal del: rvc_encode.simps)
  have "ucast (rvc_encode (C_J off)) AND 3 = (1 :: u32)"
    "drop_bit 13 (ucast (rvc_encode (C_J off))) AND 7 = (5 :: u32)"
    by (simp_all add: bitwise c_jump_def)
  then show "expand_compressed (rvc_encode (C_J off)) = assemble (rvc_expand (C_J off))"
    using enc_j_split [of "scast off" 0 "0b1101111"]
    by (simp add: expand_compressed_def expand_q1_def j del: rvc_encode.simps)
qed

lemma c_branch_test:
  "((drop_bit 4 ci AND 0x100) OR (drop_bit 7 ci AND 0x18) OR (push_bit 1 ci AND 0xC0) OR
    (drop_bit 2 ci AND 0x6) OR (push_bit 3 ci AND 0x20)) AND 0x100 = 0 \<longleftrightarrow> \<not> bit (ci :: u32) 12"
  by (subst and_mask_bit_iff [where n = 8]) (simp_all add: bitwise)

lemma expand_cb_eq:
  assumes "\<forall>n<13. 2 \<le> n \<longrightarrow> bit ci n = bit (c_branch off r) n"
  shows "expand_cb ci (ucast f3) = enc_b (scast off) 0 (xreg r) f3 0b1100011"
proof -
  have bits: "bit ci 2 = bit off 4" "bit ci 3 = bit off 0" "bit ci 4 = bit off 1"
    "bit ci 5 = bit off 5" "bit ci 6 = bit off 6" "bit ci 7 = bit r 0" "bit ci 8 = bit r 1"
    "bit ci 9 = bit r 2" "bit ci 10 = bit off 2" "bit ci 11 = bit off 3" "bit ci 12 = bit off 7"
    using assms by (simp_all add: c_branch_def bitwise)
  show ?thesis
    unfolding expand_cb_def Let_def c_branch_test creg_mask
    by (rule u32_eqI; cases "bit off 7") (simp_all add: bits enc_b_def xreg_def bitwise)
qed

lemma expand_branch_forms:
  "expand_compressed (rvc_encode (C_BEQZ off r)) = assemble (rvc_expand (C_BEQZ off r))"
  "expand_compressed (rvc_encode (C_BNEZ off r)) = assemble (rvc_expand (C_BNEZ off r))"
proof -
  have beqz: "expand_cb (ucast (rvc_encode (C_BEQZ off r))) (ucast (0 :: 3 word)) =
      enc_b (scast off) 0 (xreg r) 0 0b1100011"
    and bnez: "expand_cb (ucast (rvc_encode (C_BNEZ off r))) (ucast (1 :: 3 word)) =
      enc_b (scast off) 0 (xreg r) 1 0b1100011"
    by (rule expand_cb_eq, simp add: bitwise)+
  have "ucast (rvc_encode (C_BEQZ off r)) AND 3 = (1 :: u32)"
    "drop_bit 13 (ucast (rvc_encode (C_BEQZ off r))) AND 7 = (6 :: u32)"
    by (simp_all add: bitwise c_branch_def)
  then show "expand_compressed (rvc_encode (C_BEQZ off r)) = assemble (rvc_expand (C_BEQZ off r))"
    using beqz by (simp add: expand_compressed_def expand_q1_def del: rvc_encode.simps)
  have "ucast (rvc_encode (C_BNEZ off r)) AND 3 = (1 :: u32)"
    "drop_bit 13 (ucast (rvc_encode (C_BNEZ off r))) AND 7 = (7 :: u32)"
    by (simp_all add: bitwise c_branch_def)
  then show "expand_compressed (rvc_encode (C_BNEZ off r)) = assemble (rvc_expand (C_BNEZ off r))"
    using bnez by (simp add: expand_compressed_def expand_q1_def del: rvc_encode.simps)
qed

text \<open>The forms whose meaning depends on a field being non-zero.\<close>

lemma parcel_reg:
  assumes "\<forall>n<12. 7 \<le> n \<longrightarrow> bit ci n = bit r (n - 7)"
  shows "drop_bit 7 ci AND 0x1F = (ucast (r :: 5 word) :: u32)"
  using assms by (intro u32_eqI) (simp add: bitwise)

lemma parcel_reg2:
  assumes "\<forall>n<7. 2 \<le> n \<longrightarrow> bit ci n = bit r (n - 2)"
  shows "drop_bit 2 ci AND 0x1F = (ucast (r :: 5 word) :: u32)"
  using assms by (intro u32_eqI) (simp add: bitwise)

lemma ucast_5_eq_iff [simp]:
  "(ucast (r :: 5 word) :: u32) = 0 \<longleftrightarrow> r = 0"
  "(ucast r :: u32) = 2 \<longleftrightarrow> r = 2"
  by (transfer, simp)+

lemma push_ucast_eq_0_iff:
  assumes "LENGTH('a) + k \<le> 32"
  shows "push_bit k (ucast (w :: 'a::len word) :: u32) = 0 \<longleftrightarrow> w = 0"
proof
  assume *: "push_bit k (ucast w :: u32) = 0"
  show "w = 0"
  proof (rule bit_word_eqI)
    fix n assume "n < LENGTH('a)"
    moreover have "\<not> bit (push_bit k (ucast w :: u32)) (n + k)" using * by simp
    ultimately show "bit w n = bit 0 n" using assms by (simp add: bit_simps)
  qed
qed simp

lemma push_scast_eq_0_iff:
  assumes "LENGTH('a) + k \<le> 32"
  shows "push_bit k (scast (w :: 'a::len word) :: u32) = 0 \<longleftrightarrow> w = 0"
proof
  assume *: "push_bit k (scast w :: u32) = 0"
  show "w = 0"
  proof (rule bit_word_eqI)
    fix n assume "n < LENGTH('a)"
    moreover have "\<not> bit (push_bit k (scast w :: u32)) (n + k)" using * by simp
    ultimately show "bit w n = bit 0 n" using assms by (simp add: bit_simps min_absorb2)
  qed
qed simp

lemma scast_6_eq_0_iff: "(scast (w :: 6 word) :: u32) = 0 \<longleftrightarrow> w = 0"
  using push_scast_eq_0_iff [of 0 w] by simp

lemma expand_C_ADDI4SPN:
  assumes "u \<noteq> 0"
  shows "expand_compressed (rvc_encode (C_ADDI4SPN u r)) = assemble (rvc_expand (C_ADDI4SPN u r))"
proof -
  let ?ci = "ucast (rvc_encode (C_ADDI4SPN u r)) :: u32"
  have imm: "(drop_bit 1 ?ci AND 0x3C0) OR (drop_bit 7 ?ci AND 0x30) OR
      (drop_bit 2 ?ci AND 0x8) OR (drop_bit 4 ?ci AND 0x4) = push_bit 2 (ucast u)"
    by (rule u32_eqI) (simp add: bitwise)
  have "?ci AND 3 = 0" "drop_bit 13 ?ci AND 7 = 0"
    by (simp_all add: bitwise)
  then have "expand_compressed (rvc_encode (C_ADDI4SPN u r)) =
      push_bit 20 (push_bit 2 (ucast u)) OR push_bit 15 2 OR push_bit 12 0 OR
      push_bit 7 (creg (drop_bit 2 ?ci AND 7)) OR 0b0010011"
    using assms unfolding expand_compressed_def expand_q0_def Let_def imm
    by (simp add: push_ucast_eq_0_iff del: push_bit_push_bit)
  also have "\<dots> = assemble (rvc_expand (C_ADDI4SPN u r))"
    unfolding creg_mask by (rule u32_eqI) (simp add: enc_i_def xreg_def bitwise)
  finally show ?thesis .
qed

lemma expand_C_ADDI16SP:
  assumes "n \<noteq> 0"
  shows "expand_compressed (rvc_encode (C_ADDI16SP n)) = assemble (rvc_expand (C_ADDI16SP n))"
proof -
  let ?ci = "ucast (rvc_encode (C_ADDI16SP n)) :: u32"
  let ?nz = "(drop_bit 3 ?ci AND 0x200) OR (drop_bit 2 ?ci AND 0x10) OR (push_bit 1 ?ci AND 0x40) OR
      (push_bit 4 ?ci AND 0x180) OR (push_bit 3 ?ci AND 0x20)"
  have test: "?nz AND 0x200 = 0 \<longleftrightarrow> \<not> bit n 5"
    by (subst and_mask_bit_iff [where n = 9]) (simp_all add: bitwise)
  have imm: "(if ?nz AND 0x200 \<noteq> 0 then ?nz OR NOT 0x3FF else ?nz) = push_bit 4 (scast n)"
    unfolding test by (rule u32_eqI; cases "bit n 5") (simp_all add: bitwise)
  have reg: "drop_bit 7 ?ci AND 0x1F = 2"
    by (rule u32_eqI) (simp add: bitwise)
  have "?ci AND 3 = 1" "drop_bit 13 ?ci AND 7 = 3"
    by (simp_all add: bitwise)
  then have "expand_compressed (rvc_encode (C_ADDI16SP n)) =
      push_bit 20 (push_bit 4 (scast n)) OR push_bit 15 2 OR push_bit 12 0 OR push_bit 7 2 OR 0b0010011"
    using assms unfolding expand_compressed_def expand_q1_def expand_c_lui_def Let_def imm reg
    by (simp add: push_scast_eq_0_iff del: push_bit_push_bit)
  also have "\<dots> = assemble (rvc_expand (C_ADDI16SP n))"
    by (rule u32_eqI) (simp add: enc_i_def bitwise)
  finally show ?thesis .
qed

lemma expand_C_LUI:
  assumes "imm \<noteq> 0" "r \<noteq> 2"
  shows "expand_compressed (rvc_encode (C_LUI imm r)) = assemble (rvc_expand (C_LUI imm r))"
proof -
  let ?ci = "ucast (rvc_encode (C_LUI imm r)) :: u32"
  have imm: "c_imm6 ?ci = scast imm"
    unfolding c_imm6_eq by (rule u32_eqI) (simp add: c_imm_reg_def bitwise)
  have reg: "drop_bit 7 ?ci AND 0x1F = ucast r"
    by (rule parcel_reg) (simp add: c_imm_reg_def bitwise)
  have "?ci AND 3 = 1" "drop_bit 13 ?ci AND 7 = 3"
    by (simp_all add: c_imm_reg_def bitwise)
  then have "expand_compressed (rvc_encode (C_LUI imm r)) =
      push_bit 12 (scast imm) OR push_bit 7 (ucast r) OR 0b0110111"
    using assms unfolding expand_compressed_def expand_q1_def expand_c_lui_def Let_def imm reg
    by (simp add: scast_6_eq_0_iff)
  also have "\<dots> = assemble (rvc_expand (C_LUI imm r))"
    by (rule u32_eqI) (simp add: enc_u_def bitwise)
  finally show ?thesis .
qed

lemma expand_C_LWSP:
  assumes "r \<noteq> 0"
  shows "expand_compressed (rvc_encode (C_LWSP u r)) = assemble (rvc_expand (C_LWSP u r))"
proof -
  let ?ci = "ucast (rvc_encode (C_LWSP u r)) :: u32"
  have imm: "(drop_bit 7 ?ci AND 0x20) OR (drop_bit 2 ?ci AND 0x1C) OR (push_bit 4 ?ci AND 0xC0) =
      push_bit 2 (ucast u)"
    by (rule u32_eqI) (simp add: bitwise)
  have reg: "drop_bit 7 ?ci AND 0x1F = ucast r"
    by (rule parcel_reg) (simp add: bitwise)
  have "?ci AND 3 = 2" "drop_bit 13 ?ci AND 7 = 2"
    by (simp_all add: bitwise)
  then have "expand_compressed (rvc_encode (C_LWSP u r)) =
      push_bit 20 (push_bit 2 (ucast u)) OR push_bit 15 2 OR push_bit 12 0b010 OR push_bit 7 (ucast r) OR 0b0000011"
    using assms unfolding expand_compressed_def expand_q2_def Let_def imm reg
    by (simp del: push_bit_push_bit)
  also have "\<dots> = assemble (rvc_expand (C_LWSP u r))"
    by (rule u32_eqI) (simp add: enc_i_def bitwise)
  finally show ?thesis .
qed

lemma expand_c_cr:
  "expand_compressed (c_cr hi r r2) =
    (if r2 = 0 then
       (if hi then (if r = 0 then 0x100073 else enc_i 0 r 0 1 0b1100111)
        else (if r = 0 then 0 else enc_i 0 r 0 0 0b1100111))
     else enc_r 0 r2 (if hi then r else 0) 0 r 0b0110011)"
proof -
  let ?ci = "ucast (c_cr hi r r2) :: u32"
  have sel: "?ci AND 3 = 2" "drop_bit 13 ?ci AND 7 = 4" "drop_bit 12 ?ci AND 1 \<noteq> 0 \<longleftrightarrow> hi"
    by (cases hi; simp add: c_cr_def bitwise)+
  have reg: "drop_bit 7 ?ci AND 0x1F = ucast r"
    by (rule parcel_reg) (cases hi; simp add: c_cr_def bitwise)
  have reg2: "drop_bit 2 ?ci AND 0x1F = ucast r2"
    by (rule parcel_reg2) (cases hi; simp add: c_cr_def bitwise)
  have jr: "push_bit 15 (ucast r) OR push_bit 7 (ucast k) OR 0x67 = enc_i 0 r 0 k 0x67" for k
    by (rule u32_eqI) (simp add: enc_i_def bitwise)
  have mv: "push_bit 20 (ucast r2) OR push_bit 15 (ucast k) OR push_bit 7 (ucast r) OR 0x33 =
      enc_r 0 r2 k 0 r 0x33" for k
    by (rule u32_eqI) (simp add: enc_r_def bitwise)
  show ?thesis
    unfolding expand_compressed_def expand_q2_def Let_def reg reg2 sel
    using jr [of 0] jr [of 1] mv [of 0] mv [of r]
    by (cases hi) simp_all
qed

lemma ebreak_word: "(0x100073 :: u32) = enc_i 1 0 0 0 0b1110011"
  by (simp add: enc_i_def)

theorem expand_compressed_rvc:
  assumes "rvc_legal c"
  shows "expand_compressed (rvc_encode c) = assemble (rvc_expand c)"
  using assms
  by (cases c)
    (auto simp only: rvc_legal.simps rvc_encode.simps(21-25) rvc_expand.simps assemble.simps
        expand_C_ADDI4SPN expand_C_ADDI16SP expand_C_LUI expand_C_LWSP expand_jump_forms
        expand_branch_forms expand_reg_forms expand_alu_forms expand_c_cr ebreak_word
        r_code.simps priv_code.simps fst_conv snd_conv if_True if_False refl simp_thms)

end
