(* ===== verification/Decode_Correct.thy ===== *)
theory Decode_Correct
  imports RVC_Spec
begin

text \<open>
  The decoder as a whole: \<open>decode\<close> against the reference assembly of \<open>Decode_Spec\<close> and
  \<open>RVC_Spec\<close>. Every assembled instruction, compressed or not, is decoded to its own type
  and operands; register numbers are always below 32, so that the executor's accesses to the
  register file stay in bounds.
\<close>

unbundle bit_operations_syntax

section \<open>Completeness: assembled instructions\<close>

lemma and_3_opcode: "instr AND 3 = opcode instr AND 3"
  unfolding u32_eq_bits by (simp add: opcode_def bitwise)

lemma assemble_low_bits: "assemble a AND 3 = 3"
proof -
  have "opcode (assemble a) AND 3 = 3"
  proof (cases a)
    case (ASM_U p imm r)
    then show ?thesis by (cases p) simp_all
  qed simp_all
  then show ?thesis by (simp add: and_3_opcode [of "assemble a"])
qed

lemma rvc_encode_low_bits: "(ucast (rvc_encode c) :: u32) AND 3 \<noteq> 3"
  by (cases c) (simp_all add: rvc_parts c_cr_def bitwise)

lemma decode_assemble_eq: "decode (assemble a) = (asm_decoded a)\<lparr>d_raw := assemble a\<rparr>"
  by (simp add: decode_def assemble_low_bits decode32_assemble)

text \<open>
  C1. Every RV32IMA instruction, encoded by the reference assembler, is decoded to its own
  instruction type with exactly its operands (immediates sign-extended, branch and jump
  offsets doubled), as an uncompressed instruction.
\<close>

theorem decode_assemble: "decode (assemble a) = (asm_decoded a)\<lparr>d_raw := assemble a\<rparr>"
  by (rule decode_assemble_eq)

lemma assemble_nonzero: "assemble a \<noteq> 0"
  using assemble_low_bits [of a] by auto

lemma decode_rvc_eq:
  assumes "rvc_legal c"
  shows "decode (ucast (rvc_encode c) OR push_bit 16 (ucast (h :: u16))) =
    (asm_decoded (rvc_expand c))\<lparr>d_raw := ucast (rvc_encode c), d_compressed := True\<rparr>"
proof -
  let ?w = "ucast (rvc_encode c) OR push_bit 16 (ucast h) :: u32"
  have low: "?w AND 3 = ucast (rvc_encode c) AND 3"
    by (rule u32_eqI) (simp add: bitwise)
  have raw: "?w AND 0xFFFF = ucast (rvc_encode c)"
    by (rule u32_eqI) (simp add: bitwise)
  have id: "ucast (ucast x :: u32) = x" for x :: u16
    by (rule bit_word_eqI) (simp add: bit_simps)
  show ?thesis
    using rvc_encode_low_bits [of c] assms
    by (simp add: decode_def Let_def low raw id expand_compressed_rvc assemble_nonzero decode32_assemble)
qed

text \<open>
  C2. Every legal RVC instruction is decoded, whatever the next 16-bit parcel after it, to the
  base instruction that the RISC-V specification expands it to, marked as compressed and with
  its own 16 bits as the raw word.
\<close>

theorem decode_rvc:
  assumes "rvc_legal c"
  shows "decode (ucast (rvc_encode c) OR push_bit 16 (ucast (h :: u16))) =
    (asm_decoded (rvc_expand c))\<lparr>d_raw := ucast (rvc_encode c), d_compressed := True\<rparr>"
  using assms by (rule decode_rvc_eq)

theorem decode_rvc_witness:
  "decode (ucast (rvc_encode (C_LW 3 1 2)) OR push_bit 16 (ucast (0x1234 :: u16))) =
    (asm_decoded (ASM_L L_LW 12 9 10))\<lparr>d_raw := ucast (rvc_encode (C_LW 3 1 2)), d_compressed := True\<rparr>"
  using decode_rvc [of "C_LW 3 1 2" "0x1234"] by (simp add: xreg_def)

section \<open>Bounds on the decoded fields\<close>

lemma decode32_reg_bounds:
  "d_rd (decode32 i) < 32 \<and> d_rs1 (decode32 i) < 32 \<and> d_rs2 (decode32 i) < 32"
  by (simp add: decode32_def Let_def DecodedInstr_init_def decode_branch_def decode_load_def
      decode_store_def decode_op_imm_def decode_op_reg_def decode_amo_def decode_system_def)

lemma decode_reg_fields:
  "d_rd (decode i) < 32 \<and> d_rs1 (decode i) < 32 \<and> d_rs2 (decode i) < 32"
  using decode32_reg_bounds by (simp add: decode_def Let_def DecodedInstr_init_def)

text \<open>
  The register numbers of every decoded word are below 32, so the executor never indexes
  the 32-entry register file out of bounds.
\<close>

theorem decode_reg_bounds:
  "d_rd (decode i) < 32 \<and> d_rs1 (decode i) < 32 \<and> d_rs2 (decode i) < 32"
  by (rule decode_reg_fields)

end
