(* ===== verification/Execute_Spec.thy ===== *)
theory Execute_Spec
  imports Execute_Props Decode_Correct
begin

text \<open>
  The computational instructions (upper immediates, jumps, branches, register and immediate
  arithmetic, multiplication and division) against a reference semantics over the integers,
  from the instruction word to the new state; the precision of exceptions; LR/SC.
\<close>

unbundle bit_operations_syntax

section \<open>Reference semantics\<close>

text \<open>Results as integers, taken modulo \<open>2^32\<close>; \<open>k\<close> is the shift amount.\<close>

definition amount :: "u32 \<Rightarrow> nat" where
  "amount b = unat b mod 32"

primrec r_sem :: "op_r \<Rightarrow> u32 \<Rightarrow> u32 \<Rightarrow> u32" where
  "r_sem R_ADD a b = word_of_int (sint a + sint b)"
| "r_sem R_SUB a b = word_of_int (sint a - sint b)"
| "r_sem R_SLL a b = word_of_int (uint a * 2 ^ amount b)"
| "r_sem R_SLT a b = (if sint a < sint b then 1 else 0)"
| "r_sem R_SLTU a b = (if uint a < uint b then 1 else 0)"
| "r_sem R_XOR a b = word_of_int (uint a XOR uint b)"
| "r_sem R_SRL a b = word_of_int (uint a div 2 ^ amount b)"
| "r_sem R_SRA a b = word_of_int (sint a div 2 ^ amount b)"
| "r_sem R_OR a b = word_of_int (uint a OR uint b)"
| "r_sem R_AND a b = word_of_int (uint a AND uint b)"

primrec m_sem :: "op_m \<Rightarrow> u32 \<Rightarrow> u32 \<Rightarrow> u32" where
  "m_sem M_MUL a b = word_of_int (sint a * sint b)"
| "m_sem M_MULH a b = word_of_int (sint a * sint b div 2 ^ 32)"
| "m_sem M_MULHSU a b = word_of_int (sint a * uint b div 2 ^ 32)"
| "m_sem M_MULHU a b = word_of_int (uint a * uint b div 2 ^ 32)"
| "m_sem M_DIV a b = (if b = 0 then - 1 else word_of_int (sint a sdiv sint b))"
| "m_sem M_DIVU a b = (if b = 0 then - 1 else word_of_int (uint a div uint b))"
| "m_sem M_REM a b = (if b = 0 then a else word_of_int (sint a smod sint b))"
| "m_sem M_REMU a b = (if b = 0 then a else word_of_int (uint a mod uint b))"

text \<open>An immediate operation is the register operation on its sign-extended immediate.\<close>

primrec i_op :: "op_i \<Rightarrow> op_r" where
  "i_op II_ADDI = R_ADD" | "i_op II_SLTI = R_SLT" | "i_op II_SLTIU = R_SLTU"
| "i_op II_XORI = R_XOR" | "i_op II_ORI = R_OR" | "i_op II_ANDI = R_AND"

primrec sh_op :: "op_sh \<Rightarrow> op_r" where
  "sh_op SH_SLLI = R_SLL" | "sh_op SH_SRLI = R_SRL" | "sh_op SH_SRAI = R_SRA"

primrec b_sem :: "op_b \<Rightarrow> u32 \<Rightarrow> u32 \<Rightarrow> bool" where
  "b_sem B_BEQ a b = (uint a = uint b)"
| "b_sem B_BNE a b = (uint a \<noteq> uint b)"
| "b_sem B_BLT a b = (sint a < sint b)"
| "b_sem B_BGE a b = (sint a \<ge> sint b)"
| "b_sem B_BLTU a b = (uint a < uint b)"
| "b_sem B_BGEU a b = (uint a \<ge> uint b)"

text \<open>
  The state after a computational instruction of \<open>n\<close> bytes; \<open>None\<close> for the instructions that
  access memory, CSRs or privilege.
\<close>

definition x_of :: "CPUState \<Rightarrow> 5 word \<Rightarrow> u32" where
  "x_of s r = (if r = 0 then 0 else regs s ! unat r)"

definition write_x :: "5 word \<Rightarrow> u32 \<Rightarrow> u32 \<Rightarrow> CPUState \<Rightarrow> CPUState" where
  "write_x r v npc s = s\<lparr>regs := (if r = 0 then regs s else (regs s)[unat r := v]), next_pc := npc\<rparr>"

fun asm_step :: "asm \<Rightarrow> u32 \<Rightarrow> CPUState \<Rightarrow> CPUState option" where
  "asm_step (ASM_U U_LUI imm r) n s = Some (write_x r (word_of_int (uint imm * 2 ^ 12)) (pc s + n) s)"
| "asm_step (ASM_U U_AUIPC imm r) n s =
     Some (write_x r (pc s + word_of_int (uint imm * 2 ^ 12)) (pc s + n) s)"
| "asm_step (ASM_JAL off r) n s = Some (write_x r (pc s + n) (pc s + word_of_int (2 * sint off)) s)"
| "asm_step (ASM_JALR imm r1 r) n s =
     Some (write_x r (pc s + n) (2 * ((x_of s r1 + word_of_int (sint imm)) div 2)) s)"
| "asm_step (ASM_B p off r2 r1) n s =
     Some (s\<lparr>next_pc := pc s + (if b_sem p (x_of s r1) (x_of s r2) then word_of_int (2 * sint off) else n)\<rparr>)"
| "asm_step (ASM_I p imm r1 r) n s =
     Some (write_x r (r_sem (i_op p) (x_of s r1) (word_of_int (sint imm))) (pc s + n) s)"
| "asm_step (ASM_SH p sh r1 r) n s =
     Some (write_x r (r_sem (sh_op p) (x_of s r1) (word_of_int (uint sh))) (pc s + n) s)"
| "asm_step (ASM_R p r2 r1 r) n s = Some (write_x r (r_sem p (x_of s r1) (x_of s r2)) (pc s + n) s)"
| "asm_step (ASM_M p r2 r1 r) n s = Some (write_x r (m_sem p (x_of s r1) (x_of s r2)) (pc s + n) s)"
| "asm_step _ n s = None"

section \<open>The executor's arithmetic\<close>

lemma unat_ucast_5 [simp]: "unat (ucast r :: u32) = unat r" for r :: "5 word"
  using unsigned_less [of r, where ?'a = nat] by (simp add: unsigned_ucast_eq take_bit_nat_eq_self)

lemma ucast_5_eq_0 [simp]: "(ucast r :: u32) = 0 \<longleftrightarrow> r = 0" for r :: "5 word"
  by (metis unat_eq_zero unat_ucast_5)

lemma get_reg_ucast [simp]: "get_reg s (ucast r) = x_of s r" for r :: "5 word"
  by (simp add: get_reg_def x_of_def)

lemma set_reg_ucast:
  "set_reg (ucast r) v (s\<lparr>next_pc := t\<rparr>) = write_x r v t s"
  "(write_x r v t s)\<lparr>next_pc := t'\<rparr> = write_x r v t' s" for r :: "5 word"
  by (simp_all add: set_reg_def write_x_def)

lemma shamt_amount: "shamt b = amount b"
proof -
  have "b AND 0x1F = take_bit 5 b" by (simp add: take_bit_eq_mask mask_eq_exp_minus_1)
  then have "shamt b = take_bit 5 (unat b)" by (simp only: shamt_def unsigned_take_bit_eq)
  then show ?thesis by (simp add: amount_def take_bit_eq_mod)
qed

lemma r_sem_words:
  "r_sem R_ADD a b = a + b" "r_sem R_SUB a b = a - b" "r_sem R_SLL a b = push_bit (shamt b) a"
  "r_sem R_SLT a b = bool_w (sint a < sint b)" "r_sem R_SLTU a b = bool_w (a < b)"
  "r_sem R_XOR a b = a XOR b" "r_sem R_SRL a b = drop_bit (shamt b) a"
  "r_sem R_SRA a b = signed_drop_bit (shamt b) a" "r_sem R_OR a b = a OR b" "r_sem R_AND a b = a AND b"
proof -
  show "r_sem R_SRL a b = drop_bit (shamt b) a"
    by (rule bit_word_eqI) (simp add: shamt_amount bit_simps flip: drop_bit_eq_div)
  have "signed_drop_bit k a = word_of_int (drop_bit k (sint a))" for k
    by (simp only: sint_signed_drop_bit_eq [symmetric]) simp
  then show "r_sem R_SRA a b = signed_drop_bit (shamt b) a"
    by (simp add: shamt_amount drop_bit_eq_div)
  show "r_sem R_XOR a b = a XOR b" "r_sem R_OR a b = a OR b" "r_sem R_AND a b = a AND b"
    by (rule bit_word_eqI, simp add: bit_simps)+
qed (simp_all add: shamt_amount bool_w_def word_less_def push_bit_eq_mult of_int_sint of_int_uint)

lemma m_sem_words:
  "m_sem M_MUL a b = mul a b" "m_sem M_MULH a b = mulh a b" "m_sem M_MULHSU a b = mulhsu a b"
  "m_sem M_MULHU a b = mulhu a b" "m_sem M_DIV a b = div_w a b" "m_sem M_DIVU a b = divu a b"
  "m_sem M_REM a b = rem a b" "m_sem M_REMU a b = remu a b"
proof -
  have "- (2 ^ 31) sdiv - 1 = (2 ^ 31 :: int)" "- (2 ^ 31) smod - 1 = (0 :: int)"
    by (simp_all add: signed_divide_int_def smod_int_alt_def)
  then show "m_sem M_DIV a b = div_w a b" "m_sem M_REM a b = rem a b"
    by (auto simp: div_w_def rem_def Let_def sint_eq_0_u32)
  show "m_sem M_DIVU a b = divu a b" "m_sem M_REMU a b = remu a b"
    by (simp_all add: divu_def remu_def word_div_def word_mod_def)
qed (simp_all add: mul_word mulh_word mulhsu_word mulhu_word)

lemma imm_words:
  "word_of_int (sint i) = (scast i :: u32)" "word_of_int (2 * sint i) = (2 * scast i :: u32)"
  "word_of_int (uint i) = (ucast i :: u32)" for i :: "'a::len word"
  by (simp_all add: of_int_sint of_int_uint)

lemma imm_u_word: "push_bit 12 w = w * 4096" for w :: u32
  by (simp add: push_bit_eq_mult)

lemma clear_bit_0: "w AND NOT 1 = 2 * (w div 2)" for w :: u32
  by (rule bit_word_eqI) (auto simp: bit_simps bit_0 bit_Suc gr0_conv_Suc)

lemma uint_comparisons:
  "uint a = uint b \<longleftrightarrow> a = b" "uint a < uint b \<longleftrightarrow> a < b" "uint a \<le> uint b \<longleftrightarrow> a \<le> b" for a b :: u32
  by (simp_all add: word_uint_eq_iff word_less_def word_le_def)

lemma and_minus_2: "w AND - 2 = 2 * (w div 2)" for w :: u32
  using clear_bit_0 [of w] by simp

section \<open>From the instruction word to the new state\<close>

lemmas exec_group_defs = set_rd_def exec_branch_def exec_done_def

lemma execute_computational:
  assumes "asm_step a (instr_len d) s = Some s'"
    and d: "d = (asm_decoded a)\<lparr>d_raw := w, d_compressed := b\<rparr>"
  shows "execute m d s e = (ExecResult_init, s', e)"
proof (cases a)
  case (ASM_U p imm r)
  with assms show ?thesis
    by (cases p) (simp_all add: execute_def Let_def exec_group_defs imm_u_word set_reg_ucast)
next
  case (ASM_JAL off r)
  with assms show ?thesis
    by (simp add: execute_def Let_def exec_group_defs imm_words set_reg_ucast)
next
  case (ASM_JALR imm r1 r)
  with assms show ?thesis
    by (simp add: execute_def Let_def exec_group_defs imm_words set_reg_ucast and_minus_2)
next
  case (ASM_B p off r2 r1)
  with assms show ?thesis
    by (cases p) (auto simp: execute_def Let_def exec_group_defs imm_words uint_comparisons)
next
  case (ASM_I p imm r1 r)
  with assms show ?thesis
    by (cases p) (simp_all add: execute_def Let_def exec_group_defs imm_words set_reg_ucast r_sem_words
        del: r_sem.simps)
next
  case (ASM_SH p sh r1 r)
  with assms show ?thesis
    by (cases p) (simp_all add: execute_def Let_def exec_group_defs imm_words set_reg_ucast r_sem_words
        del: r_sem.simps)
next
  case (ASM_R p r2 r1 r)
  with assms show ?thesis
    by (cases p) (simp_all add: execute_def Let_def exec_group_defs set_reg_ucast r_sem_words
        del: r_sem.simps)
next
  case (ASM_M p r2 r1 r)
  with assms show ?thesis
    by (cases p) (simp_all add: execute_def Let_def exec_group_defs set_reg_ucast m_sem_words
        del: m_sem.simps)
qed (use assms in simp_all)

text \<open>
  C4. End-to-end execution of the computational instructions: for the encoding of any
  upper-immediate, jump, branch, arithmetic, multiply or divide instruction, or for a compressed
  instruction that expands to one, decoding and executing the word yields exactly the state of
  the reference semantics over the integers, with the link and fall-through addresses of a 4-byte
  or 2-byte instruction, no exception, and no effect outside the hart.
\<close>

theorem execute_reference:
  assumes "asm_step a n s = Some s'"
    and "w = assemble a \<and> n = 4 \<or>
      rvc_legal c \<and> a = rvc_expand c \<and> w = ucast (rvc_encode c) OR push_bit 16 (ucast (h :: u16)) \<and> n = 2"
  shows "execute m (decode w) s e = (ExecResult_init, s', e)"
  using assms(2)
proof
  assume *: "w = assemble a \<and> n = 4"
  have "d_compressed (asm_decoded a) = False"
    by (cases a) (simp_all add: DecodedInstr_init_def)
  with * have d: "decode w = (asm_decoded a)\<lparr>d_raw := w, d_compressed := False\<rparr>"
    by (simp add: decode_assemble_eq)
  then have "instr_len (decode w) = n" using * by (simp add: instr_len_def)
  with execute_computational [OF _ d] assms(1) show ?thesis by simp
next
  assume *: "rvc_legal c \<and> a = rvc_expand c \<and> w = ucast (rvc_encode c) OR push_bit 16 (ucast h) \<and> n = 2"
  then have d: "decode w = (asm_decoded a)\<lparr>d_raw := ucast (rvc_encode c), d_compressed := True\<rparr>"
    by (simp add: decode_rvc_eq)
  then have "instr_len (decode w) = n" using * by (simp add: instr_len_def)
  with execute_computational [OF _ d] assms(1) show ?thesis by simp
qed

theorem execute_reference_witness:
  "execute \<lparr>mem_read = (\<lambda>a n s e. (0, s, e)), mem_write = (\<lambda>a v n s e. (s, e)),
     on_satp_write = (\<lambda>s e. (s, e))\<rparr> (decode (assemble (ASM_I II_ADDI 5 0 1))) CPUState_init () =
   (ExecResult_init, CPUState_init\<lparr>regs := (replicate 32 0)[1 := 5], next_pc := 4\<rparr>, ())"
proof -
  have "asm_step (ASM_I II_ADDI 5 0 1) 4 CPUState_init =
      Some (CPUState_init\<lparr>regs := (replicate 32 0)[1 := 5], next_pc := 4\<rparr>)"
    by (simp add: write_x_def x_of_def CPUState_init_def)
  from execute_reference [OF this, of "assemble (ASM_I II_ADDI 5 0 1)"] show ?thesis by simp
qed

section \<open>Exceptions\<close>

definition is_csr_type :: "InstrType \<Rightarrow> bool" where
  "is_csr_type t = (t \<in> {I_CSRRW, I_CSRRS, I_CSRRC, I_CSRRWI, I_CSRRSI, I_CSRRCI})"

text \<open>The part of the hart and its surroundings that an exception must leave as it was.\<close>

definition same_context :: "CPUState \<Rightarrow> 'e \<Rightarrow> CPUState \<Rightarrow> 'e \<Rightarrow> bool" where
  "same_context s e s' e' = (e' = e \<and> pc s' = pc s \<and> csr s' = csr s \<and> priv s' = priv s \<and> lr_sc s' = lr_sc s)"

lemma set_reg_context [simp]:
  "pc (set_reg i v s) = pc s" "csr (set_reg i v s) = csr s" "priv (set_reg i v s) = priv s"
  "lr_sc (set_reg i v s) = lr_sc s" "next_pc (set_reg i v s) = next_pc s"
  by (simp_all add: set_reg_def)

lemma memory_exception:
  "exec_load m n k f d s e = (r, s', e') \<Longrightarrow> exception r \<Longrightarrow> s' = s \<and> e' = e"
  "exec_store m n k v d s e = (r, s', e') \<Longrightarrow> exception r \<Longrightarrow> s' = s \<and> e' = e"
  "exec_lr m d s e = (r, s', e') \<Longrightarrow> exception r \<Longrightarrow> s' = s \<and> e' = e"
  "exec_sc m d s e = (r, s', e') \<Longrightarrow> exception r \<Longrightarrow> s' = s \<and> e' = e"
  "exec_amo m g d s e = (r, s', e') \<Longrightarrow> exception r \<Longrightarrow> s' = s \<and> e' = e"
  by (auto simp: exec_load_def exec_store_def exec_lr_def exec_sc_def exec_amo_def Let_def set_rd_def
      exec_done_def ExecResult_init_def split: if_splits prod.splits)

lemma csr_exception:
  "exec_csrrw m v d s e = (r, s', e') \<Longrightarrow> exception r \<Longrightarrow> same_context s e s' e'"
  "exec_csrrx m g d s e = (r, s', e') \<Longrightarrow> exception r \<Longrightarrow> same_context s e s' e'"
  by (auto simp: exec_csrrw_def exec_csrrx_def Let_def csr_illegal_def exec_done_def
      ExecResult_init_def same_context_def split: if_splits option.splits prod.splits)

lemma same_context_next_pc [simp]: "same_context s e (s\<lparr>next_pc := v\<rparr>) e"
  by (simp add: same_context_def)

lemma execute_exception:
  assumes "execute m d s e = (r, s', e')" and "exception r"
  shows "same_context s e s' e' \<and> (\<not> is_csr_type (d_type d) \<longrightarrow> regs s' = regs s)"
proof -
  let ?s = "s\<lparr>next_pc := pc s + instr_len d\<rparr>"
  have c: "same_context ?s e s' e' \<Longrightarrow> same_context s e s' e'" by (simp add: same_context_def)
  have m: "same_context s e t e' \<and> regs t = regs s" if "t = ?s \<and> e' = e" for t
    using that by (simp add: same_context_def)
  show ?thesis
    using assms
    by (cases "d_type d")
      (auto simp: execute_def Let_def is_csr_type_def set_rd_def exec_branch_def exec_done_def
        csr_illegal_def exec_ecall_def exec_mret_def exec_sret_def exec_sfence_vma_def
        ExecResult_init_def split: if_splits dest: memory_exception csr_exception c m)
qed

text \<open>
  C6. Exceptions raised by \<open>execute\<close> are precise: an instruction that raises one has changed
  neither memory and devices nor the program counter, the CSRs, the privilege or the
  reservation, and no register either unless it is a CSR instruction.
\<close>

theorem execute_exception_precise:
  assumes "execute m d s e = (r, s', e')" and "exception r"
  shows "e' = e \<and> pc s' = pc s \<and> csr s' = csr s \<and> priv s' = priv s \<and> lr_sc s' = lr_sc s \<and>
    (\<not> is_csr_type (d_type d) \<longrightarrow> regs s' = regs s)"
  using execute_exception [OF assms] by (simp add: same_context_def)

theorem execute_exception_precise_witness:
  "\<exists>r s'. execute \<lparr>mem_read = (\<lambda>a n s e. (0, s, e)), mem_write = (\<lambda>a v n s e. (s, e)),
       on_satp_write = (\<lambda>s e. (s, e))\<rparr> (DecodedInstr_init\<lparr>d_type := I_LW, d_rd := 1, d_imm := 2\<rparr>)
       CPUState_init () = (r, s', ()) \<and> exception r \<and> cause r = CAUSE_MISALIGNED_LOAD \<and>
     regs s' = regs CPUState_init"
  (is "\<exists>r s'. ?x = (r, s', ()) \<and> _")
proof -
  let ?r = "make_exception CAUSE_MISALIGNED_LOAD 2" and ?s = "CPUState_init\<lparr>next_pc := 4\<rparr>"
  have x: "?x = (?r, ?s, ())"
    by (simp add: execute_def Let_def exec_load_def get_reg_def instr_len_def DecodedInstr_init_def
        CPUState_init_def)
  have "exception ?r" "cause ?r = CAUSE_MISALIGNED_LOAD" by (simp_all add: make_exception_def)
  with execute_exception_precise [OF x] x show ?thesis
    by (simp add: is_csr_type_def)
qed

section \<open>Reservations\<close>

lemma store_clears_reservation:
  "exec_store m n k v d s e = (r, s', e') \<Longrightarrow> \<not> exception r \<Longrightarrow> \<not> res_valid (lr_sc s')"
  by (auto simp: exec_store_def Let_def exec_done_def make_exception_def reservation_clear_def
      split: if_splits prod.splits)

lemma sc_outcome:
  assumes "exec_sc m d s e = (r, s', e')" and "get_reg s (d_rs1 d) AND 3 = 0"
  shows "\<not> exception r" and "\<not> res_valid (lr_sc s')"
    and "\<not> reservation_check (lr_sc s) (get_reg s (d_rs1 d)) \<Longrightarrow>
      e' = e \<and> s' = (set_reg (d_rd d) 1 s)\<lparr>lr_sc := reservation_clear (lr_sc s)\<rparr>"
    and "reservation_check (lr_sc s) (get_reg s (d_rs1 d)) \<Longrightarrow>
      mem_write m (get_reg s (d_rs1 d)) (get_reg s (d_rs2 d)) 4 s e = (s1, e1) \<Longrightarrow>
      e' = e1 \<and> s' = (set_reg (d_rd d) 0 s1)\<lparr>lr_sc := reservation_clear (lr_sc s1)\<rparr>"
  using assms
  by (auto simp: exec_sc_def Let_def exec_done_def ExecResult_init_def reservation_clear_def
      split: if_splits prod.splits)

context mem_if
begin

lemma callback_frames:
  "mem_read m a n s e = (v, s', e') \<Longrightarrow> next_pc s' = next_pc s \<and> lr_sc s' = lr_sc s \<and> regs s' = regs s"
  "mem_write m a v n s e = (s', e') \<Longrightarrow> next_pc s' = next_pc s \<and> lr_sc s' = lr_sc s \<and> regs s' = regs s"
  "on_satp_write m s e = (s', e') \<Longrightarrow> next_pc s' = next_pc s \<and> lr_sc s' = lr_sc s \<and> regs s' = regs s"
  by (drule read_frame write_frame satp_frame, elim hw_frameE, simp)+

lemma exec_csr_write_frame:
  "exec_csr_write m a v s e = Some (s', e') \<Longrightarrow> next_pc s' = next_pc s \<and> lr_sc s' = lr_sc s \<and> regs s' = regs s"
  using callback_frames(3)
  by (fastforce simp: exec_csr_write_def Let_def split: option.splits if_splits)

lemma group_next_pc:
  "exec_load m n k f d s e = (r, s', e') \<Longrightarrow> next_pc s' = next_pc s"
  "exec_store m n k v d s e = (r, s', e') \<Longrightarrow> next_pc s' = next_pc s"
  "exec_lr m d s e = (r, s', e') \<Longrightarrow> next_pc s' = next_pc s"
  "exec_sc m d s e = (r, s', e') \<Longrightarrow> next_pc s' = next_pc s"
  "exec_amo m g d s e = (r, s', e') \<Longrightarrow> next_pc s' = next_pc s"
  by (auto simp: exec_load_def exec_store_def exec_lr_def exec_sc_def exec_amo_def Let_def set_rd_def
      exec_done_def split: if_splits prod.splits dest!: callback_frames)

lemma csr_group_next_pc:
  "exec_csrrw m v d s e = (r, s', e') \<Longrightarrow> next_pc s' = next_pc s"
  "exec_csrrx m g d s e = (r, s', e') \<Longrightarrow> next_pc s' = next_pc s"
  by (auto simp: exec_csrrw_def exec_csrrx_def Let_def csr_illegal_def exec_done_def
      split: if_splits option.splits prod.splits dest: exec_csr_write_frame)

lemma execute_next_pc_even:
  assumes "execute m d s e = (r, s', e')" and "even (pc s)" and "csr_inv (csr s)"
    and "d_type d \<in> {I_JAL, I_BEQ, I_BNE, I_BLT, I_BGE, I_BLTU, I_BGEU} \<Longrightarrow> even (d_imm d)"
  shows "even (next_pc s')"
proof -
  have l: "even (pc s + instr_len d)" using assms(2) by (simp add: instr_len_def)
  have c: "even (mepc (csr s))" "even (sepc (csr s))"
    using assms(3) by (simp_all add: csr_inv_def bit_0)
  have e2: "even (w AND - 2)" for w :: u32 by (simp add: even_and_iff)
  show ?thesis
    using assms(1,2,4) l c
    by (cases "d_type d")
      (auto simp: execute_def Let_def set_rd_def exec_branch_def exec_done_def
        csr_illegal_def exec_ecall_def exec_mret_def exec_sret_def exec_sfence_vma_def e2
        split: if_splits dest!: group_next_pc csr_group_next_pc)
qed

lemma lr_then_sc:
  assumes "exec_lr m d1 s e = (r1, s1, e1)" and "\<not> exception r1"
    and "lr_sc s2 = lr_sc s1" and "get_reg s2 (d_rs1 d2) = get_reg s (d_rs1 d1)"
    and "exec_sc m d2 s2 e2 = (r2, s3, e3)"
  shows "e3 = snd (mem_write m (get_reg s (d_rs1 d1)) (get_reg s2 (d_rs2 d2)) 4 s2 e2) \<and>
    regs s3 = regs (set_reg (d_rd d2) 0 s2)"
proof -
  let ?a = "get_reg s (d_rs1 d1)"
  from assms(1,2) have al: "?a AND 3 = 0" and rs: "reservation_check (lr_sc s1) ?a"
    by (auto simp: exec_lr_def Let_def exec_done_def make_exception_def reservation_check_set
        split: if_splits prod.splits)
  obtain s4 e4 where w: "mem_write m ?a (get_reg s2 (d_rs2 d2)) 4 s2 e2 = (s4, e4)"
    using prod.exhaust by blast
  have "regs s4 = regs s2" using callback_frames(2) [OF w] by simp
  with sc_outcome(4) [OF assms(5)] al rs w assms(3,4) show ?thesis by (simp add: set_reg_def)
qed

end

end
