(* ===== verification/RVC_Sound.thy ===== *)
theory RVC_Sound
  imports RVC_Spec
begin

text \<open>
  The other direction of \<open>RVC_Spec\<close>: a parcel that the expander and the decoder accept is the
  encoding of a legal RVC instruction. Each form is recovered from the bits of its parcel; the
  parcels that no form covers, and the forms with a field that must not be zero, are rejected.
\<close>

unbundle bit_operations_syntax

section \<open>Parcels from their fields\<close>

text \<open>The word whose bits are those of the parcel at the listed positions.\<close>

definition pick :: "nat list \<Rightarrow> u16 \<Rightarrow> 'a::len word" where
  "pick ns c = horner_sum of_bool 2 (map (bit c) ns)"

lemma bit_pick [bitwise]: "bit (pick ns c :: 'a::len word) n \<longleftrightarrow> n < LENGTH('a) \<and> n < length ns \<and> bit c (ns ! n)"
  by (auto simp: pick_def bit_horner_sum_bit_word_iff)

text \<open>\<open>parcel q f c\<close>: the parcel is in quadrant \<open>q\<close> with funct3 \<open>f\<close>.\<close>

definition parcel :: "u32 \<Rightarrow> u32 \<Rightarrow> u16 \<Rightarrow> bool" where
  "parcel q f c = (ucast c AND 3 = q \<and> drop_bit 13 (ucast c) AND 7 = f)"

lemma encode_q0:
  "parcel 0 0 c \<Longrightarrow> rvc_encode (C_ADDI4SPN (pick [6, 5, 11, 12, 7, 8, 9, 10] c) (pick [2, 3, 4] c)) = c"
  "parcel 0 2 c \<Longrightarrow> rvc_encode (C_LW (pick [6, 10, 11, 12, 5] c) (pick [7, 8, 9] c) (pick [2, 3, 4] c)) = c"
  "parcel 0 6 c \<Longrightarrow> rvc_encode (C_SW (pick [6, 10, 11, 12, 5] c) (pick [7, 8, 9] c) (pick [2, 3, 4] c)) = c"
  by (rule word_bits_eqI, simp add: parcel_def bitwise)+

lemma encode_q1:
  "parcel 1 0 c \<Longrightarrow> rvc_encode (C_ADDI (pick [2, 3, 4, 5, 6, 12] c) (pick [7, 8, 9, 10, 11] c)) = c"
  "parcel 1 1 c \<Longrightarrow> rvc_encode (C_JAL (pick [3, 4, 5, 11, 2, 7, 6, 9, 10, 8, 12] c)) = c"
  "parcel 1 2 c \<Longrightarrow> rvc_encode (C_LI (pick [2, 3, 4, 5, 6, 12] c) (pick [7, 8, 9, 10, 11] c)) = c"
  "parcel 1 3 c \<Longrightarrow> rvc_encode (C_LUI (pick [2, 3, 4, 5, 6, 12] c) (pick [7, 8, 9, 10, 11] c)) = c"
  "parcel 1 5 c \<Longrightarrow> rvc_encode (C_J (pick [3, 4, 5, 11, 2, 7, 6, 9, 10, 8, 12] c)) = c"
  "parcel 1 6 c \<Longrightarrow> rvc_encode (C_BEQZ (pick [3, 4, 10, 11, 2, 5, 6, 12] c) (pick [7, 8, 9] c)) = c"
  "parcel 1 7 c \<Longrightarrow> rvc_encode (C_BNEZ (pick [3, 4, 10, 11, 2, 5, 6, 12] c) (pick [7, 8, 9] c)) = c"
  by (rule word_bits_eqI, simp add: parcel_def rvc_parts bitwise)+

lemma encode_addi16sp:
  "parcel 1 3 c \<Longrightarrow> pick [7, 8, 9, 10, 11] c = (2 :: 5 word) \<Longrightarrow> rvc_encode (C_ADDI16SP (pick [6, 2, 5, 3, 4, 12] c)) = c"
proof -
  assume p: "parcel 1 3 c" and "pick [7, 8, 9, 10, 11] c = (2 :: 5 word)"
  then have "\<forall>n<5. bit (pick [7, 8, 9, 10, 11] c :: 5 word) n = bit (2 :: 5 word) n" by simp
  then have "\<not> bit c 7" "bit c 8" "\<not> bit c 9" "\<not> bit c 10" "\<not> bit c 11" by (simp_all add: bitwise)
  with p show ?thesis by (intro word_bits_eqI) (simp add: parcel_def bitwise)
qed

lemma encode_alu:
  "parcel 1 4 c \<Longrightarrow> \<not> bit c 11 \<Longrightarrow> \<not> bit c 10 \<Longrightarrow> \<not> bit c 12 \<Longrightarrow> rvc_encode (C_SRLI (pick [2, 3, 4, 5, 6] c) (pick [7, 8, 9] c)) = c"
  "parcel 1 4 c \<Longrightarrow> \<not> bit c 11 \<Longrightarrow> bit c 10 \<Longrightarrow> \<not> bit c 12 \<Longrightarrow> rvc_encode (C_SRAI (pick [2, 3, 4, 5, 6] c) (pick [7, 8, 9] c)) = c"
  "parcel 1 4 c \<Longrightarrow> bit c 11 \<Longrightarrow> \<not> bit c 10 \<Longrightarrow> rvc_encode (C_ANDI (pick [2, 3, 4, 5, 6, 12] c) (pick [7, 8, 9] c)) = c"
  "parcel 1 4 c \<Longrightarrow> bit c 11 \<Longrightarrow> bit c 10 \<Longrightarrow> \<not> bit c 12 \<Longrightarrow> \<not> bit c 6 \<Longrightarrow> \<not> bit c 5 \<Longrightarrow>
    rvc_encode (C_SUB (pick [7, 8, 9] c) (pick [2, 3, 4] c)) = c"
  "parcel 1 4 c \<Longrightarrow> bit c 11 \<Longrightarrow> bit c 10 \<Longrightarrow> \<not> bit c 12 \<Longrightarrow> \<not> bit c 6 \<Longrightarrow> bit c 5 \<Longrightarrow>
    rvc_encode (C_XOR (pick [7, 8, 9] c) (pick [2, 3, 4] c)) = c"
  "parcel 1 4 c \<Longrightarrow> bit c 11 \<Longrightarrow> bit c 10 \<Longrightarrow> \<not> bit c 12 \<Longrightarrow> bit c 6 \<Longrightarrow> \<not> bit c 5 \<Longrightarrow>
    rvc_encode (C_OR (pick [7, 8, 9] c) (pick [2, 3, 4] c)) = c"
  "parcel 1 4 c \<Longrightarrow> bit c 11 \<Longrightarrow> bit c 10 \<Longrightarrow> \<not> bit c 12 \<Longrightarrow> bit c 6 \<Longrightarrow> bit c 5 \<Longrightarrow>
    rvc_encode (C_AND (pick [7, 8, 9] c) (pick [2, 3, 4] c)) = c"
  by (rule word_bits_eqI, simp add: parcel_def rvc_parts bitwise)+

lemma encode_q2:
  "parcel 2 0 c \<Longrightarrow> \<not> bit c 12 \<Longrightarrow> rvc_encode (C_SLLI (pick [2, 3, 4, 5, 6] c) (pick [7, 8, 9, 10, 11] c)) = c"
  "parcel 2 2 c \<Longrightarrow> rvc_encode (C_LWSP (pick [4, 5, 6, 12, 2, 3] c) (pick [7, 8, 9, 10, 11] c)) = c"
  "parcel 2 4 c \<Longrightarrow> c_cr (bit c 12) (pick [7, 8, 9, 10, 11] c) (pick [2, 3, 4, 5, 6] c) = c"
  "parcel 2 6 c \<Longrightarrow> rvc_encode (C_SWSP (pick [9, 10, 11, 12, 7, 8] c) (pick [2, 3, 4, 5, 6] c)) = c"
  by (rule word_bits_eqI, simp add: parcel_def c_cr_def bitwise)+

section \<open>Rejected parcels\<close>

text \<open>The forms with an immediate or a register that must not be zero.\<close>

lemma reserved_zero:
  "expand_compressed (rvc_encode (C_ADDI4SPN 0 r)) = 0"
  "expand_compressed (rvc_encode (C_ADDI16SP 0)) = 0"
  "r' \<noteq> 2 \<Longrightarrow> expand_compressed (rvc_encode (C_LUI 0 r')) = 0"
  "expand_compressed (rvc_encode (C_LWSP u 0)) = 0"
proof -
  let ?ci = "\<lambda>c. ucast (rvc_encode c) :: u32"
  have "(drop_bit 1 (?ci (C_ADDI4SPN 0 r)) AND 0x3C0) OR (drop_bit 7 (?ci (C_ADDI4SPN 0 r)) AND 0x30) OR
      (drop_bit 2 (?ci (C_ADDI4SPN 0 r)) AND 0x8) OR (drop_bit 4 (?ci (C_ADDI4SPN 0 r)) AND 0x4) = 0"
    by (rule u32_eqI) (simp add: bitwise)
  moreover have "?ci (C_ADDI4SPN 0 r) AND 3 = 0" "drop_bit 13 (?ci (C_ADDI4SPN 0 r)) AND 7 = 0" by (simp_all add: bitwise)
  ultimately show "expand_compressed (rvc_encode (C_ADDI4SPN 0 r)) = 0"
    by (simp add: expand_compressed_def expand_q0_def Let_def del: rvc_encode.simps)
  show "expand_compressed (rvc_encode (C_ADDI16SP 0)) = 0"
    by (simp add: expand_compressed_def expand_q1_def expand_c_lui_def place_def Let_def)
  have "drop_bit 7 (?ci (C_LWSP u 0)) AND 0x1F = 0" by (rule u32_eqI) (simp add: bitwise)
  moreover have "?ci (C_LWSP u 0) AND 3 = 2" "drop_bit 13 (?ci (C_LWSP u 0)) AND 7 = 2" by (simp_all add: bitwise)
  ultimately show "expand_compressed (rvc_encode (C_LWSP u 0)) = 0"
    by (simp add: expand_compressed_def expand_q2_def Let_def del: rvc_encode.simps)
  assume r: "r' \<noteq> 2"
  have "c_imm6 (?ci (C_LUI 0 r')) = 0"
    unfolding c_imm6_eq by (rule u32_eqI) (simp add: c_imm_reg_def bitwise)
  moreover have "drop_bit 7 (?ci (C_LUI 0 r')) AND 0x1F = ucast r'"
    by (rule parcel_reg) (simp add: c_imm_reg_def bitwise)
  moreover have "?ci (C_LUI 0 r') AND 3 = 1" "drop_bit 13 (?ci (C_LUI 0 r')) AND 7 = 3"
    by (simp_all add: c_imm_reg_def bitwise)
  ultimately show "expand_compressed (rvc_encode (C_LUI 0 r')) = 0"
    using r by (simp add: expand_compressed_def expand_q1_def expand_c_lui_def del: rvc_encode.simps)
qed

lemma reserved_funct3:
  "parcel 0 f c \<Longrightarrow> f \<noteq> 0 \<Longrightarrow> f \<noteq> 2 \<Longrightarrow> f \<noteq> 6 \<Longrightarrow> expand_compressed c = 0"
  "parcel 2 f c \<Longrightarrow> f \<noteq> 0 \<Longrightarrow> f \<noteq> 2 \<Longrightarrow> f \<noteq> 4 \<Longrightarrow> f \<noteq> 6 \<Longrightarrow> expand_compressed c = 0"
  "parcel 1 4 c \<Longrightarrow> bit c 11 \<Longrightarrow> bit c 10 \<Longrightarrow> bit c 12 \<Longrightarrow> expand_compressed c = 0"
  by (simp_all add: parcel_def expand_compressed_def expand_q0_def expand_q1_def expand_q2_def expand_c_alu_def Let_def bitwise)

text \<open>A shift by 32 or more expands to a word with an odd funct7, which is no shift.\<close>

lemma wide_shift_illegal:
  assumes "opcode e = OP_IMM" and "funct3 e = F3_SLL \<or> funct3 e = F3_SRL_SRA" and "bit e 25"
  shows "d_type (decode32 e) = I_ILLEGAL"
proof -
  have "bit (funct7 e) 0" using assms(3) by (simp add: funct7_def bit_simps)
  then have "funct7 e \<noteq> 0" "funct7 e \<noteq> 32" by (auto simp: bit_0)
  with assms(1,2) show ?thesis by (auto simp: decode32_def decode_op_imm_def Let_def)
qed

lemma reserved_shift:
  "parcel 1 4 c \<Longrightarrow> \<not> bit c 11 \<Longrightarrow> bit c 12 \<Longrightarrow> d_type (decode32 (expand_compressed c)) = I_ILLEGAL"
  "parcel 2 0 c \<Longrightarrow> bit c 12 \<Longrightarrow> d_type (decode32 (expand_compressed c)) = I_ILLEGAL"
proof -
  define sh r r' where "sh = (drop_bit 7 (ucast c) AND 0x20) OR (drop_bit 2 (ucast c) AND 0x1F :: u32)"
    and "r = drop_bit 7 (ucast c) AND (0x1F :: u32)" and "r' = drop_bit 7 (ucast c) AND 7 OR (8 :: u32)"
  note defs = sh_def r_def r'_def
  show "d_type (decode32 (expand_compressed c)) = I_ILLEGAL" if p: "parcel 2 0 c" "bit c 12"
  proof (rule wide_shift_illegal)
    have e: "expand_compressed c = push_bit 20 sh OR push_bit 15 r OR push_bit 12 1 OR push_bit 7 r OR 0x13"
      using p by (simp add: defs parcel_def expand_compressed_def expand_q2_def Let_def)
    show "opcode (expand_compressed c) = OP_IMM" unfolding e by (rule u32_eqI) (simp add: defs field_defs bitwise)
    have "funct3 (expand_compressed c) = F3_SLL" unfolding e by (rule u32_eqI) (simp add: defs field_defs bitwise)
    then show "funct3 (expand_compressed c) = F3_SLL \<or> funct3 (expand_compressed c) = F3_SRL_SRA" ..
    show "bit (expand_compressed c) 25" unfolding e using p(2) by (simp add: defs bitwise)
  qed
  show "d_type (decode32 (expand_compressed c)) = I_ILLEGAL" if p: "parcel 1 4 c" "\<not> bit c 11" "bit c 12"
  proof (rule wide_shift_illegal)
    have e: "expand_compressed c = push_bit 25 (if bit c 10 then 0x20 else 0) OR
        push_bit 20 sh OR push_bit 15 r' OR push_bit 12 5 OR push_bit 7 r' OR 0x13"
      using p by (simp add: defs parcel_def expand_compressed_def expand_q1_def expand_c_alu_def creg_mask Let_def bitwise)
    show "opcode (expand_compressed c) = OP_IMM" unfolding e by (rule u32_eqI) (simp add: defs field_defs bitwise)
    have "funct3 (expand_compressed c) = F3_SRL_SRA" unfolding e by (rule u32_eqI) (simp add: defs field_defs bitwise)
    then show "funct3 (expand_compressed c) = F3_SLL \<or> funct3 (expand_compressed c) = F3_SRL_SRA" ..
    show "bit (expand_compressed c) 25" unfolding e using p(3) by (simp add: defs bitwise)
  qed
qed

section \<open>Accepted parcels are encodings\<close>

text \<open>What \<open>decode\<close> accepts of the expansion.\<close>

definition accepted :: "u16 \<Rightarrow> bool" where
  "accepted c = (expand_compressed c \<noteq> 0 \<and> d_type (decode32 (expand_compressed c)) \<noteq> I_ILLEGAL)"

definition is_rvc :: "u16 \<Rightarrow> bool" where
  "is_rvc c = (\<exists>r. rvc_legal r \<and> rvc_encode r = c)"

lemma is_rvcI: "rvc_encode r = c \<Longrightarrow> rvc_legal r \<Longrightarrow> is_rvc c"
  by (auto simp: is_rvc_def)

lemma funct3_values: "w AND 7 \<in> {0, 1, 2, 3, 4, 5, 6, 7}" for w :: u32
  by (cases "bit w 0"; cases "bit w 1"; cases "bit w 2") (simp_all add: bitwise)

lemma accepted_nonzero:
  assumes "accepted c"
  shows "rvc_encode (C_ADDI4SPN u r) = c \<Longrightarrow> u \<noteq> 0" "rvc_encode (C_ADDI16SP n) = c \<Longrightarrow> n \<noteq> 0"
    "rvc_encode (C_LUI imm r') = c \<Longrightarrow> r' \<noteq> 2 \<Longrightarrow> imm \<noteq> 0" "rvc_encode (C_LWSP v r') = c \<Longrightarrow> r' \<noteq> 0"
  using assms reserved_zero unfolding accepted_def by blast+

text \<open>The forms without a condition, recognised by their bits.\<close>

lemmas plain_forms = encode_q0(2,3) [THEN is_rvcI, simplified rvc_legal.simps simp_thms]
  encode_q1(1,2,3,5,6,7) [THEN is_rvcI, simplified rvc_legal.simps simp_thms]
  encode_q2(1,4) [THEN is_rvcI, simplified rvc_legal.simps simp_thms]

lemmas alu_forms = encode_alu [THEN is_rvcI, simplified rvc_legal.simps simp_thms]

lemma accepted_q0:
  assumes "accepted c" and "parcel 0 f c"
  shows "is_rvc c"
proof -
  have "is_rvc c" if "f = 0"
    using accepted_nonzero(1) [OF assms(1) encode_q0(1)] encode_q0(1) assms(2) that
    by (intro is_rvcI [OF encode_q0(1)]) (simp_all del: rvc_encode.simps)
  moreover have "f = 0 \<or> f = 2 \<or> f = 6" using reserved_funct3(1) assms by (auto simp: accepted_def)
  ultimately show ?thesis using assms(2) plain_forms by blast
qed

lemma accepted_q1:
  assumes "accepted c" and "parcel 1 f c"
  shows "is_rvc c"
proof -
  have lui: "is_rvc c" if p: "parcel 1 3 c"
  proof (cases "pick [7, 8, 9, 10, 11] c = (2 :: 5 word)")
    case True
    with accepted_nonzero(2) [OF assms(1) encode_addi16sp [OF p True]] show ?thesis
      by (intro is_rvcI [OF encode_addi16sp [OF p True]]) simp
  next
    case False
    with accepted_nonzero(3) [OF assms(1) encode_q1(4) [OF p] False] show ?thesis
      by (intro is_rvcI [OF encode_q1(4) [OF p]]) simp
  qed
  have alu: "is_rvc c" if "parcel 1 4 c"
  proof -
    have "\<not> (bit c 11 \<and> bit c 10 \<and> bit c 12)" "\<not> (\<not> bit c 11 \<and> bit c 12)"
      using assms(1) reserved_funct3(3) [OF that] reserved_shift(1) [OF that] by (auto simp: accepted_def)
    with alu_forms [OF that] show ?thesis by blast
  qed
  have "f \<in> {0, 1, 2, 3, 4, 5, 6, 7}" using assms(2) funct3_values by (auto simp: parcel_def)
  with assms(2) plain_forms lui alu show ?thesis by blast
qed

lemma accepted_q2:
  assumes "accepted c" and "parcel 2 f c"
  shows "is_rvc c"
proof -
  have cr: "is_rvc c" if "f = 4"
  proof -
    define r r2 :: "5 word" where "r = pick [7, 8, 9, 10, 11] c" and "r2 = pick [2, 3, 4, 5, 6] c"
    have c: "c_cr (bit c 12) r r2 = c" using encode_q2(3) [of c] assms(2) that by (simp add: r_def r2_def)
    have "\<not> (r = 0 \<and> r2 = 0 \<and> \<not> bit c 12)"
    proof
      assume z: "r = 0 \<and> r2 = 0 \<and> \<not> bit c 12"
      with expand_c_cr [of False 0 0] c assms(1) show False by (simp add: accepted_def)
    qed
    then consider "r2 = 0" "r \<noteq> 0" "\<not> bit c 12" | "r2 \<noteq> 0" "\<not> bit c 12" | "r2 = 0" "r = 0" "bit c 12"
      | "r2 = 0" "r \<noteq> 0" "bit c 12" | "r2 \<noteq> 0" "bit c 12" by blast
    then show ?thesis
    proof cases
      case 1 with c show ?thesis by (intro is_rvcI [of "C_JR r"]) simp_all
    next
      case 2 with c show ?thesis by (intro is_rvcI [of "C_MV r r2"]) simp_all
    next
      case 3 with c show ?thesis by (intro is_rvcI [of C_EBREAK]) simp_all
    next
      case 4 with c show ?thesis by (intro is_rvcI [of "C_JALR r"]) simp_all
    next
      case 5 with c show ?thesis by (intro is_rvcI [of "C_ADD r r2"]) simp_all
    qed
  qed
  have lwsp: "is_rvc c" if p: "parcel 2 2 c"
    using accepted_nonzero(4) [OF assms(1) encode_q2(2) [OF p]] by (intro is_rvcI [OF encode_q2(2) [OF p]]) simp
  have "f = 0 \<or> f = 2 \<or> f = 4 \<or> f = 6" "parcel 2 0 c \<Longrightarrow> \<not> bit c 12"
    using reserved_funct3(2) reserved_shift(2) [of c] assms by (auto simp: accepted_def)
  with assms(2) cr lwsp plain_forms show ?thesis by blast
qed

lemma accepted_is_rvc:
  assumes "accepted c" and "ucast c AND 3 \<noteq> (3 :: u32)"
  shows "is_rvc c"
proof -
  have "ucast c AND 3 \<in> {0, 1, 2 :: u32}"
    using assms(2) by (cases "bit c 0"; cases "bit c 1") (simp_all add: bitwise)
  then show ?thesis
    using assms(1) accepted_q0 accepted_q1 accepted_q2 by (auto simp: parcel_def)
qed

end
