(* ===== verification/Decode_Sound.thy ===== *)
theory Decode_Sound
  imports Decode_Correct RVC_Sound
begin

text \<open>
  The words the decoder accepts. A 32-bit word is accepted exactly if it is the encoding of an
  RV32IMA instruction, up to the fields that the decoder does not look at (\<open>ignored\<close>); a 16-bit
  parcel exactly if it is the encoding of a legal RVC instruction.
\<close>

unbundle bit_operations_syntax

section \<open>Encodings up to ignored fields\<close>

text \<open>
  The bits of an encoding that do not matter: funct3 of JALR, rd and rs1 of the privileged
  instructions, rd of SFENCE.VMA, everything but the opcode and funct3 of FENCE.I, and rd, rs1
  and funct3 of FENCE, where funct3 only must not be that of FENCE.I. The specification reserves
  the other values of these fields of JALR, FENCE (funct3), the privileged instructions and
  SFENCE.VMA.
\<close>

fun ignored :: "asm \<Rightarrow> u32" where
  "ignored (ASM_JALR imm r1 r) = 0x00007000"
| "ignored (ASM_PRIV p) = 0x000F8F80"
| "ignored (ASM_SFENCE_VMA r2 r1) = 0x00000F80"
| "ignored (ASM_FENCE ops) = 0x000FFF80"
| "ignored ASM_FENCEI = 0xFFFF8F80"
| "ignored a = 0"

definition encodes :: "asm \<Rightarrow> u32 \<Rightarrow> bool" where
  "encodes a i = (i AND NOT (ignored a) = assemble a AND NOT (ignored a) \<and>
     (case a of ASM_FENCE ops \<Rightarrow> funct3 i \<noteq> 1 | _ \<Rightarrow> True))"

lemma encodes_assemble: "assemble a = i \<Longrightarrow> encodes a i"
  by (auto simp: encodes_def split: asm.splits)

section \<open>Accepted words are decoded to what they encode\<close>

text \<open>The fields that survive a mask.\<close>

lemma masked_fields:
  "opcode (i AND NOT 0x7000) = opcode i" "rd (i AND NOT 0x7000) = rd i"
  "rs1 (i AND NOT 0x7000) = rs1 i" "imm_i (i AND NOT 0x7000) = imm_i i"
  "opcode (i AND NOT 0xF8F80) = opcode i" "funct3 (i AND NOT 0xF8F80) = funct3 i"
  "funct12 (i AND NOT 0xF8F80) = funct12 i" "funct7 (i AND NOT 0xF8F80) = funct7 i"
  "opcode (i AND NOT 0xF80) = opcode i" "funct3 (i AND NOT 0xF80) = funct3 i" "funct7 (i AND NOT 0xF80) = funct7 i"
  "rs1 (i AND NOT 0xF80) = rs1 i" "rs2 (i AND NOT 0xF80) = rs2 i"
  "opcode (i AND NOT 0xFFF80) = opcode i"
  "opcode (i AND NOT 0xFFFF8F80) = opcode i" "funct3 (i AND NOT 0xFFFF8F80) = funct3 i"
  by (rule u32_eqI, simp add: field_defs imm_defs bitwise)+

lemma decode32_encoded:
  assumes "encodes a i"
  shows "decode32 i = (asm_decoded a)\<lparr>d_raw := i\<rparr>"
proof -
  have m: "i AND NOT (ignored a) = assemble a AND NOT (ignored a)" using assms by (simp add: encodes_def)
  have f: "f i = f (assemble a)" if "\<And>w. f (w AND NOT (ignored a)) = f w" for f :: "u32 \<Rightarrow> u32"
    using that [of i] that [of "assemble a"] by (simp add: m)
  show ?thesis
  proof (cases a)
    case (ASM_JALR imm r1 r)
    note g = f [unfolded ASM_JALR ignored.simps]
    from g [where f = opcode, OF masked_fields(1)] g [where f = rd, OF masked_fields(2)]
      g [where f = rs1, OF masked_fields(3)] g [where f = imm_i, OF masked_fields(4)] show ?thesis
      by (simp add: ASM_JALR decode32_def)
  next
    case (ASM_PRIV p)
    note g = f [unfolded ASM_PRIV ignored.simps]
    from g [where f = opcode, OF masked_fields(5)] g [where f = funct3, OF masked_fields(6)]
      g [where f = funct12, OF masked_fields(7)] g [where f = funct7, OF masked_fields(8)] show ?thesis
      by (cases p) (simp_all add: ASM_PRIV decode32_def decode_system_def)
  next
    case (ASM_SFENCE_VMA r2 r1)
    note g = f [unfolded ASM_SFENCE_VMA ignored.simps]
    from g [where f = opcode, OF masked_fields(9)] g [where f = funct3, OF masked_fields(10)]
      g [where f = funct7, OF masked_fields(11)] g [where f = rs1, OF masked_fields(12)]
      g [where f = rs2, OF masked_fields(13)] show ?thesis
      by (simp add: ASM_SFENCE_VMA decode32_def decode_system_def)
  next
    case (ASM_FENCE ops)
    from f [unfolded ASM_FENCE ignored.simps, where f = opcode, OF masked_fields(14)] assms show ?thesis
      by (simp add: ASM_FENCE decode32_def encodes_def)
  next
    case ASM_FENCEI
    note g = f [unfolded ASM_FENCEI ignored.simps]
    from g [where f = opcode, OF masked_fields(15)] g [where f = funct3, OF masked_fields(16)] show ?thesis by (simp add: ASM_FENCEI decode32_def)
  qed (use m decode32_assemble [of a] in simp_all)
qed

section \<open>Accepted words are encodings\<close>

text \<open>A word is its fields, put together again in the format of its opcode.\<close>

lemma reassemble:
  "opcode i = ucast op \<Longrightarrow> enc_u (ucast (drop_bit 12 (imm_u i))) (ucast (rd i)) op = i"
  "opcode i = ucast op \<Longrightarrow> enc_j (ucast (drop_bit 1 (imm_j i))) (ucast (rd i)) op = i"
  "opcode i = ucast op \<Longrightarrow> enc_i (ucast (imm_i i)) (ucast (rs1 i)) (ucast (funct3 i)) (ucast (rd i)) op = i"
  "opcode i = ucast op \<Longrightarrow>
    enc_b (ucast (drop_bit 1 (imm_b i))) (ucast (rs2 i)) (ucast (rs1 i)) (ucast (funct3 i)) op = i"
  "opcode i = ucast op \<Longrightarrow> enc_s (ucast (imm_s i)) (ucast (rs2 i)) (ucast (rs1 i)) (ucast (funct3 i)) op = i"
  "opcode i = ucast op \<Longrightarrow>
    enc_r (ucast (funct7 i)) (ucast (rs2 i)) (ucast (rs1 i)) (ucast (funct3 i)) (ucast (rd i)) op = i"
proof -
  have op: "op = ucast (opcode i)" if "opcode i = ucast op" for op :: "7 word"
    using that by (simp add: bit_eq_iff bit_simps)
  show "opcode i = ucast op \<Longrightarrow> enc_u (ucast (drop_bit 12 (imm_u i))) (ucast (rd i)) op = i"
    "opcode i = ucast op \<Longrightarrow> enc_j (ucast (drop_bit 1 (imm_j i))) (ucast (rd i)) op = i"
    "opcode i = ucast op \<Longrightarrow> enc_i (ucast (imm_i i)) (ucast (rs1 i)) (ucast (funct3 i)) (ucast (rd i)) op = i"
    "opcode i = ucast op \<Longrightarrow>
      enc_b (ucast (drop_bit 1 (imm_b i))) (ucast (rs2 i)) (ucast (rs1 i)) (ucast (funct3 i)) op = i"
    "opcode i = ucast op \<Longrightarrow> enc_s (ucast (imm_s i)) (ucast (rs2 i)) (ucast (rs1 i)) (ucast (funct3 i)) op = i"
    "opcode i = ucast op \<Longrightarrow>
      enc_r (ucast (funct7 i)) (ucast (rs2 i)) (ucast (rs1 i)) (ucast (funct3 i)) (ucast (rd i)) op = i"
    by (drule op, simp only:, rule u32_eqI, simp add: enc_defs field_defs imm_defs bitwise)+
qed

text \<open>A search for an operation code is a finite disjunction.\<close>

lemma some_op_u: "(\<exists>p. Q p) \<longleftrightarrow>
    Q U_LUI \<or> Q U_AUIPC"
  by (rule iffI, (elim exE, rename_tac p, case_tac p; simp), blast)

lemma some_op_b: "(\<exists>p. Q p) \<longleftrightarrow>
    Q B_BEQ \<or> Q B_BNE \<or> Q B_BLT \<or> Q B_BGE \<or> Q B_BLTU \<or> Q B_BGEU"
  by (rule iffI, (elim exE, rename_tac p, case_tac p; simp), blast)

lemma some_op_l: "(\<exists>p. Q p) \<longleftrightarrow>
    Q L_LB \<or> Q L_LH \<or> Q L_LW \<or> Q L_LBU \<or> Q L_LHU"
  by (rule iffI, (elim exE, rename_tac p, case_tac p; simp), blast)

lemma some_op_s: "(\<exists>p. Q p) \<longleftrightarrow>
    Q S_SB \<or> Q S_SH \<or> Q S_SW"
  by (rule iffI, (elim exE, rename_tac p, case_tac p; simp), blast)

lemma some_op_i: "(\<exists>p. Q p) \<longleftrightarrow>
    Q II_ADDI \<or> Q II_SLTI \<or> Q II_SLTIU \<or> Q II_XORI \<or> Q II_ORI \<or>
    Q II_ANDI"
  by (rule iffI, (elim exE, rename_tac p, case_tac p; simp), blast)

lemma some_op_sh: "(\<exists>p. Q p) \<longleftrightarrow>
    Q SH_SLLI \<or> Q SH_SRLI \<or> Q SH_SRAI"
  by (rule iffI, (elim exE, rename_tac p, case_tac p; simp), blast)

lemma some_op_r: "(\<exists>p. Q p) \<longleftrightarrow>
    Q R_ADD \<or> Q R_SUB \<or> Q R_SLL \<or> Q R_SLT \<or> Q R_SLTU \<or>
    Q R_XOR \<or> Q R_SRL \<or> Q R_SRA \<or> Q R_OR \<or> Q R_AND"
  by (rule iffI, (elim exE, rename_tac p, case_tac p; simp), blast)

lemma some_op_m: "(\<exists>p. Q p) \<longleftrightarrow>
    Q M_MUL \<or> Q M_MULH \<or> Q M_MULHSU \<or> Q M_MULHU \<or> Q M_DIV \<or>
    Q M_DIVU \<or> Q M_REM \<or> Q M_REMU"
  by (rule iffI, (elim exE, rename_tac p, case_tac p; simp), blast)

lemma some_op_a: "(\<exists>p. Q p) \<longleftrightarrow>
    Q A_LR \<or> Q A_SC \<or> Q A_SWAP \<or> Q A_ADD \<or> Q A_XOR \<or>
    Q A_AND \<or> Q A_OR \<or> Q A_MIN \<or> Q A_MAX \<or> Q A_MINU \<or> Q A_MAXU"
  by (rule iffI, (elim exE, rename_tac p, case_tac p; simp), blast)

lemma some_op_csr: "(\<exists>p. Q p) \<longleftrightarrow>
    Q C_RW \<or> Q C_RS \<or> Q C_RC \<or> Q C_RWI \<or> Q C_RSI \<or> Q C_RCI"
  by (rule iffI, (elim exE, rename_tac p, case_tac p; simp), blast)

lemma some_op_priv: "(\<exists>p. Q p) \<longleftrightarrow>
    Q P_ECALL \<or> Q P_EBREAK \<or> Q P_MRET \<or> Q P_SRET \<or> Q P_URET \<or>
    Q P_WFI"
  by (rule iffI, (elim exE, rename_tac p, case_tac p; simp), blast)

text \<open>Arm by arm of the opcode switch, the function fields of an accepted word name an instruction.\<close>

lemma upper_encodes:
  assumes "opcode i = OP_LUI \<or> opcode i = OP_AUIPC \<or> opcode i = OP_JAL"
  shows "\<exists>a. encodes a i"
  using assms
proof (elim disjE)
  assume "opcode i = OP_LUI"
  with reassemble(1) [of i "0x37"] show ?thesis
    by (intro exI [of _ "ASM_U U_LUI (ucast (drop_bit 12 (imm_u i))) (ucast (rd i))"] encodes_assemble) simp
next
  assume "opcode i = OP_AUIPC"
  with reassemble(1) [of i "0x17"] show ?thesis
    by (intro exI [of _ "ASM_U U_AUIPC (ucast (drop_bit 12 (imm_u i))) (ucast (rd i))"] encodes_assemble) simp
next
  assume "opcode i = OP_JAL"
  with reassemble(2) [of i "0x6F"] show ?thesis
    by (intro exI [of _ "ASM_JAL (ucast (drop_bit 1 (imm_j i))) (ucast (rd i))"] encodes_assemble) simp
qed

lemma branch_encodes:
  assumes "d_type (decode_branch i d) \<noteq> I_ILLEGAL" and "opcode i = OP_BRANCH"
  shows "\<exists>a. encodes a i"
proof -
  have "\<exists>p. snd (b_code p) = ucast (funct3 i)"
    using assms(1) by (auto simp: decode_branch_def Let_def some_op_b split: if_splits)
  then obtain p where "snd (b_code p) = ucast (funct3 i)" ..
  with assms(2) reassemble(4) [of i "0x63"] show ?thesis
    by (intro exI [of _ "ASM_B p (ucast (drop_bit 1 (imm_b i))) (ucast (rs2 i)) (ucast (rs1 i))"] encodes_assemble) simp
qed

lemma load_encodes:
  assumes "d_type (decode_load i d) \<noteq> I_ILLEGAL" and "opcode i = OP_LOAD"
  shows "\<exists>a. encodes a i"
proof -
  have "\<exists>p. snd (l_code p) = ucast (funct3 i)"
    using assms(1) by (auto simp: decode_load_def Let_def some_op_l split: if_splits)
  then obtain p where "snd (l_code p) = ucast (funct3 i)" ..
  with assms(2) reassemble(3) [of i "0x03"] show ?thesis
    by (intro exI [of _ "ASM_L p (ucast (imm_i i)) (ucast (rs1 i)) (ucast (rd i))"] encodes_assemble) simp
qed

lemma store_encodes:
  assumes "d_type (decode_store i d) \<noteq> I_ILLEGAL" and "opcode i = OP_STORE"
  shows "\<exists>a. encodes a i"
proof -
  have "\<exists>p. snd (s_code p) = ucast (funct3 i)"
    using assms(1) by (auto simp: decode_store_def Let_def some_op_s split: if_splits)
  then obtain p where "snd (s_code p) = ucast (funct3 i)" ..
  with assms(2) reassemble(5) [of i "0x23"] show ?thesis
    by (intro exI [of _ "ASM_S p (ucast (imm_s i)) (ucast (rs2 i)) (ucast (rs1 i))"] encodes_assemble) simp
qed

lemma op_imm_encodes:
  assumes "d_type (decode_op_imm i d) \<noteq> I_ILLEGAL" and "opcode i = OP_IMM"
  shows "\<exists>a. encodes a i"
proof -
  have "(\<exists>p. snd (i_code p) = ucast (funct3 i)) \<or>
      (\<exists>p. fst (snd (sh_code p)) = ucast (funct7 i) \<and> snd (snd (sh_code p)) = ucast (funct3 i))"
    using assms(1) by (auto simp: decode_op_imm_def Let_def some_op_i some_op_sh split: if_splits)
  then show ?thesis
  proof (elim disjE exE conjE)
    fix p assume "snd (i_code p) = ucast (funct3 i)"
    with assms(2) reassemble(3) [of i "0x13"] show ?thesis
      by (intro exI [of _ "ASM_I p (ucast (imm_i i)) (ucast (rs1 i)) (ucast (rd i))"] encodes_assemble) simp
  next
    fix p assume "fst (snd (sh_code p)) = ucast (funct7 i)" "snd (snd (sh_code p)) = ucast (funct3 i)"
    with assms(2) reassemble(6) [of i "0x13"] show ?thesis
      by (intro exI [of _ "ASM_SH p (ucast (rs2 i)) (ucast (rs1 i)) (ucast (rd i))"] encodes_assemble) simp
  qed
qed

lemma op_reg_encodes:
  assumes "d_type (decode_op_reg i d) \<noteq> I_ILLEGAL" and "d_type d = I_ILLEGAL" and "opcode i = OP_REG"
  shows "\<exists>a. encodes a i"
proof -
  have "(\<exists>p. fst (snd (r_code p)) = ucast (funct7 i) \<and> snd (snd (r_code p)) = ucast (funct3 i)) \<or>
      funct7 i = F7_MULDIV \<and> (\<exists>p. snd (m_code p) = ucast (funct3 i))"
    using assms(1,2) by (auto simp: decode_op_reg_def Let_def some_op_r some_op_m split: if_splits)
  then show ?thesis
  proof (elim disjE exE conjE)
    fix p assume "fst (snd (r_code p)) = ucast (funct7 i)" "snd (snd (r_code p)) = ucast (funct3 i)"
    with assms(3) reassemble(6) [of i "0x33"] show ?thesis
      by (intro exI [of _ "ASM_R p (ucast (rs2 i)) (ucast (rs1 i)) (ucast (rd i))"] encodes_assemble) simp
  next
    fix p assume "funct7 i = F7_MULDIV" "snd (m_code p) = ucast (funct3 i)"
    with assms(3) reassemble(6) [of i "0x33"] show ?thesis
      by (intro exI [of _ "ASM_M p (ucast (rs2 i)) (ucast (rs1 i)) (ucast (rd i))"] encodes_assemble) simp
  qed
qed

lemma amo_fields: "amo_funct7 (ucast (funct5 i)) (ucast (funct7 i)) = ucast (funct7 i)"
  by (rule word_bits_eqI) (simp add: amo_funct7_def field_defs bitwise)

lemma amo_encodes:
  assumes "d_type (decode_amo i d) \<noteq> I_ILLEGAL" and "opcode i = OP_AMO"
  shows "\<exists>a. encodes a i"
proof -
  have "funct3 i = 2 \<and> (\<exists>p. snd (a_code p) = ucast (funct5 i))"
    using assms(1) by (auto simp: decode_amo_def Let_def some_op_a split: if_splits)
  then obtain p where "funct3 i = 2" "snd (a_code p) = ucast (funct5 i)" by blast
  with assms(2) reassemble(6) [of i "0x2F"] show ?thesis
    by (intro exI [of _ "ASM_A p (ucast (funct7 i)) (ucast (rs2 i)) (ucast (rs1 i)) (ucast (rd i))"] encodes_assemble)
      (simp add: amo_fields)
qed

text \<open>Encodings that differ only in an ignored field.\<close>

lemma masked_encodings:
  "enc_i imm r1 f3 r op AND NOT 0x7000 = enc_i imm r1 0 r op AND NOT 0x7000"
  "enc_i imm r1 f3 r op AND NOT 0xF8F80 = enc_i imm 0 f3 0 op AND NOT 0xF8F80"
  "enc_r f7 r2 r1 f3 r op AND NOT 0xF80 = enc_r f7 r2 r1 f3 0 op AND NOT 0xF80"
  "enc_i imm r1 f3 r op AND NOT 0xFFF80 = enc_i imm 0 0 0 op AND NOT 0xFFF80"
  "enc_i imm r1 f3 r op AND NOT 0xFFFF8F80 = enc_i 0 0 f3 0 op AND NOT 0xFFFF8F80"
  by (rule u32_eqI, simp add: enc_defs bitwise)+

lemma loose_encodings:
  "opcode i = 0x67 \<Longrightarrow> encodes (ASM_JALR (ucast (imm_i i)) (ucast (rs1 i)) (ucast (rd i))) i"
  "opcode i = 0x73 \<Longrightarrow> funct3 i = 0 \<Longrightarrow> snd (priv_code p) = ucast (imm_i i) \<Longrightarrow> encodes (ASM_PRIV p) i"
  "opcode i = 0x73 \<Longrightarrow> funct3 i = 0 \<Longrightarrow> funct7 i = 9 \<Longrightarrow>
    encodes (ASM_SFENCE_VMA (ucast (rs2 i)) (ucast (rs1 i))) i"
  "opcode i = 0x0F \<Longrightarrow> funct3 i \<noteq> 1 \<Longrightarrow> encodes (ASM_FENCE (ucast (imm_i i))) i"
  "opcode i = 0x0F \<Longrightarrow> funct3 i = 1 \<Longrightarrow> encodes ASM_FENCEI i"
  using reassemble(3) [of i "0x67"] reassemble(3) [of i "0x73"] reassemble(6) [of i "0x73"] reassemble(3) [of i "0x0F"]
    masked_encodings(1) [of "ucast (imm_i i)" "ucast (rs1 i)" "ucast (funct3 i)" "ucast (rd i)" "0x67"]
    masked_encodings(2) [of "ucast (imm_i i)" "ucast (rs1 i)" "ucast (funct3 i)" "ucast (rd i)" "0x73"]
    masked_encodings(3) [of "ucast (funct7 i)" "ucast (rs2 i)" "ucast (rs1 i)" "ucast (funct3 i)" "ucast (rd i)" "0x73"]
    masked_encodings(4) [of "ucast (imm_i i)" "ucast (rs1 i)" "ucast (funct3 i)" "ucast (rd i)" "0x0F"]
    masked_encodings(5) [of "ucast (imm_i i)" "ucast (rs1 i)" "ucast (funct3 i)" "ucast (rd i)" "0x0F"]
  by (simp_all add: encodes_def)

lemma system_encodes:
  assumes "d_type (decode_system i d) \<noteq> I_ILLEGAL" and "opcode i = OP_SYSTEM"
  shows "\<exists>a. encodes a i"
proof -
  have "(ucast (imm_i i) :: 12 word) = ucast (funct12 i)"
    by (rule word_bits_eqI) (simp add: imm_defs field_defs bitwise)
  then have "funct3 i = 0 \<and> funct7 i = F7_SFENCE_VMA \<or> funct3 i = 0 \<and> (\<exists>p. snd (priv_code p) = ucast (imm_i i)) \<or>
      (\<exists>p. snd (csr_code p) = ucast (funct3 i))"
    using assms(1) by (auto simp: decode_system_def Let_def some_op_priv some_op_csr split: if_splits)
  then show ?thesis
  proof (elim disjE exE conjE)
    fix p assume "snd (csr_code p) = ucast (funct3 i)"
    with assms(2) reassemble(3) [of i "0x73"] show ?thesis
      by (intro exI [of _ "ASM_CSR p (ucast (imm_i i)) (ucast (rs1 i)) (ucast (rd i))"] encodes_assemble) simp
  qed (use assms(2) loose_encodings(2,3) in auto)
qed

lemma accepted_opcode:
  assumes "d_type (decode32 i) \<noteq> I_ILLEGAL"
  shows "opcode i \<in> {OP_LUI, OP_AUIPC, OP_JAL, OP_JALR, OP_BRANCH, OP_LOAD, OP_STORE, OP_IMM,
    OP_REG, OP_AMO, OP_FENCE, OP_SYSTEM}"
proof (rule ccontr)
  assume "\<not> ?thesis"
  then have "d_type (decode32 i) = I_ILLEGAL"
    by (simp add: decode32_def DecodedInstr_init_def Let_def)
  with assms show False ..
qed

lemma decode32_accepts:
  assumes "d_type (decode32 i) \<noteq> I_ILLEGAL"
  shows "\<exists>a. encodes a i"
proof -
  let ?d = "DecodedInstr_init\<lparr>d_raw := i\<rparr>"
  have d: "d_type ?d = I_ILLEGAL" by (simp add: DecodedInstr_init_def)
  note arms = branch_encodes [of i ?d] load_encodes [of i ?d] store_encodes [of i ?d] op_imm_encodes [of i ?d]
    op_reg_encodes [OF _ d, of i] amo_encodes [of i ?d] system_encodes [of i ?d]
  consider "opcode i = OP_LUI \<or> opcode i = OP_AUIPC \<or> opcode i = OP_JAL" | "opcode i = OP_JALR" | "opcode i = OP_FENCE"
    | "opcode i = OP_BRANCH" | "opcode i = OP_LOAD" | "opcode i = OP_STORE" | "opcode i = OP_IMM"
    | "opcode i = OP_REG" | "opcode i = OP_AMO" | "opcode i = OP_SYSTEM"
    using accepted_opcode [OF assms] by auto
  then show ?thesis
  proof cases
    case 1 then show ?thesis by (rule upper_encodes)
  next
    case 2 with loose_encodings(1) show ?thesis by auto
  next
    case 3 with loose_encodings(4,5) show ?thesis by (cases "funct3 i = 1") auto
  qed (use assms arms in \<open>simp_all add: decode32_def Let_def\<close>)
qed

section \<open>The decoder\<close>

text \<open>The instruction a word stands for, in 32 bits or in its low 16 bits.\<close>

definition denotes :: "asm \<Rightarrow> u32 \<Rightarrow> bool" where
  "denotes a i =
     (if i AND 3 = 3 then encodes a i
      else \<exists>c. rvc_legal c \<and> i AND 0xFFFF = ucast (rvc_encode c) \<and> a = rvc_expand c)"

lemma asm_decoded_legal: "d_type (asm_decoded a) \<noteq> I_ILLEGAL" "d_compressed (asm_decoded a) = False"
proof -
  have "fst (u_code p1) \<noteq> I_ILLEGAL" "fst (b_code p2) \<noteq> I_ILLEGAL" "fst (l_code p3) \<noteq> I_ILLEGAL"
    "fst (s_code p4) \<noteq> I_ILLEGAL" "fst (i_code p5) \<noteq> I_ILLEGAL" "fst (sh_code p6) \<noteq> I_ILLEGAL"
    "fst (r_code p7) \<noteq> I_ILLEGAL" "fst (m_code p8) \<noteq> I_ILLEGAL" "fst (a_code p9) \<noteq> I_ILLEGAL"
    "fst (csr_code q1) \<noteq> I_ILLEGAL" "fst (priv_code q2) \<noteq> I_ILLEGAL" for p1 p2 p3 p4 p5 p6 p7 p8 p9 q1 q2
    by (cases p1, simp_all) (cases p2, simp_all, cases p3, simp_all, cases p4, simp_all, cases p5, simp_all,
      cases p6, simp_all, cases p7, simp_all, cases p8, simp_all, cases p9, simp_all, cases q1, simp_all, cases q2, simp_all)
  then show "d_type (asm_decoded a) \<noteq> I_ILLEGAL" by (cases a) simp_all
  show "d_compressed (asm_decoded a) = False" by (cases a) (simp_all add: DecodedInstr_init_def)
qed

lemma decode_denoted:
  assumes "denotes a i"
  shows "decode i = (asm_decoded a)\<lparr>d_raw := if i AND 3 = 3 then i else i AND 0xFFFF, d_compressed := (i AND 3 \<noteq> 3)\<rparr>"
proof (cases "i AND 3 = 3")
  case True
  with assms have "decode i = (asm_decoded a)\<lparr>d_raw := i\<rparr>" using decode32_encoded [of a i] by (simp add: decode_def denotes_def)
  with True asm_decoded_legal(2) [of a] show ?thesis by simp
next
  case False
  with assms obtain c where c: "rvc_legal c" "i AND 0xFFFF = ucast (rvc_encode c)" "a = rvc_expand c"
    by (auto simp: denotes_def)
  have "i = (i AND 0xFFFF) OR push_bit 16 (ucast (ucast (drop_bit 16 i) :: u16))"
    by (rule u32_eqI) (simp add: bitwise)
  with decode_rvc_eq [OF c(1), of "ucast (drop_bit 16 i)"] c(2,3) False show ?thesis by simp
qed

lemma decode_denotes:
  assumes "d_type (decode i) \<noteq> I_ILLEGAL"
  shows "\<exists>a. denotes a i"
proof (cases "i AND 3 = 3")
  case True
  with assms decode32_accepts [of i] show ?thesis by (simp add: decode_def denotes_def)
next
  case False
  let ?c = "ucast (i AND 0xFFFF) :: u16"
  have u: "ucast ?c = i AND 0xFFFF" "(ucast ?c :: u32) AND 3 = i AND 3" by (rule u32_eqI, simp add: bitwise)+
  have "accepted ?c"
    using assms False by (auto simp: accepted_def decode_def Let_def DecodedInstr_init_def split: if_splits)
  then obtain c where c: "rvc_legal c" "rvc_encode c = ?c"
    using accepted_is_rvc [of ?c] u(2) False by (auto simp: is_rvc_def)
  with u(1) False show ?thesis by (auto simp: denotes_def)
qed

text \<open>
  C3. The decoder accepts exactly the instructions. A word is not rejected as illegal if and only if
  it is the 32-bit encoding of an RV32IMA instruction, up to the fields the decoder ignores, or its
  low half is the encoding of a legal RVC instruction; and then it is decoded to that instruction,
  with its raw bits and marked as compressed or not.
\<close>

theorem decode_exact:
  "(d_type (decode i) \<noteq> I_ILLEGAL \<longleftrightarrow> (\<exists>a. denotes a i)) \<and>
   (\<forall>a. denotes a i \<longrightarrow> decode i =
     (asm_decoded a)\<lparr>d_raw := if i AND 3 = 3 then i else i AND 0xFFFF, d_compressed := (i AND 3 \<noteq> 3)\<rparr>)"
proof (intro conjI iffI allI impI)
  show "d_type (decode i) \<noteq> I_ILLEGAL" if "\<exists>a. denotes a i" using that decode_denoted asm_decoded_legal by auto
qed (use decode_denotes decode_denoted in blast)+

text \<open>An atomic instruction with another funct3 is no instruction, and \<open>addi x5, x5, 10\<close> is one.\<close>

theorem decode_exact_witness:
  "\<not> (\<exists>a. denotes a 0x0000302F) \<and>
   decode 0x00A28293 = (asm_decoded (ASM_I II_ADDI 10 5 5))\<lparr>d_raw := 0x00A28293, d_compressed := False\<rparr>"
proof
  have "d_type (decode 0x0000302F) = I_ILLEGAL"
    by (simp add: decode_def decode32_def decode_amo_def field_defs Let_def)
  with decode_exact [of "0x0000302F"] show "\<not> (\<exists>a. denotes a 0x0000302F)" by simp
  have "denotes (ASM_I II_ADDI 10 5 5) 0x00A28293" by (simp add: denotes_def encodes_def enc_i_def)
  with decode_exact [of "0x00A28293"] show "decode 0x00A28293 =
      (asm_decoded (ASM_I II_ADDI 10 5 5))\<lparr>d_raw := 0x00A28293, d_compressed := False\<rparr>"
    by (simp del: asm_decoded.simps)
qed

end
