(* ===== verification/Trap.thy ===== *)
theory Trap
  imports Execute_Props
begin

text \<open>
  Model of \<open>src/src/cpu/trap.cpp\<close>: the choice of the interrupt to take and the entry into a trap
  handler, with the lemmas that the choice is the highest-priority enabled interrupt, that trap
  entry keeps the hart well formed, and that the returns MRET and SRET undo it.
\<close>

unbundle bit_operations_syntax

section \<open>Pending interrupts\<close>

definition int_priority :: "nat list" where
  "int_priority = [11, 3, 7, 9, 1, 5]"

fun first_active :: "u32 \<Rightarrow> nat list \<Rightarrow> u32" where
  "first_active active [] = 0"
| "first_active active (n # ns) =
     (if active AND push_bit n 1 \<noteq> 0 then INT_BIT OR of_nat n else first_active active ns)"

definition check_pending_interrupts :: "CPUState \<Rightarrow> u32" where
  "check_pending_interrupts s =
     (let pending = get_mip (csr s) AND mie (csr s)
      in if pending = 0 then 0
         else
           let m_pending = pending AND NOT (mideleg (csr s));
               s_pending = pending AND mideleg (csr s);
               m_enabled = (priv s < PRV_M \<or> (priv s = PRV_M \<and> mstatus (csr s) AND MSTATUS_MIE \<noteq> 0));
               s_enabled0 = (priv s < PRV_S \<or> (priv s = PRV_S \<and> mstatus (csr s) AND MSTATUS_SIE \<noteq> 0));
               s_enabled = (if priv s = PRV_M then False else s_enabled0);
               active = (if m_enabled then m_pending else 0) OR (if s_enabled then s_pending else 0)
           in if active = 0 then 0 else first_active active int_priority)"

section \<open>Trap entry\<close>

definition trap_mstatus_s :: "u8 \<Rightarrow> u32 \<Rightarrow> u32" where
  "trap_mstatus_s p ms =
     (let sie = (ms AND MSTATUS_SIE \<noteq> 0);
          ms1 = (ms AND NOT MSTATUS_SPIE) OR (if sie then MSTATUS_SPIE else 0);
          ms2 = ms1 AND NOT MSTATUS_SIE
      in (ms2 AND NOT MSTATUS_SPP) OR (if p = PRV_S then MSTATUS_SPP else 0))"

definition trap_mstatus_m :: "u8 \<Rightarrow> u32 \<Rightarrow> u32" where
  "trap_mstatus_m p ms =
     (let mie_bit = (ms AND MSTATUS_MIE \<noteq> 0);
          ms1 = (ms AND NOT MSTATUS_MPIE) OR (if mie_bit then MSTATUS_MPIE else 0);
          ms2 = ms1 AND NOT MSTATUS_MIE
      in (ms2 AND NOT MSTATUS_MPP_MASK) OR push_bit MSTATUS_MPP_SHIFT (ucast p))"

definition trap_vector :: "u32 \<Rightarrow> bool \<Rightarrow> u32 \<Rightarrow> u32" where
  "trap_vector tvec is_interrupt cause_code =
     (let base = tvec AND NOT 0x3; mode = tvec AND 0x3
      in if mode = 1 \<and> is_interrupt then base + 4 * cause_code else base)"

definition trap_delegated :: "CPUState \<Rightarrow> u32 \<Rightarrow> bool" where
  "trap_delegated s c =
     (let is_interrupt = (c AND INT_BIT \<noteq> 0); cause_code = c AND 0x7FFFFFFF
      in if priv s \<le> PRV_S
         then (let deleg = (if is_interrupt then mideleg (csr s) else medeleg (csr s))
               in drop_bit (unat cause_code) deleg AND 1 \<noteq> 0)
         else False)"

definition take_trap :: "u32 \<Rightarrow> u32 \<Rightarrow> CPUState \<Rightarrow> CPUState" where
  "take_trap c tv s =
     (let is_interrupt = (c AND INT_BIT \<noteq> 0); cause_code = c AND 0x7FFFFFFF
      in if trap_delegated s c then
           s\<lparr>csr := (csr s)\<lparr>sepc := pc s AND NOT 0x1, scause := c, stval := tv,
                            mstatus := trap_mstatus_s (priv s) (mstatus (csr s))\<rparr>,
             priv := PRV_S,
             next_pc := trap_vector (stvec (csr s)) is_interrupt cause_code\<rparr>
         else
           s\<lparr>csr := (csr s)\<lparr>mepc := pc s AND NOT 0x1, mcause := c, mtval := tv,
                            mstatus := trap_mstatus_m (priv s) (mstatus (csr s))\<rparr>,
             priv := PRV_M,
             next_pc := trap_vector (mtvec (csr s)) is_interrupt cause_code\<rparr>)"

section \<open>Interrupt selection\<close>

text \<open>
  Reference: interrupt line \<open>n\<close> is taken when it is pending and enabled in \<open>mie\<close> and the mode it
  is delegated to can be interrupted from the current one.
\<close>

definition interrupt_enabled :: "CPUState \<Rightarrow> nat \<Rightarrow> bool" where
  "interrupt_enabled s n =
     (bit (get_mip (csr s)) n \<and> bit (mie (csr s)) n \<and>
      (if bit (mideleg (csr s)) n
       then priv s < PRV_S \<or> (priv s = PRV_S \<and> bit (mstatus (csr s)) 1)
       else priv s < PRV_M \<or> (priv s = PRV_M \<and> bit (mstatus (csr s)) 3)))"

text \<open>The interrupts with their lines in \<open>mip\<close> and their priority, the larger the more urgent.\<close>

datatype interrupt = MEI | MSI | MTI | SEI | SSI | STI

primrec int_line :: "interrupt \<Rightarrow> nat" where
  "int_line MEI = 11" | "int_line MSI = 3" | "int_line MTI = 7"
| "int_line SEI = 9" | "int_line SSI = 1" | "int_line STI = 5"

primrec int_level :: "interrupt \<Rightarrow> nat" where
  "int_level MEI = 6" | "int_level MSI = 5" | "int_level MTI = 4"
| "int_level SEI = 3" | "int_level SSI = 2" | "int_level STI = 1"

lemma all_interrupts: "(\<forall>i. P i) \<longleftrightarrow> P MEI \<and> P MSI \<and> P MTI \<and> P SEI \<and> P SSI \<and> P STI"
proof
  assume *: "P MEI \<and> P MSI \<and> P MTI \<and> P SEI \<and> P SSI \<and> P STI"
  have "P i" for i by (cases i) (use * in auto)
  then show "\<forall>i. P i" ..
qed simp

lemma first_active_find:
  "\<forall>n \<in> set ns. n < 32 \<Longrightarrow> first_active active ns =
    (case find (bit active) ns of None \<Rightarrow> 0 | Some n \<Rightarrow> INT_BIT OR of_nat n)"
proof (induction ns)
  case (Cons n ns)
  have "active AND push_bit n 1 = 0 \<longleftrightarrow> \<not> bit active n"
    by (rule and_mask_bit_iff) (simp add: push_bit_eq_mult)
  with Cons show ?case by simp
qed simp

lemma mstatus_bit_tests:
  "ms AND MSTATUS_MIE = 0 \<longleftrightarrow> \<not> bit ms 3" "ms AND MSTATUS_SIE = 0 \<longleftrightarrow> \<not> bit ms 1"
  "ms AND MSTATUS_MPIE = 0 \<longleftrightarrow> \<not> bit ms 7" "ms AND MSTATUS_SPIE = 0 \<longleftrightarrow> \<not> bit ms 5"
  "ms AND MSTATUS_SPP = 0 \<longleftrightarrow> \<not> bit ms 8" "ms AND INT_BIT = 0 \<longleftrightarrow> \<not> bit ms 31" for ms :: u32
  by (simp_all add: and_mask_bit_iff [of _ 3] and_mask_bit_iff [of _ 1] and_mask_bit_iff [of _ 7]
      and_mask_bit_iff [of _ 5] and_mask_bit_iff [of _ 8] and_mask_bit_iff [of _ 31])

lemma find_cong_pred: "(\<And>x. x \<in> set xs \<Longrightarrow> P x = Q x) \<Longrightarrow> find P xs = find Q xs"
  by (induction xs) auto

lemma check_pending_interrupts_find:
  "check_pending_interrupts s =
    (case find (interrupt_enabled s) int_priority of None \<Rightarrow> 0 | Some n \<Rightarrow> INT_BIT OR of_nat n)"
proof -
  define pending where "pending = get_mip (csr s) AND mie (csr s)"
  define active where "active =
      (if priv s < PRV_M \<or> (priv s = PRV_M \<and> mstatus (csr s) AND MSTATUS_MIE \<noteq> 0)
       then pending AND NOT (mideleg (csr s)) else 0) OR
      (if (if priv s = PRV_M then False else
         priv s < PRV_S \<or> (priv s = PRV_S \<and> mstatus (csr s) AND MSTATUS_SIE \<noteq> 0))
       then pending AND mideleg (csr s) else 0)"
  have 0: "first_active 0 ns = 0" for ns by (induction ns) auto
  have "pending = 0 \<Longrightarrow> active = 0" by (simp add: active_def)
  moreover have "check_pending_interrupts s =
      (if pending = 0 then 0 else if active = 0 then 0 else first_active active int_priority)"
    unfolding check_pending_interrupts_def Let_def pending_def active_def by (rule refl)
  ultimately have "check_pending_interrupts s = first_active active int_priority"
    by (simp add: 0)
  also have "\<dots> = (case find (bit active) int_priority of None \<Rightarrow> 0 | Some n \<Rightarrow> INT_BIT OR of_nat n)"
    by (rule first_active_find) (simp add: int_priority_def)
  also have "find (bit active) int_priority = find (interrupt_enabled s) int_priority"
    by (rule find_cong_pred)
      (auto simp: active_def pending_def interrupt_enabled_def mstatus_bit_tests bit_simps int_priority_def)
  finally show ?thesis .
qed

text \<open>
  C14. Interrupt selection is exact: the bit-mask computation returns the cause of the interrupt that
  is pending, enabled and allowed by the current privilege and the delegation and that no other
  such interrupt precedes in the order MEI, MSI, MTI, SEI, SSI, STI, and 0 when there is none.
\<close>

theorem check_pending_interrupts_correct:
  "(interrupt_enabled s (int_line i) \<and>
      (\<forall>j. interrupt_enabled s (int_line j) \<longrightarrow> int_level j \<le> int_level i) \<longrightarrow>
      check_pending_interrupts s = INT_BIT OR of_nat (int_line i)) \<and>
   ((\<forall>j. \<not> interrupt_enabled s (int_line j)) \<longrightarrow> check_pending_interrupts s = 0)"
  unfolding check_pending_interrupts_find all_interrupts
  by (cases i) (auto simp: int_priority_def)

text \<open>In user mode with every line pending and enabled but MEI and MSI, the timer is taken.\<close>

theorem check_pending_interrupts_correct_witness:
  "check_pending_interrupts (CPUState_init\<lparr>priv := PRV_U, csr := CSRFile_init\<lparr>hw_mip := 0x2A2, mie := 0x2A2\<rparr>\<rparr>) = IRQ_M_TIMER"
proof -
  let ?s = "CPUState_init\<lparr>priv := PRV_U, csr := CSRFile_init\<lparr>hw_mip := 0x2A2, mie := 0x2A2\<rparr>\<rparr>"
  have "interrupt_enabled ?s (int_line MTI)" "\<not> interrupt_enabled ?s (int_line MEI)" "\<not> interrupt_enabled ?s (int_line MSI)"
    by (simp_all add: interrupt_enabled_def get_mip_def CSRFile_init_def)
  moreover have "int_level j \<le> int_level MTI" if "interrupt_enabled ?s (int_line j)" for j
    using that calculation by (cases j) simp_all
  ultimately show ?thesis using check_pending_interrupts_correct [of ?s MTI] by simp
qed

section \<open>Trap entry and return\<close>

lemma trap_mstatus_s_ok [simp]: "mstatus_ok ms \<Longrightarrow> mstatus_ok (trap_mstatus_s p ms)"
  by (simp add: mstatus_ok_def trap_mstatus_s_def Let_def within_or within_and mstatus_bits_within bit_simps)

lemma trap_mstatus_m_ok [simp]:
  assumes "mstatus_ok ms" and "p \<in> {PRV_U, PRV_S, PRV_M}"
  shows "mstatus_ok (trap_mstatus_m p ms)"
proof -
  have "within MSTATUS_WRITE_MASK (push_bit 11 (ucast p))" using assms(2) by (auto simp: within_def mask_values)
  then show ?thesis
    using assms
    by (auto simp: mstatus_ok_def trap_mstatus_m_def Let_def within_or within_and mstatus_bits_within bit_simps)
qed

lemma take_trap_inv [simp]:
  assumes "cpu_inv s"
  shows "cpu_inv (take_trap c tv s)"
  using assms by (auto simp: take_trap_def Let_def cpu_inv_def csr_inv_def bit_simps)

lemma take_trap_frame [simp]:
  "regs (take_trap c tv s) = regs s" "pc (take_trap c tv s) = pc s" "lr_sc (take_trap c tv s) = lr_sc s"
  by (simp_all add: take_trap_def Let_def)

lemma take_trap_priv: "cpu_inv s \<Longrightarrow> priv s \<le> priv (take_trap c tv s)"
  by (auto simp: take_trap_def Let_def cpu_inv_def trap_delegated_def)

lemma trap_vector_even: "even (trap_vector t i c)"
proof -
  have "even (t AND NOT 3)" by (simp add: even_and_iff even_not_iff)
  then show ?thesis by (simp add: trap_vector_def Let_def)
qed

lemma take_trap_next_pc_even: "even (next_pc (take_trap c tv s))"
  by (simp add: take_trap_def Let_def trap_vector_even)

lemma mret_undoes_trap:
  assumes "p \<in> {PRV_U, PRV_S, PRV_M}"
  shows "mret_mstatus (trap_mstatus_m p ms) = (ms AND NOT MSTATUS_MPP_MASK) OR MSTATUS_MPIE"
    and "ucast (drop_bit 11 (trap_mstatus_m p ms) AND 3) = p"
proof -
  have p: "p = 0 \<or> p = 1 \<or> p = 3" using assms by simp
  show "mret_mstatus (trap_mstatus_m p ms) = (ms AND NOT MSTATUS_MPP_MASK) OR MSTATUS_MPIE"
    using p by (intro u32_eqI)
      (elim disjE; simp add: mret_mstatus_def trap_mstatus_m_def Let_def mstatus_bit_tests bitwise)
  have "drop_bit 11 (trap_mstatus_m p ms) AND 3 = ucast p"
    using p by (intro u32_eqI) (elim disjE; simp add: trap_mstatus_m_def Let_def mstatus_bit_tests bitwise)
  then show "ucast (drop_bit 11 (trap_mstatus_m p ms) AND 3) = p" using p by auto
qed

lemma sret_undoes_trap:
  assumes "p = PRV_U \<or> p = PRV_S"
  shows "sret_mstatus (trap_mstatus_s p ms) = (ms AND NOT MSTATUS_SPP) OR MSTATUS_SPIE"
    and "trap_mstatus_s p ms AND MSTATUS_SPP \<noteq> 0 \<longleftrightarrow> p = PRV_S"
    and "trap_mstatus_s p ms AND MSTATUS_TSR = ms AND MSTATUS_TSR"
proof -
  show "sret_mstatus (trap_mstatus_s p ms) = (ms AND NOT MSTATUS_SPP) OR MSTATUS_SPIE"
    by (intro u32_eqI) (simp add: sret_mstatus_def trap_mstatus_s_def Let_def mstatus_bit_tests bitwise)
  show "trap_mstatus_s p ms AND MSTATUS_SPP \<noteq> 0 \<longleftrightarrow> p = PRV_S"
    by (simp add: trap_mstatus_s_def Let_def mstatus_bit_tests bit_simps)
  show "trap_mstatus_s p ms AND MSTATUS_TSR = ms AND MSTATUS_TSR"
    by (intro u32_eqI) (simp add: trap_mstatus_s_def Let_def mstatus_bit_tests bitwise)
qed

text \<open>
  C15. A trap taken into machine mode is undone by MRET: executed in the handler (with the
  trap's CSRs intact), MRET resumes at the interrupted instruction in the privilege that was
  interrupted with the interrupt enable it had; of \<open>mstatus\<close> only the used-up MPP and MPIE
  differ, and registers, reservation and environment are untouched.
\<close>

theorem trap_mret_roundtrip:
  assumes "cpu_inv s" and "\<not> trap_delegated s c" and "d_type d = I_MRET"
    and "t = take_trap c tv s"
    and "execute m d (t\<lparr>pc := next_pc t\<rparr>) e = (r, s', e')"
  shows "\<not> exception r \<and> e' = e \<and> next_pc s' = pc s AND NOT 1 \<and> priv s' = priv s \<and> regs s' = regs s \<and>
    lr_sc s' = lr_sc s \<and> mstatus (csr s') = (mstatus (csr s) AND NOT MSTATUS_MPP_MASK) OR MSTATUS_MPIE"
proof -
  have p: "priv s \<in> {PRV_U, PRV_S, PRV_M}" using assms(1) by (simp add: cpu_inv_def)
  show ?thesis
    using assms(2-5) mret_undoes_trap [OF p]
    by (auto simp: execute_def Let_def exec_mret_def exec_done_def take_trap_def ExecResult_init_def)
qed

lemma cpu_inv_init: "cpu_inv (CPUState_init\<lparr>pc := v\<rparr>)"
  using csr_inv_init by (simp add: cpu_inv_def CPUState_init_def Reservation_init_def)

theorem trap_mret_roundtrip_witness:
  "\<exists>r s'. execute \<lparr>mem_read = (\<lambda>a n s e. (0, s, e)), mem_write = (\<lambda>a v n s e. (s, e)),
       on_satp_write = (\<lambda>s e. (s, e))\<rparr> (DecodedInstr_init\<lparr>d_type := I_MRET\<rparr>)
       ((take_trap CAUSE_BREAKPOINT 0 (CPUState_init\<lparr>pc := 0x100\<rparr>))
        \<lparr>pc := next_pc (take_trap CAUSE_BREAKPOINT 0 (CPUState_init\<lparr>pc := 0x100\<rparr>))\<rparr>) () = (r, s', ()) \<and>
     next_pc s' = 0x100 \<and> priv s' = PRV_M"
  (is "\<exists>r s'. ?x = (r, s', ()) \<and> _")
proof -
  obtain r s' e' where x: "?x = (r, s', e')" by (metis prod_cases3)
  have "\<not> trap_delegated (CPUState_init\<lparr>pc := 0x100\<rparr>) CAUSE_BREAKPOINT"
    by (simp add: trap_delegated_def CPUState_init_def word_le_nat_alt)
  from trap_mret_roundtrip [OF cpu_inv_init this _ refl x] x show ?thesis
    by (simp add: CPUState_init_def)
qed

text \<open>
  C16. A trap delegated to supervisor mode is undone by SRET in the same way, unless machine
  mode traps SRET (TSR), in which case it is an illegal instruction.
\<close>

theorem trap_sret_roundtrip:
  assumes "cpu_inv s" and "trap_delegated s c" and "d_type d = I_SRET"
    and "t = take_trap c tv s"
    and "execute m d (t\<lparr>pc := next_pc t\<rparr>) e = (r, s', e')"
  shows "if mstatus (csr s) AND MSTATUS_TSR = 0
    then \<not> exception r \<and> e' = e \<and> next_pc s' = pc s AND NOT 1 \<and> priv s' = priv s \<and> regs s' = regs s \<and>
      lr_sc s' = lr_sc s \<and> mstatus (csr s') = (mstatus (csr s) AND NOT MSTATUS_SPP) OR MSTATUS_SPIE
    else exception r \<and> cause r = CAUSE_ILLEGAL_INSTR \<and> tval r = d_raw d \<and> csr s' = csr t"
proof -
  have p: "priv s = PRV_U \<or> priv s = PRV_S"
    using assms(1,2) by (auto simp: cpu_inv_def trap_delegated_def Let_def word_le_nat_alt split: if_splits)
  show ?thesis
    using assms(2-5) sret_undoes_trap [OF p] p
    by (auto simp: execute_def Let_def exec_sret_def exec_done_def csr_illegal_def make_exception_def
        take_trap_def ExecResult_init_def)
qed

theorem trap_sret_roundtrip_witness:
  "\<exists>r s'. execute \<lparr>mem_read = (\<lambda>a n s e. (0, s, e)), mem_write = (\<lambda>a v n s e. (s, e)),
       on_satp_write = (\<lambda>s e. (s, e))\<rparr> (DecodedInstr_init\<lparr>d_type := I_SRET\<rparr>)
       ((take_trap CAUSE_ECALL_U 0 (CPUState_init\<lparr>pc := 0x100, priv := 0, csr := CSRFile_init\<lparr>medeleg := 0x100\<rparr>\<rparr>))
        \<lparr>pc := next_pc (take_trap CAUSE_ECALL_U 0
          (CPUState_init\<lparr>pc := 0x100, priv := 0, csr := CSRFile_init\<lparr>medeleg := 0x100\<rparr>\<rparr>))\<rparr>) () = (r, s', ()) \<and>
     next_pc s' = 0x100 \<and> priv s' = PRV_U"
  (is "\<exists>r s'. ?x = (r, s', ()) \<and> _")
proof -
  let ?s = "CPUState_init\<lparr>pc := 0x100, priv := 0, csr := CSRFile_init\<lparr>medeleg := 0x100\<rparr>\<rparr>"
  obtain r s' e' where x: "?x = (r, s', e')" by (metis prod_cases3)
  have i: "cpu_inv ?s"
    using cpu_inv_init [of "0x100"] by (simp add: cpu_inv_def CPUState_init_def csr_inv_def CSRFile_init_def)
  have "trap_delegated ?s CAUSE_ECALL_U"
    by (simp add: trap_delegated_def CSRFile_init_def)
  from trap_sret_roundtrip [OF i this _ refl x] x show ?thesis
    by (simp add: CPUState_init_def CSRFile_init_def)
qed

end
