(* ===== verification/MMU.thy ===== *)
theory MMU
  imports RV32_Defs "HOL-Library.AList"
begin

text \<open>
  Model of \<open>src/src/cpu/mmu.h\<close> and \<open>src/src/cpu/mmu.cpp\<close>: Sv32 address translation with a
  64-entry TLB and hardware update of the accessed and dirty bits.

  The page-table memory is reached through the callbacks \<open>mem_read\<close> and \<open>mem_write\<close> of the
  class, here the fields of \<open>PTMem\<close>, which thread the state behind them. The TLB is a
  \<open>std::unordered_map\<close>, modelled as an association list. When it is full the source erases
  \<open>tlb_.begin()\<close>, whose position the C++ standard leaves open: the parameter \<open>tlb_begin\<close>
  gives its key.

  The reference is a TLB-free two-level lookup on an ideal word memory. The main results: the
  TLB never exceeds its capacity; a coherent TLB is invisible (every translation returns exactly
  what the reference lookup gives) and stays coherent; translation changes nothing in memory but
  accessed and dirty bits.
\<close>

unbundle bit_operations_syntax

section \<open>Data\<close>

datatype AccessType = FETCH | LOAD | STORE

record MMUResult =
  res_paddr :: u32
  res_fault :: bool
  res_cause :: u32

record TLBEntry =
  ppn :: u32
  pte_flags :: u32
  is_superpage :: bool

type_synonym tlb = "(u32 \<times> TLBEntry) list"

record 'm PTMem =
  pt_read :: "u32 \<Rightarrow> 'm \<Rightarrow> u32 \<times> 'm"
  pt_write :: "u32 \<Rightarrow> u32 \<Rightarrow> 'm \<Rightarrow> 'm"

abbreviation (input) PAGE_SHIFT :: nat where "PAGE_SHIFT \<equiv> 12"
abbreviation (input) PAGE_SIZE :: u32 where "PAGE_SIZE \<equiv> 0x1000"
abbreviation (input) VPN_BITS :: nat where "VPN_BITS \<equiv> 10"
abbreviation (input) VPN_MASK :: u32 where "VPN_MASK \<equiv> 0x3FF"
abbreviation (input) TLB_SIZE :: nat where "TLB_SIZE \<equiv> 64"

section \<open>Translation\<close>

fun fault_cause :: "AccessType \<Rightarrow> u32" where
  "fault_cause FETCH = CAUSE_FETCH_PAGE_FAULT"
| "fault_cause LOAD = CAUSE_LOAD_PAGE_FAULT"
| "fault_cause STORE = CAUSE_STORE_PAGE_FAULT"

definition check_permissions :: "u32 \<Rightarrow> AccessType \<Rightarrow> u8 \<Rightarrow> u32 \<Rightarrow> bool" where
  "check_permissions pte type pv ms =
     (let user_page = (pte AND PTE_U \<noteq> 0)
      in if pv = PRV_U \<and> \<not> user_page then False
         else if pv = PRV_S \<and> user_page \<and> \<not> (ms AND MSTATUS_SUM \<noteq> 0) then False
         else case type of
             FETCH \<Rightarrow> if pv = PRV_S \<and> user_page then False else pte AND PTE_X \<noteq> 0
           | LOAD \<Rightarrow> if ms AND MSTATUS_MXR \<noteq> 0 then pte AND (PTE_R OR PTE_X) \<noteq> 0
                     else pte AND PTE_R \<noteq> 0
           | STORE \<Rightarrow> pte AND PTE_W \<noteq> 0)"

definition mmu_ok :: "u32 \<Rightarrow> MMUResult" where
  "mmu_ok pa = \<lparr>res_paddr = pa, res_fault = False, res_cause = 0\<rparr>"

definition mmu_fault :: "AccessType \<Rightarrow> MMUResult" where
  "mmu_fault type = \<lparr>res_paddr = 0, res_fault = True, res_cause = fault_cause type\<rparr>"

definition phys_addr :: "bool \<Rightarrow> u32 \<Rightarrow> u32 \<Rightarrow> u32" where
  "phys_addr superpage n vaddr =
     (if superpage then push_bit PAGE_SHIFT (n AND NOT 0x3FF) OR (vaddr AND 0x003FFFFF)
      else push_bit PAGE_SHIFT n OR (vaddr AND (PAGE_SIZE - 1)))"

definition tlb_insert :: "(tlb \<Rightarrow> u32) \<Rightarrow> u32 \<Rightarrow> TLBEntry \<Rightarrow> tlb \<Rightarrow> tlb" where
  "tlb_insert tlb_begin key e t =
     (let t' = (if length t \<ge> TLB_SIZE then AList.delete (tlb_begin t) t else t)
      in AList.update key e t')"

text \<open>
  The leaf case of the loop body: permissions, alignment of superpages, A/D update, TLB fill.
\<close>

definition walk_leaf :: "'m PTMem \<Rightarrow> (tlb \<Rightarrow> u32) \<Rightarrow> u32 \<Rightarrow> AccessType \<Rightarrow> u8 \<Rightarrow> u32 \<Rightarrow>
    nat \<Rightarrow> u32 \<Rightarrow> u32 \<Rightarrow> tlb \<Rightarrow> 'm \<Rightarrow> MMUResult \<times> tlb \<times> 'm" where
  "walk_leaf M tlb_begin vaddr type pv ms level pte_addr pte t m =
     (if \<not> check_permissions pte type pv ms then (mmu_fault type, t, m)
      else
        let n = drop_bit PTE_PPN_SHIFT pte; superpage = (level = 1)
        in if superpage \<and> n AND VPN_MASK \<noteq> 0 then (mmu_fault type, t, m)
           else
             let required = PTE_A OR (if type = STORE then PTE_D else 0);
                 (pte', m') = (if pte AND required \<noteq> required
                               then (pte OR required, pt_write M pte_addr (pte OR required) m)
                               else (pte, m));
                 t' = tlb_insert tlb_begin (drop_bit PAGE_SHIFT vaddr)
                        \<lparr>ppn = n, pte_flags = pte' AND 0xFF, is_superpage = superpage\<rparr> t
             in (mmu_ok (phys_addr superpage n vaddr), t', m'))"

text \<open>The first argument after the access is the number of iterations the \<open>for\<close> loop has left.\<close>

fun walk_loop :: "'m PTMem \<Rightarrow> (tlb \<Rightarrow> u32) \<Rightarrow> u32 \<Rightarrow> AccessType \<Rightarrow> u8 \<Rightarrow> u32 \<Rightarrow>
    nat \<Rightarrow> u32 \<Rightarrow> nat \<Rightarrow> tlb \<Rightarrow> 'm \<Rightarrow> MMUResult \<times> tlb \<times> 'm" where
  "walk_loop M tlb_begin vaddr type pv ms 0 a level t m = (mmu_fault type, t, m)"
| "walk_loop M tlb_begin vaddr type pv ms (Suc left) a level t m =
     (let vpn = (if level = 0 then drop_bit PAGE_SHIFT vaddr AND VPN_MASK
                 else drop_bit (PAGE_SHIFT + VPN_BITS) vaddr AND VPN_MASK);
          pte_addr = a + vpn * 4;
          (pte, m1) = pt_read M pte_addr m
      in if \<not> (pte AND PTE_V \<noteq> 0) then (mmu_fault type, t, m1)
         else if \<not> (pte AND PTE_R \<noteq> 0) \<and> pte AND PTE_W \<noteq> 0 then (mmu_fault type, t, m1)
         else if pte AND (PTE_R OR PTE_W OR PTE_X) \<noteq> 0 then
           walk_leaf M tlb_begin vaddr type pv ms level pte_addr pte t m1
         else if level = 0 then (mmu_fault type, t, m1)
         else walk_loop M tlb_begin vaddr type pv ms left
                (drop_bit PTE_PPN_SHIFT pte * PAGE_SIZE) (level - 1) t m1)"

definition walk :: "'m PTMem \<Rightarrow> (tlb \<Rightarrow> u32) \<Rightarrow> u32 \<Rightarrow> AccessType \<Rightarrow> u8 \<Rightarrow> u32 \<Rightarrow> u32 \<Rightarrow>
    tlb \<Rightarrow> 'm \<Rightarrow> MMUResult \<times> tlb \<times> 'm" where
  "walk M tlb_begin vaddr type pv sa ms t m =
     (let root_ppn = sa AND SATP_PPN_MASK
      in walk_loop M tlb_begin vaddr type pv ms 2 (root_ppn * PAGE_SIZE) 1 t m)"

definition translate :: "'m PTMem \<Rightarrow> (tlb \<Rightarrow> u32) \<Rightarrow> u32 \<Rightarrow> AccessType \<Rightarrow> u8 \<Rightarrow> u32 \<Rightarrow> u32 \<Rightarrow>
    tlb \<Rightarrow> 'm \<Rightarrow> MMUResult \<times> tlb \<times> 'm" where
  "translate M tlb_begin vaddr type pv sa ms t m =
     (if drop_bit SATP_MODE_SHIFT sa = SATP_MODE_BARE then (mmu_ok vaddr, t, m)
      else case map_of t (drop_bit PAGE_SHIFT vaddr) of
             Some e \<Rightarrow>
               if check_permissions (pte_flags e) type pv ms
               then (mmu_ok (phys_addr (is_superpage e) (ppn e) vaddr), t, m)
               else (mmu_fault type, t, m)
           | None \<Rightarrow> walk M tlb_begin vaddr type pv sa ms t m)"

definition flush_tlb :: "tlb \<Rightarrow> tlb" where
  "flush_tlb t = []"

section \<open>Capacity\<close>

definition tlb_inv :: "tlb \<Rightarrow> bool" where
  "tlb_inv t = (distinct (map fst t) \<and> length t \<le> TLB_SIZE)"

definition begin_ok :: "(tlb \<Rightarrow> u32) \<Rightarrow> bool" where
  "begin_ok tlb_begin = (\<forall>t. t \<noteq> [] \<longrightarrow> tlb_begin t \<in> fst ` set t)"

lemma length_update_le: "length (AList.update k v t) \<le> Suc (length t)"
  by (induction t) auto

lemma length_delete_less: "k \<in> fst ` set t \<Longrightarrow> length (AList.delete k t) < length t"
  unfolding AList.delete_eq by (induction t) (auto intro: le_imp_less_Suc)

lemma tlb_insert_inv:
  assumes "tlb_inv t" and "begin_ok b"
  shows "tlb_inv (tlb_insert b k e t)"
proof -
  have "length (AList.delete (b t) t) < TLB_SIZE" if "length t = TLB_SIZE"
  proof -
    have "t \<noteq> []" using that by auto
    then have "b t \<in> fst ` set t" using assms(2) by (simp add: begin_ok_def)
    from length_delete_less [OF this] that show ?thesis by simp
  qed
  with assms(1) length_update_le [of k e t] length_update_le [of k e "AList.delete (b t) t"]
  show ?thesis
    by (auto simp: tlb_insert_def tlb_inv_def Let_def AList.distinct_update AList.distinct_delete)
qed

lemma walk_leaf_inv:
  "walk_leaf M b va ty pv ms l pa p t m = (r, t', m') \<Longrightarrow> tlb_inv t \<Longrightarrow> begin_ok b \<Longrightarrow> tlb_inv t'"
  by (auto simp: walk_leaf_def Let_def tlb_insert_inv split: if_splits)

lemma walk_loop_inv:
  "walk_loop M b va ty pv ms n a l t m = (r, t', m') \<Longrightarrow> tlb_inv t \<Longrightarrow> begin_ok b \<Longrightarrow> tlb_inv t'"
  by (induction M b va ty pv ms n a l t m rule: walk_loop.induct)
    (auto simp: Let_def walk_leaf_inv split: if_splits prod.splits)

lemma translate_inv:
  "translate M b va ty pv sa ms t m = (r, t', m') \<Longrightarrow> tlb_inv t \<Longrightarrow> begin_ok b \<Longrightarrow> tlb_inv t'"
  by (auto simp: translate_def walk_def Let_def walk_loop_inv split: if_splits option.splits)

section \<open>Reference lookup\<close>

text \<open>An ideal word memory, and the two-level lookup of the leaf entry of a virtual page.\<close>

definition word_mem :: "(u32 \<Rightarrow> u32) PTMem" where
  "word_mem = \<lparr>pt_read = (\<lambda>a m. (m a, m)), pt_write = (\<lambda>a v m. m(a := v))\<rparr>"

definition pte_wellformed :: "u32 \<Rightarrow> bool" where
  "pte_wellformed p = (bit p 0 \<and> (bit p 2 \<longrightarrow> bit p 1))"

definition pte_leaf :: "u32 \<Rightarrow> bool" where
  "pte_leaf p = (bit p 1 \<or> bit p 2 \<or> bit p 3)"

definition sv32_lookup :: "(u32 \<Rightarrow> u32) \<Rightarrow> u32 \<Rightarrow> u32 \<Rightarrow> (u32 \<times> bool) option" where
  "sv32_lookup mem sa vpn =
     (let a1 = (sa AND SATP_PPN_MASK) * PAGE_SIZE + (drop_bit 10 vpn AND 0x3FF) * 4; p1 = mem a1
      in if \<not> pte_wellformed p1 then None
         else if pte_leaf p1 then (if drop_bit 10 p1 AND 0x3FF = 0 then Some (a1, True) else None)
         else
           let a0 = drop_bit 10 p1 * PAGE_SIZE + (vpn AND 0x3FF) * 4; p0 = mem a0
           in if pte_wellformed p0 \<and> pte_leaf p0 then Some (a0, False) else None)"

definition ref_translate :: "(u32 \<Rightarrow> u32) \<Rightarrow> u32 \<Rightarrow> AccessType \<Rightarrow> u8 \<Rightarrow> u32 \<Rightarrow> u32 \<Rightarrow> MMUResult" where
  "ref_translate mem vaddr type pv sa ms =
     (case sv32_lookup mem sa (drop_bit PAGE_SHIFT vaddr) of
        None \<Rightarrow> mmu_fault type
      | Some (a, superpage) \<Rightarrow>
          if check_permissions (mem a) type pv ms
          then mmu_ok (phys_addr superpage (drop_bit 10 (mem a)) vaddr) else mmu_fault type)"

text \<open>Equality of entries up to the accessed and dirty bits.\<close>

definition same_pte :: "u32 \<Rightarrow> u32 \<Rightarrow> bool" where
  "same_pte p q = (\<forall>n. n \<noteq> 6 \<and> n \<noteq> 7 \<longrightarrow> bit p n = bit q n)"

text \<open>Every TLB entry agrees with the page tables, accessed and dirty bits apart.\<close>

definition tlb_coherent :: "(u32 \<Rightarrow> u32) \<Rightarrow> u32 \<Rightarrow> tlb \<Rightarrow> bool" where
  "tlb_coherent mem sa t =
     (\<forall>vpn e. map_of t vpn = Some e \<longrightarrow>
        (\<exists>a. sv32_lookup mem sa vpn = Some (a, is_superpage e) \<and> ppn e = drop_bit 10 (mem a) \<and>
          same_pte (pte_flags e) (mem a AND 0xFF)))"

section \<open>Entries up to accessed and dirty bits\<close>

lemma pte_bit_tests:
  "p AND PTE_V = 0 \<longleftrightarrow> \<not> bit p 0" "p AND PTE_R = 0 \<longleftrightarrow> \<not> bit p 1" "p AND PTE_W = 0 \<longleftrightarrow> \<not> bit p 2"
  "p AND PTE_X = 0 \<longleftrightarrow> \<not> bit p 3" "p AND PTE_U = 0 \<longleftrightarrow> \<not> bit p 4" for p :: u32
  by (simp_all add: and_mask_bit_iff [of _ 0] and_mask_bit_iff [of _ 1] and_mask_bit_iff [of _ 2]
      and_mask_bit_iff [of _ 3] and_mask_bit_iff [of _ 4])

lemma pte_mask_tests:
  "p AND (PTE_R OR PTE_W OR PTE_X) = 0 \<longleftrightarrow> \<not> pte_leaf p"
  "p AND (PTE_R OR PTE_X) = 0 \<longleftrightarrow> \<not> bit p 1 \<and> \<not> bit p 3" for p :: u32
  unfolding u32_eq_bits by (auto simp: pte_leaf_def bitwise)

lemma same_pte_refl [simp]: "same_pte p p"
  by (simp add: same_pte_def)

lemma same_pteD:
  assumes "same_pte p q"
  shows "pte_wellformed p = pte_wellformed q" "pte_leaf p = pte_leaf q"
    "drop_bit 10 p = drop_bit 10 q" "check_permissions p ty pv ms = check_permissions q ty pv ms"
proof -
  have b: "bit p n = bit q n" if "n \<noteq> 6" "n \<noteq> 7" for n
    using assms that by (simp add: same_pte_def)
  show "pte_wellformed p = pte_wellformed q" "pte_leaf p = pte_leaf q"
    by (simp_all add: pte_wellformed_def pte_leaf_def b)
  show "drop_bit 10 p = drop_bit 10 q" by (rule bit_word_eqI) (simp add: bit_simps b)
  show "check_permissions p ty pv ms = check_permissions q ty pv ms"
    unfolding check_permissions_def Let_def pte_mask_tests pte_bit_tests by (simp add: b cong: AccessType.case_cong)
qed

lemma bit_accessed_dirty: "bit PTE_A n \<longleftrightarrow> n = 6" "bit PTE_D n \<longleftrightarrow> n = 7"
  using bit_exp_iff [of 6 n, where 'a = "32 word"] bit_exp_iff [of 7 n, where 'a = "32 word"]
  by auto

lemma same_pte_required: "same_pte (p OR (PTE_A OR (if b then PTE_D else 0))) p"
  by (auto simp only: same_pte_def bit_or_iff bit_accessed_dirty bit_0_eq split: if_splits)

lemma same_pte_low: "same_pte p q \<Longrightarrow> same_pte (p AND 0xFF) (q AND 0xFF)"
  by (simp add: same_pte_def bit_simps)

lemma check_permissions_low: "check_permissions (p AND 0xFF) ty pv ms = check_permissions p ty pv ms"
  unfolding check_permissions_def Let_def pte_mask_tests pte_bit_tests
  by (simp add: bit_simps cong: AccessType.case_cong)

lemma sv32_lookup_cong:
  assumes "\<And>a. same_pte (mem' a) (mem a)"
  shows "sv32_lookup mem' sa vpn = sv32_lookup mem sa vpn"
  by (simp add: sv32_lookup_def Let_def same_pteD [OF assms])

lemma tlb_coherent_cong:
  assumes "\<And>a. same_pte (mem' a) (mem a)" and "tlb_coherent mem sa t"
  shows "tlb_coherent mem' sa t"
  unfolding tlb_coherent_def
proof (intro allI impI)
  fix vpn e
  assume "map_of t vpn = Some e"
  then obtain a where "sv32_lookup mem sa vpn = Some (a, is_superpage e)" "ppn e = drop_bit 10 (mem a)"
    "same_pte (pte_flags e) (mem a AND 0xFF)"
    using assms(2) by (auto simp: tlb_coherent_def)
  moreover have "same_pte (pte_flags e) (mem' a AND 0xFF)"
    using calculation(3) same_pte_low [OF assms(1) [of a]] by (simp add: same_pte_def)
  ultimately show "\<exists>a. sv32_lookup mem' sa vpn = Some (a, is_superpage e) \<and> ppn e = drop_bit 10 (mem' a) \<and>
      same_pte (pte_flags e) (mem' a AND 0xFF)"
    using sv32_lookup_cong [OF assms(1)] same_pteD(3) [OF assms(1) [of a]] by simp
qed

section \<open>The walk is the reference lookup\<close>

lemma word_mem_sel [simp]: "pt_read word_mem a m = (m a, m)" "pt_write word_mem a v m = m(a := v)"
  by (simp_all add: word_mem_def)

lemma walk_step_word_mem:
  "walk_loop word_mem b va ty pv ms (Suc n) a l t mem =
    (let pa = a + (if l = 0 then drop_bit 12 va AND 0x3FF else drop_bit 22 va AND 0x3FF) * 4
     in if \<not> pte_wellformed (mem pa) then (mmu_fault ty, t, mem)
        else if pte_leaf (mem pa) then walk_leaf word_mem b va ty pv ms l pa (mem pa) t mem
        else if l = 0 then (mmu_fault ty, t, mem)
        else walk_loop word_mem b va ty pv ms n (drop_bit 10 (mem pa) * PAGE_SIZE) (l - 1) t mem)"
  unfolding walk_loop.simps(2) Let_def pte_mask_tests pte_bit_tests word_mem_sel
  by (simp add: pte_wellformed_def)

lemma walk_leaf_misaligned:
  "drop_bit 10 p AND 0x3FF \<noteq> 0 \<Longrightarrow> walk_leaf M b va ty pv ms (Suc 0) pa p t m = (mmu_fault ty, t, m)"
  by (simp add: walk_leaf_def)

lemma walk_word_mem:
  "walk word_mem b va ty pv sa ms t mem =
    (case sv32_lookup mem sa (drop_bit PAGE_SHIFT va) of
       None \<Rightarrow> (mmu_fault ty, t, mem)
     | Some (a, superpage) \<Rightarrow>
         walk_leaf word_mem b va ty pv ms (if superpage then 1 else 0) a (mem a) t mem)"
  unfolding walk_def numeral_2_eq_2 walk_step_word_mem
  by (simp add: Let_def sv32_lookup_def walk_leaf_misaligned)

lemma tlb_insert_coherent:
  assumes "tlb_coherent mem sa t"
    and "sv32_lookup mem sa k = Some (a, is_superpage e)" "ppn e = drop_bit 10 (mem a)"
      "same_pte (pte_flags e) (mem a AND 0xFF)"
  shows "tlb_coherent mem sa (tlb_insert b k e t)"
  using assms
  by (auto simp: tlb_coherent_def tlb_insert_def Let_def AList.update_conv' AList.delete_conv'
      split: if_splits)

definition touch_pte :: "AccessType \<Rightarrow> u32 \<Rightarrow> u32" where
  "touch_pte ty p = (let req = PTE_A OR (if ty = STORE then PTE_D else 0)
     in if p AND req \<noteq> req then p OR req else p)"

lemma same_pte_touch: "same_pte (touch_pte ty p) p"
  by (simp only: touch_pte_def Let_def same_pte_required same_pte_refl split: if_split) simp

lemma walk_leaf_granted:
  assumes "check_permissions (mem a) ty pv ms" and "l = 1 \<Longrightarrow> drop_bit 10 (mem a) AND 0x3FF = 0"
  shows "walk_leaf word_mem b va ty pv ms l a (mem a) t mem =
    (mmu_ok (phys_addr (l = 1) (drop_bit 10 (mem a)) va),
     tlb_insert b (drop_bit PAGE_SHIFT va)
       \<lparr>ppn = drop_bit 10 (mem a), pte_flags = touch_pte ty (mem a) AND 0xFF, is_superpage = (l = 1)\<rparr> t,
     mem(a := touch_pte ty (mem a)))"
  using assms unfolding walk_leaf_def touch_pte_def Let_def word_mem_sel
  by (cases "mem a AND (PTE_A OR (if ty = STORE then PTE_D else 0)) \<noteq> PTE_A OR (if ty = STORE then PTE_D else 0)")
    (simp_all only: if_True if_False simp_thms prod.case fun_upd_triv, auto)

lemma walk_leaf_word_mem:
  assumes l: "sv32_lookup mem sa (drop_bit PAGE_SHIFT va) = Some (a, superpage)"
    and w: "walk_leaf word_mem b va ty pv ms (if superpage then 1 else 0) a (mem a) t mem = (r, t', mem')"
    and c: "tlb_coherent mem sa t"
  shows "r = ref_translate mem va ty pv sa ms \<and> (\<forall>x. same_pte (mem' x) (mem x)) \<and> tlb_coherent mem' sa t'"
proof (cases "check_permissions (mem a) ty pv ms")
  case False
  with w l c show ?thesis by (simp add: walk_leaf_def ref_translate_def)
next
  case True
  have al: "superpage \<Longrightarrow> drop_bit 10 (mem a) AND 0x3FF = 0"
    using l by (auto simp: sv32_lookup_def Let_def split: if_splits)
  have res: "r = mmu_ok (phys_addr superpage (drop_bit 10 (mem a)) va)" "mem' = mem(a := touch_pte ty (mem a))"
    "t' = tlb_insert b (drop_bit PAGE_SHIFT va)
      \<lparr>ppn = drop_bit 10 (mem a), pte_flags = touch_pte ty (mem a) AND 0xFF, is_superpage = superpage\<rparr> t"
    using w walk_leaf_granted [of mem a ty pv ms "if superpage then 1 else 0" b va t] True al
    by (cases superpage; simp)+
  have same: "same_pte (mem' x) (mem x)" for x by (simp add: res same_pte_touch)
  have lk: "sv32_lookup mem' sa (drop_bit PAGE_SHIFT va) = Some (a, superpage)"
    using l sv32_lookup_cong [OF same] by simp
  have "tlb_coherent mem' sa t'"
    unfolding res(3)
    by (rule tlb_insert_coherent [OF tlb_coherent_cong [OF same c], of _ a], simp_all only: TLBEntry.select_convs lk)
      (simp_all add: res(2) same_pteD(3) [OF same_pte_touch])
  with same True l res(1) show ?thesis by (simp add: ref_translate_def)
qed

lemma translate_lookup:
  assumes "bit sa 31" and "tlb_coherent mem sa t"
    and "translate word_mem tlb_begin va ty pv sa ms t mem = (r, t', mem')"
  shows "r = ref_translate mem va ty pv sa ms \<and> tlb_coherent mem' sa t' \<and>
    (\<forall>x. same_pte (mem' x) (mem x))"
proof -
  have "bit (drop_bit 31 sa) 0" using assms(1) by (simp add: bit_simps)
  then have "drop_bit 31 sa \<noteq> 0" by auto
  note tr = assms(3) [unfolded translate_def, simplified this if_False]
  show ?thesis
  proof (cases "map_of t (drop_bit PAGE_SHIFT va)")
    case None
    show ?thesis
    proof (cases "sv32_lookup mem sa (drop_bit PAGE_SHIFT va)")
      case l: (Some x)
      obtain a superpage where "x = (a, superpage)" by (cases x)
      with l None tr walk_leaf_word_mem [OF _ _ assms(2), of va a superpage tlb_begin ty pv ms r t' mem']
      show ?thesis by (simp add: walk_word_mem)
    qed (use None tr assms(2) in \<open>simp add: walk_word_mem ref_translate_def\<close>)
  next
    case (Some e)
    then obtain a where a: "sv32_lookup mem sa (drop_bit PAGE_SHIFT va) = Some (a, is_superpage e)"
      "ppn e = drop_bit 10 (mem a)" "same_pte (pte_flags e) (mem a AND 0xFF)"
      using assms(2) by (auto simp: tlb_coherent_def)
    with Some tr assms(2) show ?thesis
      by (auto simp: ref_translate_def same_pteD(4) [OF a(3)] check_permissions_low split: if_splits)
  qed
qed

text \<open>
  C17. The TLB is transparent. On page tables in an ideal memory, and with a TLB that is coherent
  for the current \<open>satp\<close>, every translation (hit or miss, any access type, privilege and
  \<open>mstatus\<close>) returns exactly the address or page fault that the TLB-free reference lookup gives;
  the TLB stays coherent, and memory changes at most in accessed and dirty bits of page-table
  entries.
\<close>

theorem translate_refines_lookup:
  assumes "bit sa 31" and "tlb_coherent mem sa t"
    and "translate word_mem tlb_begin va ty pv sa ms t mem = (r, t', mem')"
  shows "r = ref_translate mem va ty pv sa ms \<and> tlb_coherent mem' sa t' \<and>
    (\<forall>x. same_pte (mem' x) (mem x))"
  using translate_lookup [OF assms] .

theorem translate_refines_lookup_witness:
  "\<exists>t' mem'. translate word_mem (\<lambda>t. fst (hd t)) 0x10 STORE PRV_U 0x80000001 0 []
      (\<lambda>a. if a = 0x1000 then 0x1F else 0) = (mmu_ok 0x10, t', mem') \<and> tlb_coherent mem' 0x80000001 t'"
proof -
  let ?mem = "\<lambda>a :: u32. if a = 0x1000 then 0x1F else 0 :: u32"
  have bits: "bit (0x80000001 :: u32) 31" by simp
  have c: "tlb_coherent ?mem 0x80000001 []" by (simp add: tlb_coherent_def)
  obtain r t' mem' where tr: "translate word_mem (\<lambda>t. fst (hd t)) 0x10 STORE PRV_U 0x80000001 0 [] ?mem =
      (r, t', mem')" using prod_cases3 by blast
  have "ref_translate ?mem 0x10 STORE PRV_U 0x80000001 0 = mmu_ok 0x10"
    by (simp add: ref_translate_def sv32_lookup_def Let_def pte_wellformed_def pte_leaf_def
        check_permissions_def phys_addr_def)
  with translate_refines_lookup [OF bits c tr] have "r = mmu_ok 0x10" "tlb_coherent mem' 0x80000001 t'"
    by simp_all
  with tr show ?thesis by (intro exI conjI) simp_all
qed

text \<open>
  The TLB keeps at most 64 entries with distinct pages through any translation, whichever
  entry the standard library considers the first one when the full table has to evict.
\<close>

theorem translate_keeps_tlb_capacity:
  assumes "tlb_inv t" and "begin_ok tlb_begin"
    and "translate M tlb_begin va ty pv sa ms t m = (r, t', m')"
  shows "distinct (map fst t') \<and> length t' \<le> TLB_SIZE"
  using translate_inv [OF assms(3,1,2)] by (simp add: tlb_inv_def)

theorem translate_keeps_tlb_capacity_witness:
  "length (fst (snd (translate word_mem (\<lambda>t. fst (hd t)) 0x00001234 LOAD PRV_S 0x80000001 0
    (map (\<lambda>i. (of_nat i, \<lparr>ppn = 0, pte_flags = 0, is_superpage = False\<rparr>)) [100..<164])
    (\<lambda>a. 0)))) \<le> TLB_SIZE"
proof -
  let ?t = "map (\<lambda>i. (of_nat i :: u32, \<lparr>ppn = 0, pte_flags = 0, is_superpage = False\<rparr>)) [100..<164]"
  have "inj_on (of_nat :: nat \<Rightarrow> u32) {100..<164}"
    by (rule inj_onI) (simp add: word_of_nat_eq_iff take_bit_nat_eq_self)
  then have i: "tlb_inv ?t" by (simp add: tlb_inv_def distinct_map comp_def)
  have b: "begin_ok (\<lambda>t. fst (hd t))" by (simp add: begin_ok_def)
  obtain r t' m' where "translate word_mem (\<lambda>t. fst (hd t)) 0x00001234 LOAD PRV_S 0x80000001 0 ?t (\<lambda>a. 0) =
      (r, t', m')" using prod_cases3 by blast
  with translate_keeps_tlb_capacity [OF i b this] show ?thesis by simp
qed

section \<open>Protection\<close>

lemma ref_translate_grants:
  assumes "\<not> res_fault (ref_translate mem va ty pv sa ms)"
  shows "\<exists>a superpage. sv32_lookup mem sa (drop_bit PAGE_SHIFT va) = Some (a, superpage) \<and>
    bit (mem a) 0 \<and>
    (ty = FETCH \<longrightarrow> bit (mem a) 3) \<and> (ty = STORE \<longrightarrow> bit (mem a) 1 \<and> bit (mem a) 2) \<and>
    (ty = LOAD \<longrightarrow> bit (mem a) 1 \<or> bit ms 19 \<and> bit (mem a) 3) \<and>
    (pv = PRV_U \<longrightarrow> bit (mem a) 4) \<and>
    (pv = PRV_S \<and> bit (mem a) 4 \<longrightarrow> ty \<noteq> FETCH \<and> bit ms 18)"
proof -
  have ms: "ms AND MSTATUS_SUM = 0 \<longleftrightarrow> \<not> bit ms 18" "ms AND MSTATUS_MXR = 0 \<longleftrightarrow> \<not> bit ms 19"
    by (simp_all add: and_mask_bit_iff [of _ 18] and_mask_bit_iff [of _ 19])
  from assms obtain a superpage where l: "sv32_lookup mem sa (drop_bit PAGE_SHIFT va) = Some (a, superpage)"
    and p: "check_permissions (mem a) ty pv ms"
    by (auto simp: ref_translate_def mmu_fault_def split: option.splits if_splits)
  have "pte_wellformed (mem a)"
    using l by (auto simp: sv32_lookup_def Let_def split: if_splits)
  with l p show ?thesis
    unfolding check_permissions_def Let_def pte_mask_tests pte_bit_tests ms pte_wellformed_def
    by (cases ty) (auto split: if_splits)
qed

text \<open>
  C18. Translation enforces the page protections, on a TLB hit as on a walk: with a TLB that is
  coherent with the page tables in an ideal memory, an access that \<open>translate\<close> allows has a valid
  leaf entry for its page that grants the kind of access, user code reaches user pages only, and
  supervisor code neither executes user pages nor touches them without SUM.
\<close>

theorem translate_protects:
  assumes "bit sa 31" and "tlb_coherent mem sa t"
    and "translate word_mem tlb_begin va ty pv sa ms t mem = (r, t', mem')" and "\<not> res_fault r"
  shows "\<exists>a superpage. sv32_lookup mem sa (drop_bit PAGE_SHIFT va) = Some (a, superpage) \<and>
    bit (mem a) 0 \<and>
    (ty = FETCH \<longrightarrow> bit (mem a) 3) \<and> (ty = STORE \<longrightarrow> bit (mem a) 1 \<and> bit (mem a) 2) \<and>
    (ty = LOAD \<longrightarrow> bit (mem a) 1 \<or> bit ms 19 \<and> bit (mem a) 3) \<and>
    (pv = PRV_U \<longrightarrow> bit (mem a) 4) \<and>
    (pv = PRV_S \<and> bit (mem a) 4 \<longrightarrow> ty \<noteq> FETCH \<and> bit ms 18)"
  using translate_lookup [OF assms(1-3)] assms(4) ref_translate_grants by simp

theorem translate_protects_witness:
  "\<exists>r t' mem' a superpage. translate word_mem (\<lambda>t. fst (hd t)) 0x10 STORE PRV_U 0x80000001 0
      [(0, \<lparr>ppn = 0, pte_flags = 0x1F, is_superpage = True\<rparr>)] (\<lambda>a. if a = 0x1000 then 0x1F else 0) = (r, t', mem') \<and>
    \<not> res_fault r \<and>
    sv32_lookup (\<lambda>a. if a = 0x1000 then 0x1F else 0) 0x80000001 0 = Some (a, superpage)"
proof -
  let ?mem = "\<lambda>a :: u32. if a = 0x1000 then 0x1F else 0 :: u32"
  let ?t = "[(0 :: u32, \<lparr>ppn = 0, pte_flags = 0x1F, is_superpage = True\<rparr>)]"
  have c: "tlb_coherent ?mem 0x80000001 ?t"
    by (auto simp: tlb_coherent_def sv32_lookup_def Let_def pte_wellformed_def pte_leaf_def split: if_splits)
  have tr: "translate word_mem (\<lambda>t. fst (hd t)) 0x10 STORE PRV_U 0x80000001 0 ?t ?mem = (mmu_ok 0x10, ?t, ?mem)"
    by (simp add: translate_def check_permissions_def phys_addr_def)
  have "\<not> res_fault (mmu_ok 0x10)" by (simp add: mmu_ok_def)
  from translate_protects [OF _ c tr this] tr this show ?thesis by auto
qed

end
