(* ===== verification/TLM.thy ===== *)
theory TLM
  imports VP_Prelude
begin

text \<open>
  What the sources use of the TLM-2.0 generic payload and of \<open>memcpy\<close>, and the contract
  of a bus target.

  A payload carries command, address, data buffer, data length and response status. A target
  may also stop the simulation: by undefined behaviour of the host (a \<open>memcpy\<close> that leaves a
  buffer), by the exception that \<open>SC_REPORT_ERROR\<close> throws, or by the abort of
  \<open>SC_REPORT_FATAL\<close>. A transport therefore returns a \<open>stop\<close> or the payload with the new
  device state and the callbacks it invoked, in order.

  Most peripherals have the same shape, a register switch between two 4-byte copies; it is
  \<open>reg_transport\<close>, and each device supplies its switch.
\<close>

unbundle bit_operations_syntax

section \<open>Payloads\<close>

datatype tlm_command = TLM_READ | TLM_WRITE | TLM_IGNORE

datatype tlm_response = TLM_OK | TLM_INCOMPLETE | TLM_ADDRESS_ERROR | TLM_COMMAND_ERROR | TLM_BURST_ERROR

record payload =
  p_cmd :: tlm_command
  p_addr :: u64
  p_data :: "u8 list"
  p_len :: u32
  p_status :: tlm_response

datatype stop = HOST_UB | SC_ERROR | SC_FATAL

type_synonym ('d, 'ev) transport = "payload \<Rightarrow> 'd \<Rightarrow> stop + (payload \<times> 'd \<times> 'ev list)"

section \<open>Little-endian copies\<close>

primrec le_word :: "u8 list \<Rightarrow> u32" where
  "le_word [] = 0"
| "le_word (b # bs) = ucast b OR push_bit 8 (le_word bs)"

primrec le_bytes :: "nat \<Rightarrow> u32 \<Rightarrow> u8 list" where
  "le_bytes 0 w = []"
| "le_bytes (Suc n) w = ucast w # le_bytes n (drop_bit 8 w)"

text \<open>\<open>memcpy(&val, ptr, n)\<close> into a zero \<open>uint32_t\<close>, and \<open>memcpy(ptr, &val, n)\<close>.\<close>

definition copy_in :: "nat \<Rightarrow> u8 list \<Rightarrow> u32 option" where
  "copy_in n buf = (if n \<le> 4 \<and> n \<le> length buf then Some (le_word (take n buf)) else None)"

definition copy_out :: "nat \<Rightarrow> u32 \<Rightarrow> u8 list \<Rightarrow> u8 list option" where
  "copy_out n v buf = (if n \<le> 4 \<and> n \<le> length buf then Some (le_bytes n v @ drop n buf) else None)"

lemma length_le_bytes [simp]: "length (le_bytes n w) = n"
  by (induction n arbitrary: w) auto

lemma le_word_le_bytes: "le_word (le_bytes n w) = take_bit (8 * n) w"
proof (induction n arbitrary: w)
  case (Suc n)
  show ?case
    unfolding le_bytes.simps le_word.simps Suc.IH
    by (rule bit_word_eqI) (auto simp: bit_simps)
qed simp

lemma le_word_le_bytes_4 [simp]: "le_word (le_bytes 4 w) = w"
  by (simp add: le_word_le_bytes take_bit_word_eq_self)

lemma le_bytes_le_word: "length bs \<le> 4 \<Longrightarrow> le_bytes (length bs) (le_word bs) = bs"
proof (induction bs)
  case (Cons b bs)
  have bound: "\<not> bit (le_word bs) n" if "8 * length bs \<le> n" for n
    using that
  proof (induction bs arbitrary: n)
    case (Cons c cs)
    then show ?case by (auto simp: bit_simps dest: bit_imp_le_length)
  qed simp
  have 1: "ucast (ucast b OR push_bit 8 (le_word bs) :: u32) = b"
    by (rule bit_word_eqI) (auto simp: bit_simps)
  have 2: "drop_bit 8 (ucast b OR push_bit 8 (le_word bs) :: u32) = le_word bs"
    using bound Cons.prems by (intro bit_word_eqI) (auto simp: bit_simps dest: bit_imp_le_length)
  show ?case using Cons by (simp only: list.size add_Suc_right add_0_right le_word.simps le_bytes.simps 1 2)
qed simp

lemma length_copy_out: "copy_out n v buf = Some bs \<Longrightarrow> length bs = length buf"
  by (auto simp: copy_out_def split: if_splits)

section \<open>Register switches\<close>

definition reg_transport ::
    "nat \<Rightarrow> (bool \<Rightarrow> u32 \<Rightarrow> u32 \<Rightarrow> 'd \<Rightarrow> (u32 \<times> 'd \<times> 'ev list) option) \<Rightarrow> ('d, 'ev) transport" where
  "reg_transport n switch p d =
     (let is_write = (p_cmd p = TLM_WRITE); p1 = p\<lparr>p_status := TLM_OK\<rparr>
      in case (if is_write then copy_in n (p_data p) else Some 0) of
           None \<Rightarrow> Inl HOST_UB
         | Some val \<Rightarrow>
             (case switch is_write (ucast (p_addr p)) val d of
                None \<Rightarrow> Inr (p1\<lparr>p_status := TLM_ADDRESS_ERROR\<rparr>, d, [])
              | Some (val', d', evs) \<Rightarrow>
                  if is_write then Inr (p1, d', evs)
                  else (case copy_out n val' (p_data p) of
                          None \<Rightarrow> Inl HOST_UB
                        | Some bs \<Rightarrow> Inr (p1\<lparr>p_data := bs\<rparr>, d', evs))))"

text \<open>The 64-bit time registers are written in 32-bit halves.\<close>

definition set_low :: "u64 \<Rightarrow> u32 \<Rightarrow> u64" where
  "set_low w v = (w AND 0xFFFFFFFF00000000) OR ucast v"

definition set_high :: "u64 \<Rightarrow> u32 \<Rightarrow> u64" where
  "set_high w v = (w AND 0x00000000FFFFFFFF) OR push_bit 32 (ucast v)"

lemma halves [simp]:
  "ucast (set_low w v) = v" "ucast (drop_bit 32 (set_low w v)) = (ucast (drop_bit 32 w) :: u32)"
  "ucast (drop_bit 32 (set_high w v)) = v" "ucast (set_high w v) = (ucast w :: u32)"
  by (rule u32_eqI, simp add: set_low_def set_high_def bitwise)+

section \<open>The contract of a target\<close>

text \<open>An access as the processor issues it: a 4-byte buffer of which 1, 2 or 4 bytes are used.\<close>

definition cpu_access :: "payload \<Rightarrow> bool" where
  "cpu_access p = (length (p_data p) = 4 \<and> p_len p \<in> {1, 2, 4})"

definition same_request :: "payload \<Rightarrow> payload \<Rightarrow> bool" where
  "same_request p p' = (p_cmd p' = p_cmd p \<and> p_addr p' = p_addr p \<and> p_len p' = p_len p \<and>
     length (p_data p') = length (p_data p) \<and> (p_cmd p = TLM_WRITE \<longrightarrow> p_data p' = p_data p))"

text \<open>
  A target answers: it leaves the request as it is, sets a final status, never runs into
  undefined behaviour on a processor access within its \<open>span\<close> of addresses, and keeps its own
  invariant.
\<close>

locale tlm_target =
  fixes bt :: "('d, 'ev) transport" and ok :: "'d \<Rightarrow> bool" and span :: nat
  assumes request: "bt p d = Inr (p', d', evs) \<Longrightarrow> same_request p p'"
    and answered: "bt p d = Inr (p', d', evs) \<Longrightarrow> p_status p' \<noteq> TLM_INCOMPLETE"
    and defined: "ok d \<Longrightarrow> cpu_access p \<Longrightarrow> unat (p_addr p) < span \<Longrightarrow> bt p d \<noteq> Inl HOST_UB"
    and invariant: "ok d \<Longrightarrow> bt p d = Inr (p', d', evs) \<Longrightarrow> ok d'"
begin

text \<open>A processor read or write in range either completes with an answer or throws.\<close>

lemma cpu_access_completes:
  assumes "ok d" and "cpu_access p" and "unat (p_addr p) < span" and "bt p d \<noteq> Inl SC_ERROR"
    and "bt p d \<noteq> Inl SC_FATAL"
  obtains p' d' evs where "bt p d = Inr (p', d', evs)" and "cpu_access p'" and "ok d'"
    and "p_status p' \<noteq> TLM_INCOMPLETE"
proof (cases "bt p d")
  case (Inl x)
  with assms defined [of d p] show ?thesis by (cases x) auto
next
  case (Inr r)
  obtain p' d' evs where r: "r = (p', d', evs)" by (cases r)
  with Inr have eq: "bt p d = Inr (p', d', evs)" by simp
  have "cpu_access p'" using request [OF eq] assms(2) by (simp add: cpu_access_def same_request_def)
  with eq that invariant [OF assms(1) eq] answered [OF eq] show ?thesis by blast
qed

end

lemma reg_transport_request:
  "reg_transport n sw p d = Inr (p', d', evs) \<Longrightarrow> same_request p p' \<and> p_status p' \<noteq> TLM_INCOMPLETE"
  by (auto simp: reg_transport_def Let_def same_request_def
      split: option.splits if_splits dest!: length_copy_out)

lemma reg_transport_defined:
  assumes "cpu_access p" and "n \<le> 4"
  shows "reg_transport n sw p d \<noteq> Inl HOST_UB"
  using assms
  by (auto simp: reg_transport_def Let_def cpu_access_def copy_in_def copy_out_def split: option.splits)

lemma reg_transport_invariant:
  assumes "reg_transport n sw p d = Inr (p', d', evs)" and "ok d"
    and "\<And>w a v v' d' evs. sw w a v d = Some (v', d', evs) \<Longrightarrow> ok d'"
  shows "ok d'"
  using assms by (auto simp: reg_transport_def Let_def split: option.splits if_splits)

text \<open>
  A device that is a register switch, possibly behind a check of the access size, meets the
  contract as soon as its switch keeps the device's invariant.
\<close>

locale reg_device =
  fixes bt :: "('d, 'ev) transport"
    and sw :: "bool \<Rightarrow> u32 \<Rightarrow> u32 \<Rightarrow> 'd \<Rightarrow> (u32 \<times> 'd \<times> 'ev list) option"
    and width :: "payload \<Rightarrow> nat" and reject :: "payload \<Rightarrow> bool" and ok :: "'d \<Rightarrow> bool"
  assumes shape: "bt p d = (if reject p then Inr (p\<lparr>p_status := TLM_BURST_ERROR\<rparr>, d, [])
      else reg_transport (width p) sw p d)"
    and width_ok: "cpu_access p \<Longrightarrow> width p \<le> 4"
    and switch_ok: "ok d \<Longrightarrow> sw w a v d = Some (v', d', evs) \<Longrightarrow> ok d'"

sublocale reg_device \<subseteq> target: tlm_target bt ok span for span
proof
  fix p p' :: payload and d d' :: 'd and evs :: "'ev list"
  assume *: "bt p d = Inr (p', d', evs)"
  then show "same_request p p'"
    using reg_transport_request by (fastforce simp: shape same_request_def split: if_splits)
  show "p_status p' \<noteq> TLM_INCOMPLETE"
    using * reg_transport_request by (fastforce simp: shape split: if_splits)
  show "ok d'" if "ok d"
    using * that switch_ok [OF that] reg_transport_invariant [where sw = sw and ok = ok]
    by (auto simp: shape split: if_splits)
next
  fix p :: payload and d :: 'd
  assume *: "cpu_access p"
  show "bt p d \<noteq> Inl HOST_UB"
    using reg_transport_defined [OF * width_ok [OF *], of sw d] by (simp add: shape)
qed

section \<open>Interrupt lines\<close>

text \<open>
  A device drives its interrupt line by callbacks. \<open>follow\<close> is the level of a line after a
  list of callbacks, where \<open>line\<close> says which callback drives this line and to what level.
\<close>

primrec follow :: "('ev \<Rightarrow> bool option) \<Rightarrow> 'ev list \<Rightarrow> bool \<Rightarrow> bool" where
  "follow line [] l = l"
| "follow line (e # es) l = follow line es (case line e of None \<Rightarrow> l | Some b \<Rightarrow> b)"

text \<open>
  The line of a device is exact when it stands at the level that the device's registers
  determine, after every access if before it.
\<close>

locale irq_device = reg_device bt sw width reject ok
  for bt :: "('d, 'ev) transport" and sw width reject ok +
  fixes line :: "'ev \<Rightarrow> bool option" and level :: "'d \<Rightarrow> bool"
  assumes switch_line: "ok d \<Longrightarrow> sw w a v d = Some (v', d', evs) \<Longrightarrow> follow line evs (level d) = level d'"
begin

lemma transport_line:
  assumes "ok d" and "bt p d = Inr (p', d', evs)"
  shows "follow line evs (level d) = level d'"
proof (cases "reject p")
  case False
  with assms(2) have "reg_transport (width p) sw p d = Inr (p', d', evs)" by (simp add: shape)
  then consider "d' = d" "evs = []" | w v v' where "sw w (ucast (p_addr p)) v d = Some (v', d', evs)"
    by (auto simp: reg_transport_def Let_def split: option.splits if_splits)
  then show ?thesis using switch_line [OF assms(1)] by cases auto
qed (use assms in \<open>simp add: shape\<close>)

end

text \<open>A write of a word stores it, a read returns the switch's value.\<close>

lemma reg_transport_write:
  assumes "p_cmd p = TLM_WRITE" and "p_data p = le_bytes 4 v @ rest"
    and "sw True (ucast (p_addr p)) v d = Some (v', d', evs)"
  shows "reg_transport 4 sw p d = Inr (p\<lparr>p_status := TLM_OK\<rparr>, d', evs)"
  using assms by (simp add: reg_transport_def copy_in_def)

lemma reg_transport_read:
  assumes "p_cmd p = TLM_READ" and "4 \<le> length (p_data p)"
    and "sw False (ucast (p_addr p)) 0 d = Some (v', d', evs)"
  shows "reg_transport 4 sw p d =
    Inr (p\<lparr>p_status := TLM_OK, p_data := le_bytes 4 v' @ drop 4 (p_data p)\<rparr>, d', evs)"
  using assms by (simp add: reg_transport_def copy_out_def)

end
