(* ===== verification/Platform_Config.thy ===== *)
theory Platform_Config
  imports VP_Prelude
begin

text \<open>
  The constants of \<open>src/src/platform/platform_config.h\<close>: memory map, interrupt sources,
  default addresses of the multimedia blocks.
\<close>

abbreviation (input) BOOTROM_BASE :: u32 where "BOOTROM_BASE \<equiv> 0x00000000"
abbreviation (input) BOOTROM_SIZE :: u32 where "BOOTROM_SIZE \<equiv> 0x00010000"
abbreviation (input) SRAM_BASE :: u32 where "SRAM_BASE \<equiv> 0x01000000"
abbreviation (input) SRAM_SIZE :: u32 where "SRAM_SIZE \<equiv> 0x00010000"
abbreviation (input) CLINT_BASE :: u32 where "CLINT_BASE \<equiv> 0x02000000"
abbreviation (input) CLINT_SIZE :: u32 where "CLINT_SIZE \<equiv> 0x00010000"
abbreviation (input) PLIC_BASE :: u32 where "PLIC_BASE \<equiv> 0x0C000000"
abbreviation (input) PLIC_SIZE :: u32 where "PLIC_SIZE \<equiv> 0x04000000"
abbreviation (input) UART_BASE :: u32 where "UART_BASE \<equiv> 0x10000000"
abbreviation (input) UART_SIZE :: u32 where "UART_SIZE \<equiv> 0x00001000"
abbreviation (input) GPIO_BASE :: u32 where "GPIO_BASE \<equiv> 0x10001000"
abbreviation (input) GPIO_SIZE :: u32 where "GPIO_SIZE \<equiv> 0x00001000"
abbreviation (input) TIMER_BASE :: u32 where "TIMER_BASE \<equiv> 0x10002000"
abbreviation (input) TIMER_SIZE :: u32 where "TIMER_SIZE \<equiv> 0x00001000"
abbreviation (input) SPI_BASE :: u32 where "SPI_BASE \<equiv> 0x10003000"
abbreviation (input) SPI_SIZE :: u32 where "SPI_SIZE \<equiv> 0x00001000"
abbreviation (input) SD_BASE :: u32 where "SD_BASE \<equiv> 0x10004000"
abbreviation (input) SD_SIZE :: u32 where "SD_SIZE \<equiv> 0x00001000"
abbreviation (input) DMA_BASE :: u32 where "DMA_BASE \<equiv> 0x10005000"
abbreviation (input) DMA_SIZE :: u32 where "DMA_SIZE \<equiv> 0x00001000"
abbreviation (input) VIDEO_BASE :: u32 where "VIDEO_BASE \<equiv> 0x10006000"
abbreviation (input) VIDEO_SIZE :: u32 where "VIDEO_SIZE \<equiv> 0x00001000"
abbreviation (input) AUDIO_BASE :: u32 where "AUDIO_BASE \<equiv> 0x10007000"
abbreviation (input) AUDIO_SIZE :: u32 where "AUDIO_SIZE \<equiv> 0x00001000"
abbreviation (input) RAM_BASE :: u32 where "RAM_BASE \<equiv> 0x80000000"
abbreviation (input) RAM_SIZE :: u32 where "RAM_SIZE \<equiv> 0x08000000"

abbreviation (input) IRQ_UART :: u32 where "IRQ_UART \<equiv> 1"
abbreviation (input) IRQ_GPIO :: u32 where "IRQ_GPIO \<equiv> 2"
abbreviation (input) IRQ_TIMER :: u32 where "IRQ_TIMER \<equiv> 3"
abbreviation (input) IRQ_SD :: u32 where "IRQ_SD \<equiv> 4"
abbreviation (input) IRQ_DMA :: u32 where "IRQ_DMA \<equiv> 5"
abbreviation (input) IRQ_VIDEO :: u32 where "IRQ_VIDEO \<equiv> 6"
abbreviation (input) IRQ_AUDIO :: u32 where "IRQ_AUDIO \<equiv> 7"
abbreviation (input) IRQ_NUM_SOURCES :: u32 where "IRQ_NUM_SOURCES \<equiv> 8"

abbreviation (input) FB0_DEFAULT :: u32 where "FB0_DEFAULT \<equiv> 0x84000000"
abbreviation (input) FB1_DEFAULT :: u32 where "FB1_DEFAULT \<equiv> 0x84010000"
abbreviation (input) PALETTE_DEFAULT :: u32 where "PALETTE_DEFAULT \<equiv> 0x84020000"
abbreviation (input) COLORMAP_DEFAULT :: u32 where "COLORMAP_DEFAULT \<equiv> 0x84030000"
abbreviation (input) AUDIO_RING_DEFAULT :: u32 where "AUDIO_RING_DEFAULT \<equiv> 0x84040000"
abbreviation (input) AUDIO_RING_SIZE_DEFAULT :: u32 where "AUDIO_RING_SIZE_DEFAULT \<equiv> 0x1000"

end
