(* ===== verification/Memory.thy ===== *)
theory Memory
  imports TLM Platform_Config
begin

text \<open>
  Models of \<open>src/src/mem/memory.cpp\<close> (RAM) and \<open>src/src/mem/bootrom.cpp\<close> (boot ROM).
  \<open>m_data\<close> is the byte vector. The bounds check of the sources, \<open>addr + len > size_\<close>, is on
  32-bit words and may wrap; a copy that then leaves the vector is undefined behaviour of the
  host. \<open>throws\<close> says whether \<open>SC_REPORT_ERROR\<close> throws, as the SystemC report handler is
  configured to by default.
\<close>

record Memory =
  m_base :: u32
  m_size :: u32
  m_data :: "u8 list"

definition Memory_new :: "u32 \<Rightarrow> u32 \<Rightarrow> Memory" where
  "Memory_new base sz = \<lparr>m_base = base, m_size = sz, m_data = replicate (unat sz) 0\<rparr>"

text \<open>\<open>memcpy\<close> out of and into a byte vector; \<open>None\<close> when it leaves a buffer.\<close>

definition vec_read :: "u8 list \<Rightarrow> nat \<Rightarrow> nat \<Rightarrow> u8 list \<Rightarrow> u8 list option" where
  "vec_read m a n buf =
     (if a + n \<le> length m \<and> n \<le> length buf then Some (take n (drop a m) @ drop n buf) else None)"

definition vec_write :: "u8 list \<Rightarrow> nat \<Rightarrow> nat \<Rightarrow> u8 list \<Rightarrow> u8 list option" where
  "vec_write m a n buf =
     (if a + n \<le> length m \<and> n \<le> length buf then Some (take a m @ take n buf @ drop (a + n) m) else None)"

definition memory_b_transport :: "bool \<Rightarrow> (Memory, 'ev) transport" where
  "memory_b_transport throws p m =
     (let addr = ucast (p_addr p) :: u32; len = p_len p
      in if addr + len > m_size m then
           (if throws then Inl SC_ERROR else Inr (p\<lparr>p_status := TLM_ADDRESS_ERROR\<rparr>, m, []))
         else case p_cmd p of
             TLM_READ \<Rightarrow>
               (case vec_read (m_data m) (unat addr) (unat len) (p_data p) of
                  None \<Rightarrow> Inl HOST_UB
                | Some bs \<Rightarrow> Inr (p\<lparr>p_data := bs, p_status := TLM_OK\<rparr>, m, []))
           | TLM_WRITE \<Rightarrow>
               (case vec_write (m_data m) (unat addr) (unat len) (p_data p) of
                  None \<Rightarrow> Inl HOST_UB
                | Some v \<Rightarrow> Inr (p\<lparr>p_status := TLM_OK\<rparr>, m\<lparr>m_data := v\<rparr>, []))
           | TLM_IGNORE \<Rightarrow> Inr (p\<lparr>p_status := TLM_COMMAND_ERROR\<rparr>, m, []))"

record tlm_dmi =
  dmi_start :: u64
  dmi_end :: u64
  dmi_write_allowed :: bool

definition memory_get_direct_mem_ptr :: "Memory \<Rightarrow> tlm_dmi" where
  "memory_get_direct_mem_ptr m = \<lparr>dmi_start = 0, dmi_end = ucast (m_size m - 1), dmi_write_allowed = True\<rparr>"

section \<open>Boot ROM\<close>

definition bootrom_load_binary :: "u8 list option \<Rightarrow> Memory \<Rightarrow> stop + Memory" where
  "bootrom_load_binary file m =
     (case file of
        None \<Rightarrow> Inl SC_FATAL
      | Some bytes \<Rightarrow>
          if of_nat (length bytes) > m_size m then Inl SC_FATAL
          else (case vec_write (m_data m) 0 (length bytes) bytes of
                  None \<Rightarrow> Inl HOST_UB
                | Some v \<Rightarrow> Inr (m\<lparr>m_data := v\<rparr>)))"

definition bootrom_b_transport :: "bool \<Rightarrow> (Memory, 'ev) transport" where
  "bootrom_b_transport throws p m =
     (let addr = ucast (p_addr p) :: u32; len = p_len p
      in if addr + len > m_size m then
           (if throws then Inl SC_ERROR else Inr (p\<lparr>p_status := TLM_ADDRESS_ERROR\<rparr>, m, []))
         else case p_cmd p of
             TLM_READ \<Rightarrow>
               (case vec_read (m_data m) (unat addr) (unat len) (p_data p) of
                  None \<Rightarrow> Inl HOST_UB
                | Some bs \<Rightarrow> Inr (p\<lparr>p_data := bs, p_status := TLM_OK\<rparr>, m, []))
           | TLM_WRITE \<Rightarrow> Inr (p\<lparr>p_status := TLM_COMMAND_ERROR\<rparr>, m, [])
           | TLM_IGNORE \<Rightarrow> Inr (p\<lparr>p_status := TLM_COMMAND_ERROR\<rparr>, m, []))"

definition bootrom_get_direct_mem_ptr :: "Memory \<Rightarrow> tlm_dmi" where
  "bootrom_get_direct_mem_ptr m = \<lparr>dmi_start = 0, dmi_end = ucast (m_size m - 1), dmi_write_allowed = False\<rparr>"

section \<open>Contract\<close>

definition memory_ok :: "u32 \<Rightarrow> Memory \<Rightarrow> bool" where
  "memory_ok sz m = (m_size m = sz \<and> length (m_data m) = unat sz)"

lemma length_vec:
  "vec_read m a n buf = Some bs \<Longrightarrow> length bs = length buf"
  "vec_write m a n buf = Some v \<Longrightarrow> length v = length m"
  by (auto simp: vec_read_def vec_write_def split: if_splits)

lemma memory_ok_new: "memory_ok sz (Memory_new base sz)"
  by (simp add: memory_ok_def Memory_new_def)

lemma vec_read_write:
  assumes "vec_write m a n buf = Some v" and "n \<le> length buf'"
  shows "vec_read v a n buf' = Some (take n buf @ drop n buf')"
  using assms by (auto simp: vec_write_def vec_read_def split: if_splits)

text \<open>A write changes the addressed bytes and no others.\<close>

lemma nth_vec_write:
  assumes "vec_write m a n buf = Some v" and "i < length m"
  shows "v ! i = (if a \<le> i \<and> i < a + n then buf ! (i - a) else m ! i)"
proof -
  from assms(1) have v: "v = take a m @ take n buf @ drop (a + n) m" and l: "a + n \<le> length m" "n \<le> length buf"
    by (auto simp: vec_write_def split: if_splits)
  consider "i < a" | "a \<le> i" "i < a + n" | "a + n \<le> i" by linarith
  then show ?thesis
  proof cases
    case 1
    then show ?thesis using l by (simp add: v nth_append)
  next
    case 2
    then have "i - a < n" by linarith
    with 2 show ?thesis using l by (simp add: v nth_append min_def)
  next
    case 3
    then have "\<not> i - a < n" by linarith
    with 3 show ?thesis using l assms(2) by (simp add: v nth_append min_def)
  qed
qed

lemma vec_read_write_disjoint:
  assumes "vec_write m a n buf = Some v" and "b + k \<le> a \<or> a + n \<le> b"
  shows "vec_read v b k buf' = vec_read m b k buf'"
proof -
  have len: "length v = length m" using assms(1) by (rule length_vec)
  have "take k (drop b v) = take k (drop b m)" if "b + k \<le> length m"
  proof (rule nth_equalityI)
    fix i
    assume "i < length (take k (drop b v))"
    then have i: "i < k" "b + i < length m" using len by auto
    then show "take k (drop b v) ! i = take k (drop b m) ! i"
      using nth_vec_write [OF assms(1) i(2)] assms(2) len by auto
  qed (simp add: len)
  then show ?thesis by (simp add: vec_read_def len)
qed

lemma addr_in_range:
  assumes "unat (p_addr p) < unat sz" and "p_len p \<in> {1, 2, 4}" and "sz \<le> 0xF0000000"
    and "\<not> ucast (p_addr p) + p_len p > (sz :: u32)"
  shows "unat (ucast (p_addr p) :: u32) + unat (p_len p) \<le> unat sz"
proof -
  have s: "unat sz \<le> 0xF0000000" using assms(3) by (simp add: word_le_nat_alt)
  have a: "unat (ucast (p_addr p) :: u32) = unat (p_addr p)"
    using assms(1) s by (simp add: unsigned_ucast_eq take_bit_nat_eq_self)
  have l: "unat (p_len p) \<le> 4" using assms(2) by auto
  have "unat (ucast (p_addr p) + p_len p) = unat (p_addr p) + unat (p_len p)"
    using a l assms(1) s by (simp add: unat_word_ariths)
  then show ?thesis using assms(4) a by (simp add: word_less_nat_alt)
qed

lemma memory_request:
  assumes "memory_b_transport throws p m = Inr (p', m', evs)"
  shows "same_request p p' \<and> p_status p' \<noteq> TLM_INCOMPLETE"
  using assms
  by (auto simp: memory_b_transport_def Let_def same_request_def
      split: if_splits tlm_command.splits option.splits dest!: length_vec(1))

lemma bootrom_request:
  assumes "bootrom_b_transport throws p m = Inr (p', m', evs)"
  shows "same_request p p' \<and> p_status p' \<noteq> TLM_INCOMPLETE \<and> m' = m"
  using assms
  by (auto simp: bootrom_b_transport_def Let_def same_request_def
      split: if_splits tlm_command.splits option.splits dest!: length_vec(1))

lemma vec_defined:
  assumes "memory_ok sz m" and "cpu_access p" and "unat (p_addr p) < unat sz" and "sz \<le> 0xF0000000"
    and "\<not> ucast (p_addr p) + p_len p > (sz :: u32)"
  shows "vec_read (m_data m) (unat (ucast (p_addr p) :: u32)) (unat (p_len p)) (p_data p) \<noteq> None"
    and "vec_write (m_data m) (unat (ucast (p_addr p) :: u32)) (unat (p_len p)) (p_data p) \<noteq> None"
proof -
  have l: "p_len p \<in> {1, 2, 4}" "length (p_data p) = 4" using assms(2) by (auto simp: cpu_access_def)
  then have "unat (p_len p) \<le> length (p_data p)" by auto
  with addr_in_range [OF assms(3) l(1) assms(4,5)] assms(1)
  show "vec_read (m_data m) (unat (ucast (p_addr p) :: u32)) (unat (p_len p)) (p_data p) \<noteq> None"
    "vec_write (m_data m) (unat (ucast (p_addr p) :: u32)) (unat (p_len p)) (p_data p) \<noteq> None"
    by (simp_all add: vec_read_def vec_write_def memory_ok_def)
qed

interpretation ram: tlm_target "memory_b_transport throws" "memory_ok RAM_SIZE" "unat RAM_SIZE" for throws
proof
  fix p p' :: payload and m m' :: Memory and evs :: "'a list"
  assume "memory_b_transport throws p m = Inr (p', m', evs)"
  then show "same_request p p'" "p_status p' \<noteq> TLM_INCOMPLETE" by (simp_all add: memory_request)
next
  fix m and p :: payload
  assume *: "memory_ok RAM_SIZE m" "cpu_access p" "unat (p_addr p) < unat RAM_SIZE"
  show "memory_b_transport throws p m \<noteq> (Inl HOST_UB :: stop + _ \<times> _ \<times> 'a list)"
  proof (cases "ucast (p_addr p) + p_len p > RAM_SIZE")
    case False
    with vec_defined [OF * _ False] * show ?thesis
      by (auto simp: memory_b_transport_def Let_def memory_ok_def split: tlm_command.splits option.splits)
  qed (use * in \<open>auto simp: memory_b_transport_def Let_def memory_ok_def\<close>)
next
  fix p p' :: payload and m m' :: Memory and evs :: "'a list"
  assume "memory_ok RAM_SIZE m" "memory_b_transport throws p m = Inr (p', m', evs)"
  then show "memory_ok RAM_SIZE m'"
    by (auto simp: memory_b_transport_def Let_def memory_ok_def
        split: if_splits tlm_command.splits option.splits dest!: length_vec(2))
qed

interpretation rom: tlm_target "bootrom_b_transport throws" "memory_ok BOOTROM_SIZE" "unat BOOTROM_SIZE" for throws
proof
  fix p p' :: payload and m m' :: Memory and evs :: "'a list"
  assume *: "bootrom_b_transport throws p m = Inr (p', m', evs)"
  then show "same_request p p'" "p_status p' \<noteq> TLM_INCOMPLETE" by (simp_all add: bootrom_request)
  show "memory_ok BOOTROM_SIZE m'" if "memory_ok BOOTROM_SIZE m"
    using that bootrom_request [OF *] by simp
next
  fix m and p :: payload
  assume *: "memory_ok BOOTROM_SIZE m" "cpu_access p" "unat (p_addr p) < unat BOOTROM_SIZE"
  show "bootrom_b_transport throws p m \<noteq> (Inl HOST_UB :: stop + _ \<times> _ \<times> 'a list)"
  proof (cases "ucast (p_addr p) + p_len p > BOOTROM_SIZE")
    case False
    with vec_defined [OF * _ False] * show ?thesis
      by (auto simp: bootrom_b_transport_def Let_def memory_ok_def split: tlm_command.splits option.splits)
  qed (use * in \<open>auto simp: bootrom_b_transport_def Let_def memory_ok_def\<close>)
qed

section \<open>Functional behaviour\<close>

lemma memory_read_ok:
  assumes "memory_b_transport throws r m = Inr (r', m', evs)" and "p_cmd r = TLM_READ" and "p_status r' = TLM_OK"
  shows "vec_read (m_data m) (unat (ucast (p_addr r) :: u32)) (unat (p_len r)) (p_data r) = Some (p_data r')"
    and "m' = m" and "\<not> ucast (p_addr r) + p_len r > m_size m" and "r' = r\<lparr>p_data := p_data r', p_status := TLM_OK\<rparr>"
  using assms by (auto simp: memory_b_transport_def Let_def split: if_splits option.splits)

lemma memory_write_ok:
  assumes "memory_b_transport throws w m = Inr (w', m', evs)" and "p_cmd w = TLM_WRITE" and "p_status w' = TLM_OK"
  obtains v where "m' = m\<lparr>m_data := v\<rparr>"
    and "vec_write (m_data m) (unat (ucast (p_addr w) :: u32)) (unat (p_len w)) (p_data w) = Some v"
  using assms by (auto simp: memory_b_transport_def Let_def split: if_splits option.splits)

definition disjoint_ranges :: "payload \<Rightarrow> payload \<Rightarrow> bool" where
  "disjoint_ranges p q =
     (unat (ucast (p_addr p) :: u32) + unat (p_len p) \<le> unat (ucast (p_addr q) :: u32) \<or>
      unat (ucast (p_addr q) :: u32) + unat (p_len q) \<le> unat (ucast (p_addr p) :: u32))"

text \<open>
  C27. RAM stores what is written: after a successful write transaction, a read of the same
  range returns the written bytes, and a read of any range that does not overlap returns what it
  would have returned before.
\<close>

theorem memory_read_after_write:
  assumes "memory_b_transport throws w m = Inr (w', m', evs)" and "p_cmd w = TLM_WRITE" and "p_status w' = TLM_OK"
    and "memory_b_transport throws r m' = Inr (r', m'', evs)" and "p_cmd r = TLM_READ" and "p_status r' = TLM_OK"
  shows "(p_addr r = p_addr w \<and> p_len r = p_len w \<longrightarrow>
      take (unat (p_len r)) (p_data r') = take (unat (p_len w)) (p_data w)) \<and>
    (disjoint_ranges r w \<longrightarrow> memory_b_transport throws r m = Inr (r', m, [] :: 'ev list))"
proof -
  from assms(1-3) obtain v where v: "m' = m\<lparr>m_data := v\<rparr>"
    "vec_write (m_data m) (unat (ucast (p_addr w) :: u32)) (unat (p_len w)) (p_data w) = Some v"
    by (rule memory_write_ok)
  note r = memory_read_ok [OF assms(4-6)]
  have "take (unat (p_len r)) (p_data r') = take (unat (p_len w)) (p_data w)"
    if "p_addr r = p_addr w" "p_len r = p_len w"
    using r(1) v vec_read_write [OF v(2), of "p_data r"] that
    by (auto simp: vec_read_def vec_write_def split: if_splits)
  moreover have "memory_b_transport throws r m = Inr (r', m, [] :: 'ev list)" if "disjoint_ranges r w"
  proof -
    have "vec_read (m_data m) (unat (ucast (p_addr r) :: u32)) (unat (p_len r)) (p_data r) = Some (p_data r')"
      using r(1) vec_read_write_disjoint [OF v(2)] that by (simp add: v(1) disjoint_ranges_def)
    with r(3,4) v(1) assms(5) show ?thesis
      by (simp add: memory_b_transport_def Let_def)
  qed
  ultimately show ?thesis by blast
qed

theorem memory_read_after_write_witness:
  "take 2 (p_data \<lparr>p_cmd = TLM_READ, p_addr = 1, p_data = [0xAB, 0xCD, 0, 0], p_len = 2, p_status = TLM_OK\<rparr>) =
    [0xAB, 0xCD] \<and>
   memory_b_transport True \<lparr>p_cmd = TLM_READ, p_addr = 1, p_data = [0, 0, 0, 0], p_len = 2, p_status = TLM_INCOMPLETE\<rparr>
     \<lparr>m_base = 0, m_size = 4, m_data = [0, 0xAB, 0xCD, 0]\<rparr> =
   (Inr (\<lparr>p_cmd = TLM_READ, p_addr = 1, p_data = [0xAB, 0xCD, 0, 0], p_len = 2, p_status = TLM_OK\<rparr>,
     \<lparr>m_base = 0, m_size = 4, m_data = [0, 0xAB, 0xCD, 0]\<rparr>, [] :: unit list) :: stop + _)"
proof -
  let ?w = "\<lparr>p_cmd = TLM_WRITE, p_addr = 1, p_data = [0xAB, 0xCD], p_len = 2, p_status = TLM_INCOMPLETE\<rparr>"
  let ?r = "\<lparr>p_cmd = TLM_READ, p_addr = 1, p_data = [0, 0, 0, 0], p_len = 2, p_status = TLM_INCOMPLETE\<rparr>"
  let ?m' = "\<lparr>m_base = 0, m_size = 4, m_data = [0, 0xAB, 0xCD, 0]\<rparr>"
  have w: "memory_b_transport True ?w \<lparr>m_base = 0, m_size = 4, m_data = [0, 0, 0, 0]\<rparr> = (Inr (?w\<lparr>p_status := TLM_OK\<rparr>, ?m', [] :: unit list) :: stop + _)"
    by (simp add: memory_b_transport_def Let_def vec_write_def)
  have r: "memory_b_transport True ?r ?m' =
      (Inr (?r\<lparr>p_data := [0xAB, 0xCD, 0, 0], p_status := TLM_OK\<rparr>, ?m', [] :: unit list) :: stop + _)"
    by (simp add: memory_b_transport_def Let_def vec_read_def)
  from memory_read_after_write [OF w _ _ r] r show ?thesis by simp
qed

text \<open>
  C28. The boot ROM is read-only on the bus: no transaction of any kind changes its contents; a write
  leaves the payload as it is apart from its status, is answered with a command error when it
  lies in the ROM, and otherwise with a command or an address error.
\<close>

theorem bootrom_read_only:
  assumes "bootrom_b_transport throws p m = Inr (p', m', evs)"
  shows "m' = m \<and> (p_cmd p = TLM_WRITE \<longrightarrow>
    p' = p\<lparr>p_status := p_status p'\<rparr> \<and> p_status p' \<in> {TLM_COMMAND_ERROR, TLM_ADDRESS_ERROR} \<and>
    (unat (ucast (p_addr p) :: u32) + unat (p_len p) \<le> unat (m_size m) \<longrightarrow> p_status p' = TLM_COMMAND_ERROR))"
proof -
  have "\<not> a + n > sz" if "unat a + unat n \<le> unat sz" for a n sz :: u32
    using that unsigned_less [of sz, where ?'a = nat] by (simp add: word_less_nat_alt unat_word_ariths)
  then show ?thesis
    using assms
    by (auto simp: bootrom_b_transport_def Let_def split: if_splits tlm_command.splits option.splits)
qed

theorem bootrom_read_only_witness:
  "bootrom_b_transport True \<lparr>p_cmd = TLM_WRITE, p_addr = 0, p_data = [1, 2, 3, 4], p_len = 4, p_status = TLM_INCOMPLETE\<rparr>
     (Memory_new 0 16) =
   (Inr (\<lparr>p_cmd = TLM_WRITE, p_addr = 0, p_data = [1, 2, 3, 4], p_len = 4, p_status = TLM_COMMAND_ERROR\<rparr>,
     Memory_new 0 16, [] :: unit list) :: stop + _)"
proof -
  let ?p = "\<lparr>p_cmd = TLM_WRITE, p_addr = 0, p_data = [1, 2, 3, 4], p_len = 4, p_status = TLM_INCOMPLETE\<rparr>"
  have t: "bootrom_b_transport True ?p (Memory_new 0 16) =
      (Inr (?p\<lparr>p_status := TLM_COMMAND_ERROR\<rparr>, Memory_new 0 16, [] :: unit list) :: stop + _)"
    by (simp add: bootrom_b_transport_def Let_def Memory_new_def)
  from bootrom_read_only [OF t] t show ?thesis by simp
qed

end
