(* ===== verification/TLM_Bus.thy ===== *)
theory TLM_Bus
  imports Memory
begin

text \<open>
  Model of \<open>src/src/bus/tlm_bus.cpp\<close>, the address-routing bus: registration of ranges with
  overlap check, decoding, transport and DMI forwarding. The bound targets are a parameter, a
  transport per target index over their joint state \<open>'s\<close>; the platform supplies it.

  \<open>std::sort\<close> leaves the order of ranges with equal base open; ranges that the overlap check
  accepts have distinct bases unless one is empty, so the stable sort of the model is the only
  outcome for non-empty ranges.

  The invariant of the bus is that its ranges are non-empty, do not wrap and are pairwise
  disjoint; then decoding finds exactly the range that contains an address.
\<close>

section \<open>State\<close>

record MappedRange =
  r_base :: u32
  r_size :: u32
  target_idx :: u32

record Bus =
  ranges :: "MappedRange list"
  next_target_idx :: u32

definition Bus_new :: Bus where
  "Bus_new = \<lparr>ranges = [], next_target_idx = 0\<rparr>"

section \<open>Operations\<close>

definition overlaps :: "u32 \<Rightarrow> u32 \<Rightarrow> MappedRange \<Rightarrow> bool" where
  "overlaps base sz r =
     (let end = base + sz; r_end = r_base r + r_size r in base < r_end \<and> r_base r < end)"

definition bus_map :: "u32 \<Rightarrow> u32 \<Rightarrow> Bus \<Rightarrow> stop + Bus" where
  "bus_map base sz b =
     (if list_ex (overlaps base sz) (ranges b) then Inl SC_FATAL
      else Inr (b\<lparr>ranges := sort_key r_base
                    (ranges b @ [\<lparr>r_base = base, r_size = sz, target_idx = next_target_idx b\<rparr>]),
                  next_target_idx := next_target_idx b + 1\<rparr>))"

definition in_range :: "u32 \<Rightarrow> MappedRange \<Rightarrow> bool" where
  "in_range addr r = (addr \<ge> r_base r \<and> addr < r_base r + r_size r)"

text \<open>The index of the first range that contains the address; \<open>None\<close> is the result -1.\<close>

fun decode_from :: "nat \<Rightarrow> MappedRange list \<Rightarrow> u32 \<Rightarrow> nat option" where
  "decode_from i [] addr = None"
| "decode_from i (r # rs) addr = (if in_range addr r then Some i else decode_from (Suc i) rs addr)"

definition bus_decode :: "Bus \<Rightarrow> u32 \<Rightarrow> nat option" where
  "bus_decode b addr = decode_from 0 (ranges b) addr"

type_synonym 's targets = "u32 \<Rightarrow> payload \<Rightarrow> 's \<Rightarrow> stop + (payload \<times> 's)"

definition bus_b_transport :: "'s targets \<Rightarrow> Bus \<Rightarrow> payload \<Rightarrow> 's \<Rightarrow> stop + (payload \<times> 's)" where
  "bus_b_transport tgt b p s =
     (let addr = ucast (p_addr p) :: u32
      in case bus_decode b addr of
           None \<Rightarrow> Inr (p\<lparr>p_status := TLM_ADDRESS_ERROR\<rparr>, s)
         | Some idx \<Rightarrow>
             (let range = ranges b ! idx
              in case tgt (target_idx range) (p\<lparr>p_addr := ucast (addr - r_base range)\<rparr>) s of
                   Inl x \<Rightarrow> Inl x
                 | Inr (p', s') \<Rightarrow> Inr (p'\<lparr>p_addr := ucast addr\<rparr>, s')))"

definition bus_get_direct_mem_ptr ::
    "(u32 \<Rightarrow> 's \<Rightarrow> tlm_dmi option) \<Rightarrow> Bus \<Rightarrow> u64 \<Rightarrow> 's \<Rightarrow> (u32 \<times> tlm_dmi) option" where
  "bus_get_direct_mem_ptr dmi b a s =
     (let addr = ucast a :: u32
      in case bus_decode b addr of
           None \<Rightarrow> None
         | Some idx \<Rightarrow>
             (let range = ranges b ! idx
              in case dmi (target_idx range) s of
                   None \<Rightarrow> None
                 | Some d \<Rightarrow> Some (target_idx range,
                     d\<lparr>dmi_start := dmi_start d + ucast (r_base range),
                       dmi_end := dmi_end d + ucast (r_base range)\<rparr>)))"

text \<open>The window that is forwarded to every initiator when target \<open>idx\<close> invalidates its DMI.\<close>

definition bus_invalidate :: "Bus \<Rightarrow> u32 \<Rightarrow> u64 \<Rightarrow> u64 \<Rightarrow> (u64 \<times> u64) option" where
  "bus_invalidate b idx s e =
     (case find (\<lambda>r. target_idx r = idx) (ranges b) of
        None \<Rightarrow> None
      | Some r \<Rightarrow> Some (s + ucast (r_base r), e + ucast (r_base r)))"

section \<open>Invariant\<close>

definition range_ok :: "MappedRange \<Rightarrow> bool" where
  "range_ok r = (0 < r_size r \<and> unat (r_base r) + unat (r_size r) < 2 ^ 32)"

definition span_of :: "MappedRange \<Rightarrow> nat set" where
  "span_of r = {unat (r_base r) ..< unat (r_base r) + unat (r_size r)}"

definition bus_inv :: "Bus \<Rightarrow> bool" where
  "bus_inv b = (list_all range_ok (ranges b) \<and> sorted (map r_base (ranges b)) \<and> distinct (ranges b) \<and>
     (\<forall>r \<in> set (ranges b). \<forall>q \<in> set (ranges b). r \<noteq> q \<longrightarrow> span_of r \<inter> span_of q = {}))"

lemma end_unat: "range_ok r \<Longrightarrow> unat (r_base r + r_size r) = unat (r_base r) + unat (r_size r)"
  by (simp add: range_ok_def unat_word_ariths)

lemma in_range_span: "range_ok r \<Longrightarrow> in_range addr r \<longleftrightarrow> unat addr \<in> span_of r"
  by (simp add: in_range_def span_of_def end_unat word_le_nat_alt word_less_nat_alt)

lemma overlaps_span:
  assumes "range_ok r" and "range_ok q"
  shows "overlaps (r_base q) (r_size q) r \<longleftrightarrow> span_of q \<inter> span_of r \<noteq> {}"
proof -
  have "0 < unat (r_size r)" "0 < unat (r_size q)"
    using assms by (auto simp: range_ok_def word_less_nat_alt)
  moreover have "overlaps (r_base q) (r_size q) r \<longleftrightarrow>
      unat (r_base q) < unat (r_base r) + unat (r_size r) \<and> unat (r_base r) < unat (r_base q) + unat (r_size q)"
    by (simp add: overlaps_def Let_def word_less_nat_alt end_unat [OF assms(1)] end_unat [OF assms(2)])
  ultimately show ?thesis
    by (auto simp: span_of_def disjoint_iff)
qed

lemma decode_from_Some:
  assumes "decode_from i rs addr = Some k"
  shows "i \<le> k \<and> k < i + length rs \<and> in_range addr (rs ! (k - i))"
  using assms
proof (induction rs arbitrary: i)
  case (Cons r rs)
  show ?case
  proof (cases "in_range addr r")
    case False
    with Cons.prems have "decode_from (Suc i) rs addr = Some k" by simp
    from Cons.IH [OF this] show ?thesis by (auto simp: nth_Cons' not_less_eq_eq)
  qed (use Cons.prems in auto)
qed simp

lemma decode_from_None: "decode_from i rs addr = None \<longleftrightarrow> (\<forall>r \<in> set rs. \<not> in_range addr r)"
  by (induction rs arbitrary: i) auto

lemma bus_inv_new: "bus_inv Bus_new"
  by (simp add: bus_inv_def Bus_new_def)

lemma bus_inv_unique:
  assumes "bus_inv b" and "r \<in> set (ranges b)" "q \<in> set (ranges b)" and "in_range addr r" "in_range addr q"
  shows "r = q"
proof (rule ccontr)
  assume "r \<noteq> q"
  with assms have "span_of r \<inter> span_of q = {}" by (auto simp: bus_inv_def)
  moreover have "unat addr \<in> span_of r" "unat addr \<in> span_of q"
    using assms in_range_span by (auto simp: bus_inv_def list_all_iff)
  ultimately show False by blast
qed

lemma bus_decode_iff:
  assumes "bus_inv b"
  shows "bus_decode b addr = Some i \<longleftrightarrow> i < length (ranges b) \<and> unat addr \<in> span_of (ranges b ! i)"
proof -
  have ok: "range_ok (ranges b ! j)" if "j < length (ranges b)" for j
    using assms that by (simp add: bus_inv_def list_all_length)
  show ?thesis
  proof
    assume "bus_decode b addr = Some i"
    from decode_from_Some [OF this [unfolded bus_decode_def]]
    show "i < length (ranges b) \<and> unat addr \<in> span_of (ranges b ! i)"
      using in_range_span [OF ok] by auto
  next
    assume i: "i < length (ranges b) \<and> unat addr \<in> span_of (ranges b ! i)"
    then have ri: "in_range addr (ranges b ! i)" using in_range_span [OF ok] by blast
    then have "bus_decode b addr \<noteq> None"
      using i decode_from_None [of 0 "ranges b" addr] nth_mem by (auto simp: bus_decode_def)
    then obtain j where j: "bus_decode b addr = Some j" by blast
    from decode_from_Some [OF j [unfolded bus_decode_def]]
    have "j < length (ranges b)" "in_range addr (ranges b ! j)" by auto
    with bus_inv_unique [OF assms, of "ranges b ! i" "ranges b ! j" addr] i ri
    have "ranges b ! i = ranges b ! j" by simp
    with i \<open>j < length (ranges b)\<close> assms have "i = j" by (simp add: bus_inv_def nth_eq_iff_index_eq)
    with j show "bus_decode b addr = Some i" by simp
  qed
qed

lemma bus_map_fatal:
  assumes "bus_inv b" and "range_ok q"
  shows "list_ex (overlaps (r_base q) (r_size q)) (ranges b) \<longleftrightarrow>
    (\<exists>r \<in> set (ranges b). span_of q \<inter> span_of r \<noteq> {})"
  using assms overlaps_span by (auto simp: list_ex_iff bus_inv_def list_all_iff)

lemma bus_map_inv:
  assumes "bus_inv b" and "range_ok q" and "target_idx q = next_target_idx b"
    and "bus_map (r_base q) (r_size q) b = Inr b'"
  shows "bus_inv b' \<and> set (ranges b') = insert q (set (ranges b)) \<and> next_target_idx b' = next_target_idx b + 1"
proof -
  have q: "\<lparr>r_base = r_base q, r_size = r_size q, target_idx = next_target_idx b\<rparr> = q"
    using assms(3) by simp
  from assms(4) have no: "\<forall>r \<in> set (ranges b). span_of q \<inter> span_of r = {}"
    and b': "ranges b' = sort_key r_base (ranges b @ [q])" "next_target_idx b' = next_target_idx b + 1"
    using bus_map_fatal [OF assms(1,2)] by (auto simp: bus_map_def q split: if_splits)
  have "span_of q \<noteq> {}" using assms(2) by (auto simp: range_ok_def span_of_def word_less_nat_alt)
  with no have "q \<notin> set (ranges b)" by auto
  with assms(1,2) no b' show ?thesis
    by (auto simp: bus_inv_def list_all_iff)
qed

text \<open>
  C29. Registration keeps the address map sound: mapping a non-empty range that does not wrap
  around the 32-bit address space aborts when it overlaps a range already mapped; otherwise it
  keeps all ranges disjoint and sorted and adds exactly the new one for the next target.
\<close>

theorem bus_map_correct:
  assumes "bus_inv b" and "range_ok q" and "target_idx q = next_target_idx b"
  shows "case bus_map (r_base q) (r_size q) b of
      Inl x \<Rightarrow> x = SC_FATAL \<and> (\<exists>r \<in> set (ranges b). span_of q \<inter> span_of r \<noteq> {})
    | Inr b' \<Rightarrow> (\<forall>r \<in> set (ranges b). span_of q \<inter> span_of r = {}) \<and> bus_inv b' \<and>
        set (ranges b') = insert q (set (ranges b)) \<and> next_target_idx b' = next_target_idx b + 1"
proof (cases "bus_map (r_base q) (r_size q) b")
  case (Inl x)
  then show ?thesis
    using bus_map_fatal [OF assms(1,2)] by (auto simp: bus_map_def split: if_splits)
next
  case (Inr b')
  then have "\<not> list_ex (overlaps (r_base q) (r_size q)) (ranges b)"
    by (auto simp: bus_map_def split: if_splits)
  with Inr bus_map_inv [OF assms Inr] bus_map_fatal [OF assms(1,2)] show ?thesis by auto
qed

theorem bus_map_correct_witness:
  "bus_map 0x80000000 0x1000 Bus_new =
     Inr \<lparr>ranges = [\<lparr>r_base = 0x80000000, r_size = 0x1000, target_idx = 0\<rparr>], next_target_idx = 1\<rparr> \<and>
   bus_inv \<lparr>ranges = [\<lparr>r_base = 0x80000000, r_size = 0x1000, target_idx = 0\<rparr>], next_target_idx = 1\<rparr>"
proof -
  let ?q = "\<lparr>r_base = 0x80000000, r_size = 0x1000, target_idx = 0\<rparr>"
  have m: "bus_map 0x80000000 0x1000 Bus_new = Inr \<lparr>ranges = [?q], next_target_idx = 1\<rparr>"
    by (simp add: bus_map_def Bus_new_def)
  have "range_ok ?q" by (simp add: range_ok_def)
  from bus_map_correct [OF bus_inv_new this] m show ?thesis by (simp add: Bus_new_def)
qed

section \<open>Routing\<close>

text \<open>
  C30. Decoding is exact: on a sound address map the bus selects a range for an address if and
  only if the address lies in it, so an address is routed to at most one target, at its offset
  within the range, and an address in no range is answered with an address error without
  reaching any target.
\<close>

theorem bus_routes:
  assumes "bus_inv b"
  shows "(\<forall>r \<in> set (ranges b). unat (ucast (p_addr p) :: u32) \<in> span_of r \<longrightarrow>
      bus_b_transport tgt b p s =
        (case tgt (target_idx r) (p\<lparr>p_addr := ucast (ucast (p_addr p) - r_base r)\<rparr>) s of
           Inl x \<Rightarrow> Inl x
         | Inr (p', s') \<Rightarrow> Inr (p'\<lparr>p_addr := ucast (ucast (p_addr p) :: u32)\<rparr>, s'))) \<and>
    ((\<forall>r \<in> set (ranges b). unat (ucast (p_addr p) :: u32) \<notin> span_of r) \<longrightarrow>
      bus_b_transport tgt b p s = Inr (p\<lparr>p_status := TLM_ADDRESS_ERROR\<rparr>, s))"
proof (intro conjI ballI impI)
  fix r
  assume "r \<in> set (ranges b)" and a: "unat (ucast (p_addr p) :: u32) \<in> span_of r"
  then obtain i where i: "i < length (ranges b)" "ranges b ! i = r" by (auto simp: in_set_conv_nth)
  with a bus_decode_iff [OF assms] have "bus_decode b (ucast (p_addr p)) = Some i" by auto
  with i show "bus_b_transport tgt b p s =
        (case tgt (target_idx r) (p\<lparr>p_addr := ucast (ucast (p_addr p) - r_base r)\<rparr>) s of
           Inl x \<Rightarrow> Inl x
         | Inr (p', s') \<Rightarrow> Inr (p'\<lparr>p_addr := ucast (ucast (p_addr p) :: u32)\<rparr>, s'))"
    by (simp add: bus_b_transport_def Let_def)
next
  assume no: "\<forall>r \<in> set (ranges b). unat (ucast (p_addr p) :: u32) \<notin> span_of r"
  have "bus_decode b (ucast (p_addr p)) = None"
  proof (rule ccontr)
    assume "bus_decode b (ucast (p_addr p)) \<noteq> None"
    then obtain i where "bus_decode b (ucast (p_addr p)) = Some i" by blast
    with bus_decode_iff [OF assms] no nth_mem show False by blast
  qed
  then show "bus_b_transport tgt b p s = Inr (p\<lparr>p_status := TLM_ADDRESS_ERROR\<rparr>, s)"
    by (simp add: bus_b_transport_def)
qed

theorem bus_routes_witness:
  "bus_b_transport (\<lambda>i p s. Inr (p\<lparr>p_status := TLM_OK\<rparr>, s))
     \<lparr>ranges = [\<lparr>r_base = 0x80000000, r_size = 0x1000, target_idx = 0\<rparr>], next_target_idx = 1\<rparr>
     \<lparr>p_cmd = TLM_READ, p_addr = 0x100, p_data = [], p_len = 0, p_status = TLM_INCOMPLETE\<rparr> () =
   Inr (\<lparr>p_cmd = TLM_READ, p_addr = 0x100, p_data = [], p_len = 0, p_status = TLM_ADDRESS_ERROR\<rparr>, ())"
proof -
  let ?b = "\<lparr>ranges = [\<lparr>r_base = 0x80000000, r_size = 0x1000, target_idx = 0\<rparr>], next_target_idx = 1\<rparr>"
  have "bus_inv ?b" by (simp add: bus_inv_def range_ok_def)
  from bus_routes [OF this, of "\<lparr>p_cmd = TLM_READ, p_addr = 0x100, p_data = [], p_len = 0, p_status = TLM_INCOMPLETE\<rparr>"]
  show ?thesis by (simp add: span_of_def)
qed

end
