(* ===== verification/CLINT.thy ===== *)
theory CLINT
  imports TLM
begin

text \<open>
  Model of \<open>src/src/irq/clint.cpp\<close>: the core-local interruptor with its 64-bit time and compare
  registers and the software interrupt bit. The callbacks \<open>on_timer_irq\<close> and \<open>on_sw_irq\<close>
  are the events of a transport. \<open>clint_tick\<close> is one turn of \<open>tick_thread\<close>; the simulation
  time between two turns belongs to the SystemC kernel.
\<close>

unbundle bit_operations_syntax

record CLINT =
  mtime :: u64
  mtimecmp :: u64
  msip :: u32

datatype clint_event = CLINT_TIMER bool | CLINT_SW bool

definition CLINT_new :: CLINT where
  "CLINT_new = \<lparr>mtime = 0, mtimecmp = 0xFFFFFFFFFFFFFFFF, msip = 0\<rparr>"

definition update_timer_irq :: "CLINT \<Rightarrow> clint_event list" where
  "update_timer_irq c = [CLINT_TIMER (mtime c \<ge> mtimecmp c)]"

definition clint_tick :: "CLINT \<Rightarrow> CLINT \<times> clint_event list" where
  "clint_tick c = (let c' = c\<lparr>mtime := mtime c + 1\<rparr> in (c', update_timer_irq c'))"

definition clint_switch :: "bool \<Rightarrow> u32 \<Rightarrow> u32 \<Rightarrow> CLINT \<Rightarrow> (u32 \<times> CLINT \<times> clint_event list) option" where
  "clint_switch is_write addr val c =
     (if addr = 0x0000 then
        (if is_write
         then (let c' = c\<lparr>msip := val AND 1\<rparr> in Some (val, c', [CLINT_SW (msip c' \<noteq> 0)]))
         else Some (msip c, c, []))
      else if addr = 0x4000 then
        (if is_write
         then (let c' = c\<lparr>mtimecmp := set_low (mtimecmp c) val\<rparr> in Some (val, c', update_timer_irq c'))
         else Some (ucast (mtimecmp c), c, []))
      else if addr = 0x4004 then
        (if is_write
         then (let c' = c\<lparr>mtimecmp := set_high (mtimecmp c) val\<rparr> in Some (val, c', update_timer_irq c'))
         else Some (ucast (drop_bit 32 (mtimecmp c)), c, []))
      else if addr = 0xBFF8 then
        (if is_write
         then (let c' = c\<lparr>mtime := set_low (mtime c) val\<rparr> in Some (val, c', update_timer_irq c'))
         else Some (ucast (mtime c), c, []))
      else if addr = 0xBFFC then
        (if is_write
         then (let c' = c\<lparr>mtime := set_high (mtime c) val\<rparr> in Some (val, c', update_timer_irq c'))
         else Some (ucast (drop_bit 32 (mtime c)), c, []))
      else None)"

definition clint_b_transport :: "(CLINT, clint_event) transport" where
  "clint_b_transport p c =
     (if p_len p \<noteq> 4 then Inr (p\<lparr>p_status := TLM_BURST_ERROR\<rparr>, c, [])
      else reg_transport 4 clint_switch p c)"

text \<open>The two lines, the level each should have, and the contract.\<close>

definition timer_line :: "clint_event \<Rightarrow> bool option" where
  "timer_line e = (case e of CLINT_TIMER b \<Rightarrow> Some b | CLINT_SW b \<Rightarrow> None)"

definition sw_line :: "clint_event \<Rightarrow> bool option" where
  "sw_line e = (case e of CLINT_TIMER b \<Rightarrow> None | CLINT_SW b \<Rightarrow> Some b)"

lemmas clint_line_defs = clint_switch_def update_timer_irq_def timer_line_def sw_line_def Let_def

interpretation clint_timer: irq_device clint_b_transport clint_switch "\<lambda>p. 4" "\<lambda>p. p_len p \<noteq> 4"
    "\<lambda>c. True" timer_line "\<lambda>c. mtime c \<ge> mtimecmp c"
  by unfold_locales (auto simp: clint_b_transport_def clint_line_defs split: if_splits)

interpretation clint_sw: irq_device clint_b_transport clint_switch "\<lambda>p. 4" "\<lambda>p. p_len p \<noteq> 4"
    "\<lambda>c. True" sw_line "\<lambda>c. msip c \<noteq> 0"
  by unfold_locales (auto simp: clint_line_defs split: if_splits)

section \<open>Correctness\<close>

text \<open>
  C31. The interrupt lines follow the registers: whatever a bus access or a tick does, the
  callbacks it makes leave the timer line at \<open>mtime >= mtimecmp\<close> and the software line at
  the bit in \<open>msip\<close>, provided they stood so before.
\<close>

theorem clint_lines_exact:
  "(clint_b_transport p c = Inr (p', c1, evs) \<longrightarrow>
      follow timer_line evs (mtime c \<ge> mtimecmp c) = (mtime c1 \<ge> mtimecmp c1) \<and>
      follow sw_line evs (msip c \<noteq> 0) = (msip c1 \<noteq> 0)) \<and>
   (clint_tick c = (c2, evs2) \<longrightarrow>
      follow timer_line evs2 (mtime c \<ge> mtimecmp c) = (mtime c2 \<ge> mtimecmp c2) \<and>
      follow sw_line evs2 (msip c \<noteq> 0) = (msip c2 \<noteq> 0))"
  using clint_timer.transport_line clint_sw.transport_line
  by (auto simp: clint_tick_def clint_line_defs)

theorem clint_lines_exact_witness:
  "follow sw_line [CLINT_SW True] False = (msip (CLINT_new\<lparr>msip := 1\<rparr>) \<noteq> 0)"
proof -
  have t: "clint_b_transport
      \<lparr>p_cmd = TLM_WRITE, p_addr = 0, p_data = [1, 0, 0, 0], p_len = 4, p_status = TLM_INCOMPLETE\<rparr> CLINT_new =
      Inr (\<lparr>p_cmd = TLM_WRITE, p_addr = 0, p_data = [1, 0, 0, 0], p_len = 4, p_status = TLM_OK\<rparr>,
        CLINT_new\<lparr>msip := 1\<rparr>, [CLINT_SW True])"
    by (simp add: clint_b_transport_def reg_transport_def copy_in_def clint_switch_def Let_def)
  show ?thesis
    using clint_lines_exact [THEN conjunct1, rule_format, OF t] by (simp add: CLINT_new_def)
qed

end
