(* ===== verification/PLIC.thy ===== *)
theory PLIC
  imports TLM Platform_Config
begin

text \<open>
  Model of \<open>src/src/irq/plic.cpp\<close>: the platform-level interrupt controller with seven sources.
  The callback \<open>on_external_irq\<close> is the event of an operation. The reference notion is
  \<open>claimable\<close>: a source that is pending, enabled, not in service and above the threshold.
  The external line is asserted exactly when some source is claimable, and a claim hands out the
  claimable source of highest priority, the lowest number among equals.
\<close>

unbundle bit_operations_syntax

record PLIC =
  prio :: "u32 list"
  pending :: u32
  enabled :: u32
  threshold :: u32
  claimed :: u32

abbreviation (input) NUM_SOURCES :: u32 where "NUM_SOURCES \<equiv> IRQ_NUM_SOURCES"

definition PLIC_new :: PLIC where
  "PLIC_new = \<lparr>prio = replicate 8 0, pending = 0, enabled = 0, threshold = 0, claimed = 0\<rparr>"

section \<open>Operations\<close>

text \<open>The condition of both loops; the loops run over the sources 1 to 7.\<close>

definition beats :: "PLIC \<Rightarrow> u32 \<Rightarrow> nat \<Rightarrow> u32 \<Rightarrow> bool" where
  "beats c actionable i best_prio =
     (actionable AND push_bit i 1 \<noteq> 0 \<and> prio c ! i > threshold c \<and> prio c ! i > best_prio)"

definition actionable_sources :: "PLIC \<Rightarrow> u32" where
  "actionable_sources c = pending c AND enabled c AND NOT (claimed c)"

fun best_prio_loop :: "PLIC \<Rightarrow> u32 \<Rightarrow> nat list \<Rightarrow> u32 \<Rightarrow> u32" where
  "best_prio_loop c act [] best = best"
| "best_prio_loop c act (i # is) best =
     best_prio_loop c act is (if beats c act i best then prio c ! i else best)"

definition evaluate_irq :: "PLIC \<Rightarrow> bool list" where
  "evaluate_irq c = [best_prio_loop c (actionable_sources c) [1..<unat NUM_SOURCES] 0 > 0]"

fun best_loop :: "PLIC \<Rightarrow> u32 \<Rightarrow> nat list \<Rightarrow> nat \<times> u32 \<Rightarrow> nat \<times> u32" where
  "best_loop c act [] best = best"
| "best_loop c act (i # is) best =
     best_loop c act is (if beats c act i (snd best) then (i, prio c ! i) else best)"

definition claim_best :: "PLIC \<Rightarrow> u32 \<times> PLIC \<times> bool list" where
  "claim_best c =
     (let best_id = fst (best_loop c (actionable_sources c) [1..<unat NUM_SOURCES] (0, 0))
      in if best_id \<noteq> 0 then
           (let c' = c\<lparr>claimed := claimed c OR push_bit best_id 1,
                       pending := pending c AND NOT (push_bit best_id 1)\<rparr>
            in (of_nat best_id, c', evaluate_irq c'))
         else (0, c, []))"

definition set_pending :: "u32 \<Rightarrow> bool \<Rightarrow> PLIC \<Rightarrow> PLIC \<times> bool list" where
  "set_pending source_id v c =
     (if source_id = 0 \<or> source_id \<ge> NUM_SOURCES then (c, [])
      else
        let c' = (if v then c\<lparr>pending := pending c OR push_bit (unat source_id) 1\<rparr>
                  else c\<lparr>pending := pending c AND NOT (push_bit (unat source_id) 1)\<rparr>)
        in (c', evaluate_irq c'))"

definition plic_switch :: "bool \<Rightarrow> u32 \<Rightarrow> u32 \<Rightarrow> PLIC \<Rightarrow> (u32 \<times> PLIC \<times> bool list) option" where
  "plic_switch is_write addr val c =
     (if addr < NUM_SOURCES * 4 then
        (let src = addr div 4
         in if is_write
            then (let c' = (if src \<noteq> 0 then c\<lparr>prio := (prio c)[unat src := val AND 0x7]\<rparr> else c)
                  in Some (val, c', evaluate_irq c'))
            else Some (prio c ! unat src, c, []))
      else if addr = 0x1000 then
        (if is_write then (let c' = c\<lparr>pending := val\<rparr> in Some (val, c', evaluate_irq c'))
         else Some (pending c, c, []))
      else if addr = 0x2000 then
        (if is_write then (let c' = c\<lparr>enabled := val\<rparr> in Some (val, c', evaluate_irq c'))
         else Some (enabled c, c, []))
      else if addr = 0x200000 then
        (if is_write then (let c' = c\<lparr>threshold := val AND 0x7\<rparr> in Some (val, c', evaluate_irq c'))
         else Some (threshold c, c, []))
      else if addr = 0x200004 then
        (if is_write
         then (let c' = (if val < NUM_SOURCES then c\<lparr>claimed := claimed c AND NOT (push_bit (unat val) 1)\<rparr> else c)
               in Some (val, c', evaluate_irq c'))
         else (let (v, c', evs) = claim_best c in Some (v, c', evs)))
      else None)"

definition plic_b_transport :: "(PLIC, bool) transport" where
  "plic_b_transport p c =
     (if p_len p \<noteq> 4 then Inr (p\<lparr>p_status := TLM_BURST_ERROR\<rparr>, c, [])
      else reg_transport 4 plic_switch p c)"

section \<open>Invariant and contract\<close>

definition plic_inv :: "PLIC \<Rightarrow> bool" where
  "plic_inv c = (length (prio c) = 8 \<and> prio c ! 0 = 0 \<and> (\<forall>i < 8. prio c ! i \<le> 7) \<and> threshold c \<le> 7)"

lemma plic_inv_new: "plic_inv PLIC_new"
  by (auto simp: plic_inv_def PLIC_new_def nth_replicate)

lemma nth_list_update_eq_if:
  "i < length xs \<Longrightarrow> xs[k := x] ! i = (if k = i then x else xs ! i)"
  by (simp add: nth_list_update)

lemma and_7_le: "v AND 7 \<le> (7 :: u32)"
  by (rule word_and_le1)

lemma plic_inv_claim: "claim_best c = (v, c', evs) \<Longrightarrow> plic_inv c \<Longrightarrow> plic_inv c'"
  by (auto simp: claim_best_def Let_def plic_inv_def split: if_splits)

lemma plic_inv_switch:
  assumes "plic_inv c" and "plic_switch w a v c = Some (v', c', evs)"
  shows "plic_inv c'"
proof (cases "w \<and> a < NUM_SOURCES * 4 \<and> a div 4 \<noteq> 0")
  case True
  then have "unat (a div 4) \<noteq> 0" "c' = c\<lparr>prio := (prio c)[unat (a div 4) := v AND 7]\<rparr>"
    using assms(2) by (auto simp: plic_switch_def Let_def unat_eq_zero split: if_splits)
  with assms(1) show ?thesis
    using and_7_le [of v] by (auto simp: plic_inv_def nth_list_update_eq_if)
next
  case False
  with assms plic_inv_claim [of c] show ?thesis
    by (auto simp: plic_switch_def Let_def split: if_splits prod.splits) (auto simp: plic_inv_def and_7_le)
qed

lemma plic_inv_set_pending: "plic_inv c \<Longrightarrow> plic_inv (fst (set_pending i v c))"
  by (auto simp: set_pending_def Let_def plic_inv_def)

section \<open>Claims\<close>

definition claimable :: "PLIC \<Rightarrow> nat \<Rightarrow> bool" where
  "claimable c i = (1 \<le> i \<and> i < 8 \<and> bit (pending c) i \<and> bit (enabled c) i \<and> \<not> bit (claimed c) i \<and>
     prio c ! i > threshold c)"

lemma beats_iff:
  assumes "1 \<le> i" "i < 8"
  shows "beats c (actionable_sources c) i best \<longleftrightarrow> claimable c i \<and> best < prio c ! i"
proof -
  have "actionable_sources c AND push_bit i 1 = 0 \<longleftrightarrow> \<not> bit (actionable_sources c) i"
    by (rule and_mask_bit_iff) (simp add: push_bit_eq_mult)
  with assms show ?thesis by (auto simp: beats_def claimable_def actionable_sources_def bit_simps)
qed

text \<open>The loop keeps the first source of highest priority seen so far.\<close>

definition best_of :: "PLIC \<Rightarrow> nat set \<Rightarrow> nat \<times> u32 \<Rightarrow> bool" where
  "best_of c S best =
     (if \<exists>i \<in> S. claimable c i
      then fst best \<in> S \<and> claimable c (fst best) \<and> snd best = prio c ! fst best \<and>
        (\<forall>j \<in> S. claimable c j \<longrightarrow> prio c ! j < snd best \<or> prio c ! j = snd best \<and> fst best \<le> j)
      else best = (0, 0))"

lemma best_loop_step:
  assumes "best_of c S best" and "1 \<le> i" "i < 8" and "\<forall>j \<in> S. j < i"
  shows "best_of c (insert i S) (if beats c (actionable_sources c) i (snd best) then (i, prio c ! i) else best)"
proof (cases "claimable c i")
  case False
  then show ?thesis
    using assms(1) beats_iff [OF assms(2,3)] by (auto simp: best_of_def split: if_splits)
next
  case True
  then have pos: "0 < prio c ! i" by (auto simp: claimable_def intro: word_gt_0 [THEN iffD2])
  show ?thesis
  proof (cases "\<exists>j \<in> S. claimable c j")
    case False
    with True assms(1) pos beats_iff [OF assms(2,3)] show ?thesis by (auto simp: best_of_def)
  next
    case ex: True
    with assms(1) have b: "fst best \<in> S" "claimable c (fst best)" "snd best = prio c ! fst best"
      "\<forall>j \<in> S. claimable c j \<longrightarrow> prio c ! j < snd best \<or> prio c ! j = snd best \<and> fst best \<le> j"
      by (auto simp: best_of_def split: if_splits)
    show ?thesis
    proof (cases "snd best < prio c ! i")
      case True
      with b \<open>claimable c i\<close> beats_iff [OF assms(2,3)] show ?thesis
        by (auto simp: best_of_def)
    next
      case False
      with b \<open>claimable c i\<close> assms(4) beats_iff [OF assms(2,3)] show ?thesis
        by (auto simp: best_of_def not_less le_less)
    qed
  qed
qed

lemma best_loop_best:
  assumes "best_of c {1..<k} best" and "1 \<le> k"
  shows "k \<le> 8 \<Longrightarrow> best_of c {1..<8} (best_loop c (actionable_sources c) [k..<8] best)"
  using assms
proof (induction "8 - k" arbitrary: k best)
  case (Suc n)
  then have k: "k < 8" by simp
  then have "[k..<8] = k # [Suc k..<8]" by (rule upt_conv_Cons)
  moreover have "best_of c {1..<Suc k} (if beats c (actionable_sources c) k (snd best) then (k, prio c ! k) else best)"
    using best_loop_step [OF Suc.prems(2,3) k] Suc.prems(3) by (simp add: atLeastLessThanSuc)
  ultimately show ?case using Suc.hyps Suc.prems k by simp
qed simp

lemma best_prio_loop_snd: "best_prio_loop c act is (snd best) = snd (best_loop c act is best)"
  by (induction "is" arbitrary: best) auto

lemma best_loop_result:
  "best_of c {1..<8} (best_loop c (actionable_sources c) [1..<unat NUM_SOURCES] (0, 0))"
  using best_loop_best [of c 1 "(0, 0)"] by (simp add: best_of_def)

lemma claimable_prio_pos: "claimable c i \<Longrightarrow> 0 < prio c ! i"
  by (auto simp: claimable_def word_gt_0)

lemma claimable_range: "claimable c i \<Longrightarrow> i \<in> {1..<8}"
  by (simp add: claimable_def)

lemma best_of_pos:
  assumes "best_of c {1..<8} b"
  shows "snd b > 0 \<longleftrightarrow> (\<exists>i. claimable c i)"
proof (cases "\<exists>i. claimable c i")
  case True
  then have "\<exists>i \<in> {1..<8}. claimable c i" using claimable_range by blast
  with assms have "claimable c (fst b)" "snd b = prio c ! fst b" by (simp_all add: best_of_def)
  with True claimable_prio_pos [of c "fst b"] show ?thesis by simp
next
  case False
  with assms show ?thesis by (simp add: best_of_def)
qed

lemma evaluate_irq_iff: "evaluate_irq c = [\<exists>i. claimable c i]"
  using best_of_pos [OF best_loop_result]
    best_prio_loop_snd [of c "actionable_sources c" "[1..<unat NUM_SOURCES]" "(0, 0)"]
  unfolding evaluate_irq_def snd_conv by simp

text \<open>What a claim must hand out: the claimable source that no other claimable source beats.\<close>

definition top_source :: "PLIC \<Rightarrow> nat \<Rightarrow> bool" where
  "top_source c i = (claimable c i \<and>
     (\<forall>j. claimable c j \<longrightarrow> prio c ! j < prio c ! i \<or> prio c ! j = prio c ! i \<and> i \<le> j))"

lemma best_of_top:
  assumes "best_of c {1..<8} b" and "claimable c i"
  shows "top_source c (fst b)" and "fst b \<noteq> 0"
proof -
  have "\<exists>i \<in> {1..<8}. claimable c i" using assms(2) claimable_range by blast
  with assms(1) have *: "claimable c (fst b)" "snd b = prio c ! fst b"
    "\<forall>j \<in> {1..<8}. claimable c j \<longrightarrow> prio c ! j < snd b \<or> prio c ! j = snd b \<and> fst b \<le> j"
    unfolding best_of_def by auto
  then show "top_source c (fst b)" using claimable_range by (simp add: top_source_def)
  show "fst b \<noteq> 0" using claimable_range [OF *(1)] by auto
qed

lemma claim_best_cases:
  obtains (none) "\<forall>i. \<not> claimable c i" "claim_best c = (0, c, [])"
  | (some) i c' where "top_source c i" "claim_best c = (of_nat i, c', evaluate_irq c')"
      "c' = c\<lparr>claimed := claimed c OR push_bit i 1, pending := pending c AND NOT (push_bit i 1)\<rparr>"
proof -
  define b where "b = best_loop c (actionable_sources c) [1..<unat NUM_SOURCES] (0, 0)"
  have best: "best_of c {1..<8} b" unfolding b_def by (rule best_loop_result)
  have claim: "claim_best c = (if fst b \<noteq> 0 then
      (let c' = c\<lparr>claimed := claimed c OR push_bit (fst b) 1, pending := pending c AND NOT (push_bit (fst b) 1)\<rparr>
       in (of_nat (fst b), c', evaluate_irq c')) else (0, c, []))"
    unfolding claim_best_def b_def Let_def ..
  show thesis
  proof (cases "\<exists>i. claimable c i")
    case False
    with best have "fst b = 0" by (simp add: best_of_def)
    with False claim none show thesis by simp
  next
    case True
    then have "top_source c (fst b)" "fst b \<noteq> 0" using best_of_top [OF best] by blast+
    with claim some show thesis by (simp add: Let_def)
  qed
qed

text \<open>
  C32. A claim serves the right source. Reading the claim register returns a number \<open>v\<close> that is 0
  exactly when no source is claimable; otherwise \<open>v\<close> is the claimable source of highest priority
  (lowest number among equals), which is from then on in service and no longer pending, while
  every other source is claimable after the read exactly when it was before.
\<close>

theorem plic_claim_correct:
  assumes "plic_switch False 0x200004 x c = Some (v, c', evs)"
  shows "if v = 0 then c' = c \<and> (\<forall>i. \<not> claimable c i)
    else top_source c (unat v) \<and> bit (claimed c') (unat v) \<and> \<not> bit (pending c') (unat v) \<and>
      (\<forall>j. claimable c' j \<longleftrightarrow> claimable c j \<and> j \<noteq> unat v) \<and> evs = [\<exists>j. claimable c' j]"
proof -
  from assms have claim: "claim_best c = (v, c', evs)" by (auto simp: plic_switch_def split: prod.splits)
  show ?thesis
  proof (cases c rule: claim_best_cases)
    case none
    with claim show ?thesis by simp
  next
    case (some i d)
    have i: "1 \<le> i" "i < 8" using some(1) by (auto simp: top_source_def claimable_def)
    have v: "v = of_nat i" "c' = d" "evs = evaluate_irq d" using claim some(2) by auto
    have u: "unat v = i" using i by (simp add: v unat_of_nat)
    have "v \<noteq> 0" using u i by auto
    moreover have "claimable c' j \<longleftrightarrow> claimable c j \<and> j \<noteq> i" for j
      using i by (auto simp: v(2) some(3) claimable_def bit_simps)
    moreover have "bit (claimed c') i" "\<not> bit (pending c') i"
      using i by (simp_all add: v(2) some(3) bit_simps)
    ultimately show ?thesis
      using some(1) unfolding u v(3) evaluate_irq_iff v(2) [symmetric] by simp
  qed
qed

theorem plic_claim_correct_witness:
  "let c = PLIC_new\<lparr>prio := [0, 2, 5, 5, 0, 0, 0, 0], pending := 0x0E, enabled := 0x0E\<rparr>
   in top_source c 2 \<and> \<not> claimable (c\<lparr>claimed := 4, pending := 0x0A\<rparr>) 2"
proof -
  define c where "c = PLIC_new\<lparr>prio := [0, 2, 5, 5, 0, 0, 0, 0], pending := 0x0E, enabled := 0x0E\<rparr>"
  have "plic_switch False 0x200004 0 c = Some (2, c\<lparr>claimed := 4, pending := 0x0A\<rparr>, [True])"
    unfolding c_def by code_simp
  from plic_claim_correct [OF this] show ?thesis by (simp add: c_def Let_def)
qed

lemma plic_switch_line:
  assumes "plic_switch w a v c = Some (v', c', evs)"
  shows "follow Some evs (\<exists>j. claimable c j) = (\<exists>j. claimable c' j)"
proof (cases "\<not> w \<and> a = 0x200004")
  case True
  with assms show ?thesis
    by (cases c rule: claim_best_cases) (auto simp: plic_switch_def evaluate_irq_iff split: prod.splits)
next
  case False
  with assms show ?thesis by (auto simp: plic_switch_def Let_def evaluate_irq_iff split: if_splits)
qed

interpretation plic: irq_device plic_b_transport plic_switch "\<lambda>p. 4" "\<lambda>p. p_len p \<noteq> 4" plic_inv
    Some "\<lambda>c. \<exists>j. claimable c j"
  by unfold_locales (simp_all add: plic_b_transport_def plic_inv_switch plic_switch_line)

text \<open>
  C33. The external interrupt line is exact: if it stands at "some source is claimable" before a
  source changes its level or before a bus access of any kind, the callbacks made leave it so;
  and the register invariant (priorities and threshold at most 7, source 0 without priority) is
  kept.
\<close>

theorem plic_line_exact:
  assumes "plic_inv c"
  shows "(set_pending i b c = (c1, evs1) \<longrightarrow>
      plic_inv c1 \<and> follow Some evs1 (\<exists>j. claimable c j) = (\<exists>j. claimable c1 j)) \<and>
   (plic_b_transport p c = Inr (p', c2, evs2) \<longrightarrow>
      plic_inv c2 \<and> follow Some evs2 (\<exists>j. claimable c j) = (\<exists>j. claimable c2 j))"
proof -
  have "follow Some (snd (set_pending i b c)) (\<exists>j. claimable c j) = (\<exists>j. claimable (fst (set_pending i b c)) j)"
    by (simp add: set_pending_def Let_def evaluate_irq_iff)
  moreover note plic_inv_set_pending [OF assms, of i b]
  ultimately show ?thesis
    using plic.transport_line [OF assms] plic.target.invariant [OF assms] by (metis fst_conv snd_conv)
qed

theorem plic_line_exact_witness:
  "\<exists>j. claimable (PLIC_new\<lparr>prio := [0, 1, 0, 0, 0, 0, 0, 0], enabled := 2, pending := 2\<rparr>) j"
proof -
  define c where "c = PLIC_new\<lparr>prio := [0, 1, 0, 0, 0, 0, 0, 0], enabled := 2\<rparr>"
  have i: "plic_inv c" unfolding c_def by code_simp
  have "set_pending 1 True c = (c\<lparr>pending := 2\<rparr>, [True])"
    unfolding c_def by code_simp
  then show ?thesis using plic_line_exact [OF i] by (fastforce simp: c_def)
qed

end
