(* ===== verification/UART.thy ===== *)
theory UART
  imports TLM
begin

text \<open>
  Model of \<open>src/src/io/uart.cpp\<close>: the 16550 UART. The callbacks \<open>on_irq\<close> and \<open>on_tx\<close> are the
  events of an operation. The buffer copies use the length of the request, so an access wider
  than four bytes leaves the local variable: it is undefined behaviour in the source and
  \<open>HOST_UB\<close> here. The receive FIFO is related to the stream of bytes that entered it.
\<close>

unbundle bit_operations_syntax

abbreviation (input) REG_RBR_THR :: u32 where "REG_RBR_THR \<equiv> 0"
abbreviation (input) REG_IER :: u32 where "REG_IER \<equiv> 1"
abbreviation (input) REG_IIR_FCR :: u32 where "REG_IIR_FCR \<equiv> 2"
abbreviation (input) REG_LCR :: u32 where "REG_LCR \<equiv> 3"
abbreviation (input) REG_MCR :: u32 where "REG_MCR \<equiv> 4"
abbreviation (input) REG_LSR :: u32 where "REG_LSR \<equiv> 5"
abbreviation (input) REG_MSR :: u32 where "REG_MSR \<equiv> 6"
abbreviation (input) REG_SCR :: u32 where "REG_SCR \<equiv> 7"

abbreviation (input) IER_RX_AVAIL :: u8 where "IER_RX_AVAIL \<equiv> 0x01"
abbreviation (input) IER_TX_EMPTY :: u8 where "IER_TX_EMPTY \<equiv> 0x02"

abbreviation (input) IIR_NO_INT :: u8 where "IIR_NO_INT \<equiv> 0x01"
abbreviation (input) IIR_TX_EMPTY :: u8 where "IIR_TX_EMPTY \<equiv> 0x02"
abbreviation (input) IIR_RX_AVAIL :: u8 where "IIR_RX_AVAIL \<equiv> 0x04"
abbreviation (input) IIR_FIFO_EN :: u8 where "IIR_FIFO_EN \<equiv> 0xC0"

abbreviation (input) LSR_DR :: u8 where "LSR_DR \<equiv> 0x01"
abbreviation (input) LSR_THRE :: u8 where "LSR_THRE \<equiv> 0x20"
abbreviation (input) LSR_TEMT :: u8 where "LSR_TEMT \<equiv> 0x40"

abbreviation (input) FIFO_SIZE :: nat where "FIFO_SIZE \<equiv> 16"

record UART =
  rx_fifo :: "u8 list"
  ier :: u8
  lcr :: u8
  mcr :: u8
  scr :: u8
  tx_empty :: bool

datatype uart_event = UART_IRQ bool | UART_TX u8

definition UART_new :: UART where
  "UART_new = \<lparr>rx_fifo = [], ier = 0, lcr = 0, mcr = 0, scr = 0, tx_empty = True\<rparr>"

section \<open>Operations\<close>

definition uart_update_irq :: "UART \<Rightarrow> uart_event list" where
  "uart_update_irq u = [UART_IRQ
     (ier u AND IER_RX_AVAIL \<noteq> 0 \<and> rx_fifo u \<noteq> [] \<or> ier u AND IER_TX_EMPTY \<noteq> 0 \<and> tx_empty u)]"

definition push_rx :: "u8 \<Rightarrow> UART \<Rightarrow> UART \<times> uart_event list" where
  "push_rx byte u =
     (let u' = (if length (rx_fifo u) < FIFO_SIZE then u\<lparr>rx_fifo := rx_fifo u @ [byte]\<rparr> else u)
      in (u', uart_update_irq u'))"

definition uart_switch :: "bool \<Rightarrow> u32 \<Rightarrow> u32 \<Rightarrow> UART \<Rightarrow> (u32 \<times> UART \<times> uart_event list) option" where
  "uart_switch is_write reg val u =
     (if reg = REG_RBR_THR then
        (if is_write
         then (let u' = u\<lparr>tx_empty := True\<rparr> in Some (val, u', UART_TX (ucast val) # uart_update_irq u'))
         else (case rx_fifo u of
                 b # bs \<Rightarrow> (let u' = u\<lparr>rx_fifo := bs\<rparr> in Some (ucast b, u', uart_update_irq u'))
               | [] \<Rightarrow> Some (0, u, uart_update_irq u)))
      else if reg = REG_IER then
        (if is_write
         then (let u' = u\<lparr>ier := ucast (val AND 0x0F)\<rparr> in Some (val, u', uart_update_irq u'))
         else Some (ucast (ier u), u, []))
      else if reg = REG_IIR_FCR then
        (if is_write then Some (val, u, [])
         else Some (ucast (if ier u AND IER_RX_AVAIL \<noteq> 0 \<and> rx_fifo u \<noteq> [] then IIR_RX_AVAIL OR IIR_FIFO_EN
                           else if ier u AND IER_TX_EMPTY \<noteq> 0 \<and> tx_empty u then IIR_TX_EMPTY OR IIR_FIFO_EN
                           else IIR_NO_INT OR IIR_FIFO_EN), u, []))
      else if reg = REG_LCR then
        (if is_write then Some (val, u\<lparr>lcr := ucast val\<rparr>, []) else Some (ucast (lcr u), u, []))
      else if reg = REG_MCR then
        (if is_write then Some (val, u\<lparr>mcr := ucast val\<rparr>, []) else Some (ucast (mcr u), u, []))
      else if reg = REG_LSR then
        (let lsr = LSR_THRE OR LSR_TEMT
         in Some (ucast (if rx_fifo u \<noteq> [] then lsr OR LSR_DR else lsr), u, []))
      else if reg = REG_MSR then Some (0, u, [])
      else if reg = REG_SCR then
        (if is_write then Some (val, u\<lparr>scr := ucast val\<rparr>, []) else Some (ucast (scr u), u, []))
      else None)"

definition uart_b_transport :: "(UART, uart_event) transport" where
  "uart_b_transport p u = reg_transport (unat (p_len p)) uart_switch p u"

section \<open>Contract\<close>

definition uart_inv :: "UART \<Rightarrow> bool" where
  "uart_inv u = (length (rx_fifo u) \<le> FIFO_SIZE \<and> tx_empty u)"

definition uart_irq_line :: "uart_event \<Rightarrow> bool option" where
  "uart_irq_line e = (case e of UART_IRQ b \<Rightarrow> Some b | UART_TX b \<Rightarrow> None)"

definition uart_level :: "UART \<Rightarrow> bool" where
  "uart_level u = (ier u AND IER_RX_AVAIL \<noteq> 0 \<and> rx_fifo u \<noteq> [] \<or> ier u AND IER_TX_EMPTY \<noteq> 0)"

lemmas uart_line_defs = uart_update_irq_def uart_irq_line_def uart_level_def Let_def

interpretation uart: irq_device uart_b_transport uart_switch "\<lambda>p. unat (p_len p)" "\<lambda>p. False" uart_inv
    uart_irq_line uart_level
proof unfold_locales
  fix w a v v' u u' evs
  assume inv: "uart_inv u" and sw: "uart_switch w a v u = Some (v', u', evs)"
  from inv sw show "uart_inv u'"
    by (auto simp: uart_switch_def uart_inv_def Let_def split: if_splits list.splits)
  from inv sw show "follow uart_irq_line evs (uart_level u) = uart_level u'"
    by (auto simp: uart_switch_def uart_inv_def uart_line_defs split: if_splits list.splits)
qed (auto simp: uart_b_transport_def cpu_access_def)

lemma push_rx_line:
  "uart_inv u \<Longrightarrow> push_rx b u = (u', evs) \<Longrightarrow> uart_inv u' \<and> follow uart_irq_line evs (uart_level u) = uart_level u'"
  by (auto simp: push_rx_def uart_inv_def uart_line_defs split: if_splits)

lemma uart_inv_new: "uart_inv UART_new"
  by (simp add: uart_inv_def UART_new_def)

section \<open>The receive stream\<close>

text \<open>
  The bytes a bus access hands to software: a non-empty read of the receive register while the
  FIFO holds something returns the first byte of the buffer.
\<close>

definition rx_delivered :: "payload \<Rightarrow> payload \<Rightarrow> UART \<Rightarrow> u8 list" where
  "rx_delivered p p' u =
     (if p_cmd p \<noteq> TLM_WRITE \<and> (ucast (p_addr p) :: u32) = REG_RBR_THR \<and> rx_fifo u \<noteq> []
      then take 1 (p_data p') else [])"

text \<open>
  Histories of the device: \<open>uart_history u ins outs\<close> when some sequence of received bytes and bus
  accesses leads from reset to \<open>u\<close>, having accepted the bytes \<open>ins\<close> and delivered the bytes
  \<open>outs\<close>. A byte that arrives at a full FIFO is dropped.
\<close>

inductive uart_history :: "UART \<Rightarrow> u8 list \<Rightarrow> u8 list \<Rightarrow> bool" where
  reset: "uart_history UART_new [] []"
| receive: "uart_history u ins outs \<Longrightarrow> length (rx_fifo u) < FIFO_SIZE \<Longrightarrow> push_rx b u = (u', evs) \<Longrightarrow>
    uart_history u' (ins @ [b]) outs"
| overrun: "uart_history u ins outs \<Longrightarrow> length (rx_fifo u) \<ge> FIFO_SIZE \<Longrightarrow> push_rx b u = (u', evs) \<Longrightarrow>
    uart_history u' ins outs"
| bus: "uart_history u ins outs \<Longrightarrow> p_len p \<noteq> 0 \<Longrightarrow> uart_b_transport p u = Inr (p', u', evs) \<Longrightarrow>
    uart_history u' ins (outs @ rx_delivered p p' u)"

lemma uart_bus_stream:
  assumes "uart_b_transport p u = Inr (p', u', evs)" and "p_len p \<noteq> 0"
  shows "rx_fifo u = rx_delivered p p' u @ rx_fifo u'"
proof -
  have len: "unat (p_len p) \<noteq> 0" using assms(2) by (simp add: unat_eq_zero)
  then obtain n where n: "unat (p_len p) = Suc n" by (cases "unat (p_len p)") auto
  have byte: "ucast (ucast b :: u32) = b" for b :: u8
    by (rule bit_word_eqI) (simp add: bit_simps)
  show ?thesis
    using assms(1)
    by (auto simp: uart_b_transport_def reg_transport_def uart_switch_def rx_delivered_def Let_def
        copy_out_def n byte split: if_splits option.splits list.splits)
qed

text \<open>
  C34. The receiver neither loses, duplicates nor reorders a byte it accepted: after any sequence
  of arrivals and bus accesses, the accepted bytes are the delivered ones followed by the content
  of the FIFO, which never holds more than 16.
\<close>

theorem uart_stream:
  assumes "uart_history u ins outs"
  shows "ins = outs @ rx_fifo u \<and> length (rx_fifo u) \<le> FIFO_SIZE"
  using assms
proof (induction rule: uart_history.induct)
  case reset
  then show ?case by (simp add: UART_new_def)
next
  case (receive u ins outs b u' evs)
  then show ?case by (auto simp: push_rx_def Let_def)
next
  case (overrun u ins outs b u' evs)
  then show ?case by (auto simp: push_rx_def Let_def)
next
  case (bus u ins outs p p' u' evs)
  from uart_bus_stream [OF bus.hyps(3,2)] bus.IH show ?case
    by (metis append.assoc length_append le_add2 order_trans)
qed

theorem uart_stream_witness:
  "\<exists>u. uart_history u [65, 66] [65] \<and> [65, 66] = [65] @ rx_fifo u"
proof -
  define p where "p = \<lparr>p_cmd = TLM_READ, p_addr = 0, p_data = [0, 0, 0, 0], p_len = 1, p_status = TLM_INCOMPLETE\<rparr>"
  define u2 where "u2 = UART_new\<lparr>rx_fifo := [65, 66]\<rparr>"
  have "uart_history (UART_new\<lparr>rx_fifo := [65]\<rparr>) ([] @ [65]) []"
    by (rule uart_history.receive [OF uart_history.reset, where evs = "[UART_IRQ False]"])
      (simp_all add: UART_new_def push_rx_def uart_update_irq_def)
  then have "uart_history u2 (([] @ [65]) @ [66]) []"
    by (rule uart_history.receive [where evs = "[UART_IRQ False]"])
      (simp_all add: UART_new_def u2_def push_rx_def uart_update_irq_def)
  moreover have t: "uart_b_transport p u2 =
      Inr (p\<lparr>p_data := [65, 0, 0, 0], p_status := TLM_OK\<rparr>, UART_new\<lparr>rx_fifo := [66]\<rparr>, [UART_IRQ False])"
    unfolding p_def u2_def by code_simp
  ultimately have "uart_history (UART_new\<lparr>rx_fifo := [66]\<rparr>) [65, 66]
      ([] @ rx_delivered p (p\<lparr>p_data := [65, 0, 0, 0], p_status := TLM_OK\<rparr>) u2)"
    using uart_history.bus [OF _ _ t, of "[65, 66]" "[]"] by (simp add: p_def)
  then have h: "uart_history (UART_new\<lparr>rx_fifo := [66]\<rparr>) [65, 66] [65]"
    by (simp add: rx_delivered_def p_def u2_def)
  with uart_stream [OF h] show ?thesis by blast
qed

text \<open>A request wider than four bytes makes the copy leave the 32-bit local.\<close>

lemma uart_wide_access_undefined:
  assumes "unat (p_len p) > 4" and "p_cmd p = TLM_WRITE"
  shows "uart_b_transport p u = Inl HOST_UB"
  using assms by (simp add: uart_b_transport_def reg_transport_def copy_in_def)

end
