(* ===== verification/GPIO.thy ===== *)
theory GPIO
  imports TLM
begin

text \<open>
  Model of \<open>src/src/io/gpio.cpp\<close>: direction, output and input registers, and an interrupt on
  every masked pin that changes, held in a write-1-to-clear status.
\<close>

unbundle bit_operations_syntax

record GPIO =
  gpio_direction :: u32
  gpio_output :: u32
  gpio_input :: u32
  irq_mask :: u32
  irq_status :: u32

definition GPIO_new :: GPIO where
  "GPIO_new = \<lparr>gpio_direction = 0, gpio_output = 0, gpio_input = 0, irq_mask = 0, irq_status = 0\<rparr>"

definition gpio_check_irq :: "GPIO \<Rightarrow> bool list" where
  "gpio_check_irq g = [irq_status g AND irq_mask g \<noteq> 0]"

definition set_input :: "u32 \<Rightarrow> GPIO \<Rightarrow> GPIO \<times> bool list" where
  "set_input pins g =
     (let changed = gpio_input g XOR pins;
          g' = g\<lparr>gpio_input := pins, irq_status := irq_status g OR (changed AND irq_mask g)\<rparr>
      in (g', gpio_check_irq g'))"

definition gpio_switch :: "bool \<Rightarrow> u32 \<Rightarrow> u32 \<Rightarrow> GPIO \<Rightarrow> (u32 \<times> GPIO \<times> bool list) option" where
  "gpio_switch is_write addr val g =
     (if addr = 0x00 then
        (if is_write then Some (val, g\<lparr>gpio_direction := val\<rparr>, []) else Some (gpio_direction g, g, []))
      else if addr = 0x04 then
        (if is_write then Some (val, g\<lparr>gpio_output := val\<rparr>, []) else Some (gpio_output g, g, []))
      else if addr = 0x08 then Some (gpio_input g, g, [])
      else if addr = 0x0C then
        (if is_write then (let g' = g\<lparr>irq_mask := val\<rparr> in Some (val, g', gpio_check_irq g'))
         else Some (irq_mask g, g, []))
      else if addr = 0x10 then
        (if is_write
         then (let g' = g\<lparr>irq_status := irq_status g AND NOT val\<rparr> in Some (val, g', gpio_check_irq g'))
         else Some (irq_status g, g, []))
      else None)"

definition gpio_b_transport :: "(GPIO, bool) transport" where
  "gpio_b_transport p g = reg_transport 4 gpio_switch p g"

definition gpio_level :: "GPIO \<Rightarrow> bool" where
  "gpio_level g = (irq_status g AND irq_mask g \<noteq> 0)"

interpretation gpio: irq_device gpio_b_transport gpio_switch "\<lambda>p. 4" "\<lambda>p. False" "\<lambda>g. True"
    Some gpio_level
  by unfold_locales
    (auto simp: gpio_b_transport_def gpio_switch_def gpio_check_irq_def gpio_level_def Let_def split: if_splits)

lemma set_input_line: "set_input pins g = (g', evs) \<Longrightarrow> follow Some evs (gpio_level g) = gpio_level g'"
  by (auto simp: set_input_def gpio_check_irq_def gpio_level_def Let_def)

text \<open>
  An edge on a masked pin is remembered until software clears it: after any sequence of
  input changes, pin \<open>i\<close> is flagged exactly when it was flagged before or its mask bit is set
  and its level differs from the previous one in some change.
\<close>

theorem gpio_edges_latched:
  assumes "i < 32"
  shows "bit (irq_status (fold (\<lambda>pins g. fst (set_input pins g)) inputs g)) i \<longleftrightarrow>
    bit (irq_status g) i \<or>
    bit (irq_mask g) i \<and> (\<exists>k < length inputs. bit ((gpio_input g # inputs) ! k) i \<noteq> bit (inputs ! k) i)"
proof (induction inputs arbitrary: g)
  case (Cons pins rest)
  have g': "fst (set_input pins g) =
      g\<lparr>gpio_input := pins, irq_status := irq_status g OR ((gpio_input g XOR pins) AND irq_mask g)\<rparr>"
    by (simp add: set_input_def Let_def)
  show ?case
    using Cons [of "fst (set_input pins g)"] assms by (auto simp: g' bit_simps Ex_less_Suc2)
qed simp

theorem gpio_edges_latched_witness:
  "bit (irq_status (fold (\<lambda>pins g. fst (set_input pins g)) [2, 0] (GPIO_new\<lparr>irq_mask := 2\<rparr>))) 1"
proof -
  have "(1 :: nat) < 32" by simp
  from gpio_edges_latched [OF this, of "[2, 0]" "GPIO_new\<lparr>irq_mask := 2\<rparr>"] show ?thesis
    by (simp add: GPIO_new_def bit_1_iff bit_numeral_rec Ex_less_Suc2)
qed

end
