(* ===== verification/Timer.thy ===== *)
theory Timer
  imports TLM
begin

text \<open>
  Model of \<open>src/src/io/timer.cpp\<close>: the 64-bit system timer. \<open>timer_tick\<close> is one turn of
  \<open>tick_thread\<close>; the time between turns belongs to the SystemC kernel.
\<close>

unbundle bit_operations_syntax

record Timer =
  tm_time :: u64
  tm_cmp :: u64
  tm_ctrl :: u32

definition Timer_new :: Timer where
  "Timer_new = \<lparr>tm_time = 0, tm_cmp = 0xFFFFFFFFFFFFFFFF, tm_ctrl = 0\<rparr>"

definition timer_update_irq :: "Timer \<Rightarrow> bool list" where
  "timer_update_irq t = [tm_ctrl t AND 1 \<noteq> 0 \<and> tm_time t \<ge> tm_cmp t]"

definition timer_tick :: "Timer \<Rightarrow> Timer \<times> bool list" where
  "timer_tick t = (let t' = t\<lparr>tm_time := tm_time t + 1\<rparr> in (t', timer_update_irq t'))"

definition timer_switch :: "bool \<Rightarrow> u32 \<Rightarrow> u32 \<Rightarrow> Timer \<Rightarrow> (u32 \<times> Timer \<times> bool list) option" where
  "timer_switch is_write addr val t =
     (if addr = 0x00 then
        (if is_write then (let t' = t\<lparr>tm_time := set_low (tm_time t) val\<rparr> in Some (val, t', timer_update_irq t'))
         else Some (ucast (tm_time t), t, []))
      else if addr = 0x04 then
        (if is_write then (let t' = t\<lparr>tm_time := set_high (tm_time t) val\<rparr> in Some (val, t', timer_update_irq t'))
         else Some (ucast (drop_bit 32 (tm_time t)), t, []))
      else if addr = 0x08 then
        (if is_write then (let t' = t\<lparr>tm_cmp := set_low (tm_cmp t) val\<rparr> in Some (val, t', timer_update_irq t'))
         else Some (ucast (tm_cmp t), t, []))
      else if addr = 0x0C then
        (if is_write then (let t' = t\<lparr>tm_cmp := set_high (tm_cmp t) val\<rparr> in Some (val, t', timer_update_irq t'))
         else Some (ucast (drop_bit 32 (tm_cmp t)), t, []))
      else if addr = 0x10 then
        (if is_write then (let t' = t\<lparr>tm_ctrl := val\<rparr> in Some (val, t', timer_update_irq t'))
         else Some (tm_ctrl t, t, []))
      else None)"

definition timer_b_transport :: "(Timer, bool) transport" where
  "timer_b_transport p t = reg_transport 4 timer_switch p t"

definition timer_level :: "Timer \<Rightarrow> bool" where
  "timer_level t = (tm_ctrl t AND 1 \<noteq> 0 \<and> tm_time t \<ge> tm_cmp t)"

interpretation timer: irq_device timer_b_transport timer_switch "\<lambda>p. 4" "\<lambda>p. False" "\<lambda>t. True"
    Some timer_level
  by unfold_locales
    (auto simp: timer_b_transport_def timer_switch_def timer_update_irq_def timer_level_def Let_def split: if_splits)

lemma timer_tick_line: "timer_tick t = (t', evs) \<Longrightarrow> follow Some evs (timer_level t) = timer_level t'"
  by (auto simp: timer_tick_def timer_update_irq_def timer_level_def Let_def)

text \<open>
  C35. An armed timer fires on time: with the interrupt enabled and \<open>time < cmp\<close>, each tick
  reports a low line until the tick that brings \<open>time\<close> to \<open>cmp\<close>, which is the tick number
  \<open>cmp - time\<close> and reports a high line.
\<close>

theorem timer_fires_on_time:
  assumes "tm_ctrl t AND 1 \<noteq> 0" and "tm_time t < tm_cmp t" and "n < unat (tm_cmp t - tm_time t)"
  shows "snd (timer_tick (((fst \<circ> timer_tick) ^^ n) t)) = [Suc n = unat (tm_cmp t - tm_time t)]"
proof -
  have run: "((fst \<circ> timer_tick) ^^ n) t = t\<lparr>tm_time := tm_time t + of_nat n\<rparr>"
    by (induction n) (simp_all add: timer_tick_def Let_def algebra_simps)
  have d: "unat (tm_cmp t - tm_time t) = unat (tm_cmp t) - unat (tm_time t)"
    using assms(2) by (intro unat_sub) simp
  have b: "unat (tm_cmp t) < 2 ^ 64" using unsigned_less [of "tm_cmp t", where ?'a = nat] by simp
  have "unat (tm_time t + of_nat (Suc n)) = unat (tm_time t) + Suc n"
    using assms(2,3) b d by (simp add: unat_word_ariths unat_of_nat word_less_nat_alt)
  then have u: "unat (tm_time t + of_nat n + 1) = unat (tm_time t) + Suc n" by (simp add: algebra_simps)
  show ?thesis
    using assms d by (auto simp: run timer_tick_def timer_update_irq_def word_le_nat_alt word_less_nat_alt u Let_def)
qed

theorem timer_fires_on_time_witness:
  "snd (timer_tick (((fst \<circ> timer_tick) ^^ 2) \<lparr>tm_time = 7, tm_cmp = 10, tm_ctrl = 1\<rparr>)) = [True]"
  using timer_fires_on_time [of "\<lparr>tm_time = 7, tm_cmp = 10, tm_ctrl = 1\<rparr>" 2] by simp

end
