(* ===== verification/SPI.thy ===== *)
theory SPI
  imports TLM
begin

text \<open>
  Model of \<open>src/src/io/spi.cpp\<close>: the SPI master. The slave is the callback \<open>on_transfer\<close>, a
  parameter; without one the line floats high. A status or data read has no side effect.
\<close>

unbundle bit_operations_syntax

record SPI =
  rx_data :: u8
  clk_div :: u32
  config :: u32

definition SPI_new :: SPI where
  "SPI_new = \<lparr>rx_data = 0xFF, clk_div = 0, config = 0\<rparr>"

definition spi_switch ::
    "(u8 \<Rightarrow> u8) option \<Rightarrow> bool \<Rightarrow> u32 \<Rightarrow> u32 \<Rightarrow> SPI \<Rightarrow> (u32 \<times> SPI \<times> unit list) option" where
  "spi_switch on_transfer is_write addr val s =
     (if addr = 0x00 then
        (if is_write
         then Some (val, s\<lparr>rx_data := (case on_transfer of Some f \<Rightarrow> f (ucast val) | None \<Rightarrow> 0xFF)\<rparr>, [])
         else Some (val, s, []))
      else if addr = 0x04 then Some (ucast (rx_data s), s, [])
      else if addr = 0x08 then Some (1, s, [])
      else if addr = 0x0C then
        (if is_write then Some (val, s\<lparr>clk_div := val\<rparr>, []) else Some (clk_div s, s, []))
      else if addr = 0x10 then
        (if is_write then Some (val, s\<lparr>config := val\<rparr>, []) else Some (config s, s, []))
      else None)"

definition spi_b_transport :: "(u8 \<Rightarrow> u8) option \<Rightarrow> (SPI, unit) transport" where
  "spi_b_transport on_transfer p s = reg_transport 4 (spi_switch on_transfer) p s"

interpretation spi: reg_device "spi_b_transport f" "spi_switch f" "\<lambda>p. 4" "\<lambda>p. False" "\<lambda>s. True" for f
  by unfold_locales (simp_all add: spi_b_transport_def)

end
