(* ===== verification/Video.thy ===== *)
theory Video
  imports TLM Platform_Config
begin

text \<open>
  Models of \<open>src/src/video/fb_ctrl.cpp\<close>, the double-buffered framebuffer controller, and of
  \<open>src/src/video/palette.cpp\<close>. The callbacks \<open>on_vsync\<close> and \<open>on_irq\<close> are the events of a
  transport. The palette functions read a caller's buffer at an \<open>int\<close> offset; a read outside it
  is undefined behaviour and \<open>None\<close> here.
\<close>

unbundle bit_operations_syntax

record FBCtrl =
  fb0_addr :: u32
  fb1_addr :: u32
  stride :: u32
  pal_addr :: u32
  active_buf :: u32
  vsync_pending :: u32

datatype fb_event = FB_VSYNC u32 u32 u32 | FB_IRQ bool

definition FBCtrl_new :: FBCtrl where
  "FBCtrl_new = \<lparr>fb0_addr = FB0_DEFAULT, fb1_addr = FB1_DEFAULT, stride = 320,
     pal_addr = PALETTE_DEFAULT, active_buf = 0, vsync_pending = 0\<rparr>"

definition fb_switch :: "bool \<Rightarrow> u32 \<Rightarrow> u32 \<Rightarrow> FBCtrl \<Rightarrow> (u32 \<times> FBCtrl \<times> fb_event list) option" where
  "fb_switch is_write addr val f =
     (if addr = 0x00 then
        (if is_write then Some (val, f\<lparr>fb0_addr := val\<rparr>, []) else Some (fb0_addr f, f, []))
      else if addr = 0x04 then
        (if is_write then Some (val, f\<lparr>fb1_addr := val\<rparr>, []) else Some (fb1_addr f, f, []))
      else if addr = 0x08 then
        (if is_write then Some (val, f\<lparr>stride := val\<rparr>, []) else Some (stride f, f, []))
      else if addr = 0x0C then
        (if is_write then Some (val, f\<lparr>pal_addr := val\<rparr>, []) else Some (pal_addr f, f, []))
      else if addr = 0x10 then
        (if is_write
         then (let f' = f\<lparr>active_buf := active_buf f XOR 1, vsync_pending := 1\<rparr>;
                   fb_addr = (if active_buf f' \<noteq> 0 then fb1_addr f' else fb0_addr f')
               in Some (val, f', [FB_VSYNC fb_addr (pal_addr f') (stride f'), FB_IRQ True]))
         else Some (val, f, []))
      else if addr = 0x14 then
        (if is_write then Some (val, f\<lparr>vsync_pending := 0\<rparr>, [FB_IRQ False])
         else Some (active_buf f OR push_bit 1 (vsync_pending f), f, []))
      else None)"

definition fb_b_transport :: "(FBCtrl, fb_event) transport" where
  "fb_b_transport p f = reg_transport 4 fb_switch p f"

definition fb_inv :: "FBCtrl \<Rightarrow> bool" where
  "fb_inv f = (active_buf f \<in> {0, 1} \<and> vsync_pending f \<in> {0, 1})"

definition fb_irq_line :: "fb_event \<Rightarrow> bool option" where
  "fb_irq_line e = (case e of FB_IRQ b \<Rightarrow> Some b | FB_VSYNC a p s \<Rightarrow> None)"

interpretation fb: irq_device fb_b_transport fb_switch "\<lambda>p. 4" "\<lambda>p. False" fb_inv
    fb_irq_line "\<lambda>f. vsync_pending f \<noteq> 0"
  by unfold_locales
    (auto simp: fb_b_transport_def fb_switch_def fb_inv_def fb_irq_line_def Let_def split: if_splits)

lemma fb_inv_new: "fb_inv FBCtrl_new"
  by (simp add: fb_inv_def FBCtrl_new_def)

definition swap_buffers :: "FBCtrl \<Rightarrow> FBCtrl" where
  "swap_buffers f = (case fb_switch True 0x10 0 f of Some (v, f', evs) \<Rightarrow> f' | None \<Rightarrow> f)"

definition presented :: "FBCtrl \<Rightarrow> fb_event list" where
  "presented f = (case fb_switch True 0x10 0 f of Some (v, f', evs) \<Rightarrow> evs | None \<Rightarrow> [])"

lemma swap_run:
  "fb_inv f \<Longrightarrow> (swap_buffers ^^ n) f =
     (if n = 0 then f else f\<lparr>active_buf := (if even n then active_buf f else active_buf f XOR 1), vsync_pending := 1\<rparr>)"
  by (induction n) (auto simp: swap_buffers_def fb_switch_def fb_inv_def Let_def)

text \<open>
  Buffers alternate: \<open>n\<close> writes to the swap register present, in order, the other buffer than
  the one shown before, so the picture alternates between the two frame buffers, each time with
  the current palette and stride.
\<close>

theorem fb_buffers_alternate:
  assumes "fb_inv f" and "active_buf f = 0"
  shows "presented ((swap_buffers ^^ n) f) =
    [FB_VSYNC (if even n then fb1_addr f else fb0_addr f) (pal_addr f) (stride f), FB_IRQ True]"
  using assms by (auto simp: swap_run presented_def fb_switch_def Let_def)

theorem fb_buffers_alternate_witness:
  "presented ((swap_buffers ^^ 3) FBCtrl_new) = [FB_VSYNC FB0_DEFAULT PALETTE_DEFAULT 320, FB_IRQ True]"
  using fb_buffers_alternate [OF fb_inv_new, of 3] by (simp add: FBCtrl_new_def)

section \<open>Palette\<close>

record RGB =
  rgb_r :: u8
  rgb_g :: u8
  rgb_b :: u8

definition mem_at :: "u8 list \<Rightarrow> int \<Rightarrow> u8 option" where
  "mem_at mem i = (if 0 \<le> i \<and> i < int (length mem) then Some (mem ! nat i) else None)"

definition load_entry :: "u8 list \<Rightarrow> int \<Rightarrow> nat \<Rightarrow> RGB option" where
  "load_entry mem base i =
     (case (mem_at mem (base + int i * 3 + 0), mem_at mem (base + int i * 3 + 1), mem_at mem (base + int i * 3 + 2)) of
        (Some r, Some g, Some b) \<Rightarrow> Some \<lparr>rgb_r = r, rgb_g = g, rgb_b = b\<rparr>
      | _ \<Rightarrow> None)"

definition load_playpal :: "u8 list \<Rightarrow> int \<Rightarrow> RGB list option" where
  "load_playpal mem palette_index = those (map (load_entry mem (palette_index * 768)) [0..<256])"

definition apply_colormap :: "u8 list \<Rightarrow> int \<Rightarrow> u8 \<Rightarrow> u8 option" where
  "apply_colormap colormap_data map_index pixel = mem_at colormap_data (map_index * 256 + uint pixel)"

lemma those_map_Some:
  "(\<And>x. x \<in> set xs \<Longrightarrow> f x = Some (g x)) \<Longrightarrow> those (map f xs) = Some (map g xs)"
  by (induction xs) auto

text \<open>Within the 14 palettes and 34 colour maps the reads are defined.\<close>

lemma load_playpal_defined:
  assumes "0 \<le> palette_index" "palette_index < 14" "length mem = 14 * 768"
  shows "load_playpal mem palette_index = Some (map (\<lambda>i.
    let b = nat palette_index * 768 + i * 3 in \<lparr>rgb_r = mem ! b, rgb_g = mem ! (b + 1), rgb_b = mem ! (b + 2)\<rparr>) [0..<256])"
  unfolding load_playpal_def
proof (rule those_map_Some)
  fix i :: nat
  assume "i \<in> set [0..<256]"
  then have i: "i < 256" by simp
  obtain k where k: "palette_index = int k" "k < 14" using assms by (metis nat_less_iff nonneg_int_cases of_nat_less_iff of_nat_numeral)
  show "load_entry mem (palette_index * 768) i = Some (let b = nat palette_index * 768 + i * 3
      in \<lparr>rgb_r = mem ! b, rgb_g = mem ! (b + 1), rgb_b = mem ! (b + 2)\<rparr>)"
    using i k assms(3) by (simp add: load_entry_def mem_at_def Let_def nat_add_distrib nat_mult_distrib)
qed

lemma apply_colormap_defined:
  assumes "map_index = int k" "k < 34" "length colormap_data = 34 * 256"
  shows "apply_colormap colormap_data map_index pixel = Some (colormap_data ! (k * 256 + unat pixel))"
proof -
  have "unat pixel < 256" using unsigned_less [of pixel, where ?'a = nat] by simp
  then have "k * 256 + unat pixel < 34 * 256" using assms(2) by simp
  moreover have "map_index * 256 + uint pixel = int (k * 256 + unat pixel)" using assms(1) by simp
  ultimately show ?thesis
    using assms(3) by (simp add: apply_colormap_def mem_at_def del: of_nat_add of_nat_mult)
qed

end
