(* ===== verification/Audio.thy ===== *)
theory Audio
  imports TLM Platform_Config
begin

text \<open>
  Model of \<open>src/src/audio/audio_out.cpp\<close>: the registers of the PCM ring buffer. Nothing in the
  source raises the interrupt or sets the underrun bit: the line is only ever driven low and the
  status register stays 0.
\<close>

record AudioOut =
  ring_base :: u32
  ring_size :: u32
  rd_ptr :: u32
  wr_ptr :: u32
  sample_rate :: u32
  au_ctrl :: u32
  au_status :: u32

definition AudioOut_new :: AudioOut where
  "AudioOut_new = \<lparr>ring_base = AUDIO_RING_DEFAULT, ring_size = AUDIO_RING_SIZE_DEFAULT, rd_ptr = 0,
     wr_ptr = 0, sample_rate = 11025, au_ctrl = 0, au_status = 0\<rparr>"

definition audio_switch :: "bool \<Rightarrow> u32 \<Rightarrow> u32 \<Rightarrow> AudioOut \<Rightarrow> (u32 \<times> AudioOut \<times> bool list) option" where
  "audio_switch is_write addr val a =
     (if addr = 0x00 then
        (if is_write then Some (val, a\<lparr>ring_base := val\<rparr>, []) else Some (ring_base a, a, []))
      else if addr = 0x04 then
        (if is_write then Some (val, a\<lparr>ring_size := val\<rparr>, []) else Some (ring_size a, a, []))
      else if addr = 0x08 then
        (if is_write then Some (val, a\<lparr>rd_ptr := val\<rparr>, []) else Some (rd_ptr a, a, []))
      else if addr = 0x0C then
        (if is_write then Some (val, a\<lparr>wr_ptr := val\<rparr>, []) else Some (wr_ptr a, a, []))
      else if addr = 0x10 then
        (if is_write then Some (val, a\<lparr>sample_rate := val\<rparr>, []) else Some (sample_rate a, a, []))
      else if addr = 0x14 then
        (if is_write then Some (val, a\<lparr>au_ctrl := val\<rparr>, []) else Some (au_ctrl a, a, []))
      else if addr = 0x18 then
        (if is_write then Some (val, a\<lparr>au_status := 0\<rparr>, [False]) else Some (au_status a, a, []))
      else None)"

definition audio_b_transport :: "(AudioOut, bool) transport" where
  "audio_b_transport p a = reg_transport 4 audio_switch p a"

interpretation audio: irq_device audio_b_transport audio_switch "\<lambda>p. 4" "\<lambda>p. False"
    "\<lambda>a. au_status a = 0" Some "\<lambda>a. False"
  by unfold_locales (auto simp: audio_b_transport_def audio_switch_def split: if_splits)

end
