(* ===== verification/Bus_Master.thy ===== *)
theory Bus_Master
  imports TLM
begin

text \<open>
  What the bus masters besides the processor (the DMA engine and the SD controller) rely on: a
  bus over which a range of memory can be read and written. \<open>bus\<close> performs one transaction on
  the state \<open>'s\<close> of everything behind it, \<open>byte s a\<close> is the memory byte at address \<open>a\<close>,
  \<open>mapped a n\<close> says that the \<open>n\<close> bytes from \<open>a\<close> on are memory. A master's own registers are
  part of the state, reached by \<open>get\<close> and \<open>put\<close>.
\<close>

type_synonym 's bus = "payload \<Rightarrow> 's \<Rightarrow> stop + (payload \<times> 's)"

definition master_payload :: "tlm_command \<Rightarrow> u32 \<Rightarrow> u8 list \<Rightarrow> u32 \<Rightarrow> payload" where
  "master_payload cmd addr buf len =
     \<lparr>p_cmd = cmd, p_addr = ucast addr, p_data = buf, p_len = len, p_status = TLM_INCOMPLETE\<rparr>"

locale memory_bus =
  fixes bus :: "'s bus" and byte :: "'s \<Rightarrow> nat \<Rightarrow> u8" and mapped :: "nat \<Rightarrow> nat \<Rightarrow> bool"
    and inv :: "'s \<Rightarrow> bool" and get :: "'s \<Rightarrow> 'd" and put :: "'d \<Rightarrow> 's \<Rightarrow> 's"
  assumes mapped_sub: "mapped i k \<Longrightarrow> i \<le> j \<Longrightarrow> j + m \<le> i + k \<Longrightarrow> mapped j m"
    and mapped_bound: "mapped i k \<Longrightarrow> i + k < 2 ^ 32"
    and bus_read: "inv s \<Longrightarrow> mapped (unat a) (unat n) \<Longrightarrow> 0 < n \<Longrightarrow> unat n \<le> length buf \<Longrightarrow>
      \<exists>p. bus (master_payload TLM_READ a buf n) s = Inr (p, s) \<and> p_status p = TLM_OK \<and>
        p_data p = map (\<lambda>i. byte s (unat a + i)) [0..<unat n] @ drop (unat n) buf"
    and bus_write: "inv s \<Longrightarrow> mapped (unat a) (unat n) \<Longrightarrow> 0 < n \<Longrightarrow> unat n \<le> length buf \<Longrightarrow>
      \<exists>p s'. bus (master_payload TLM_WRITE a buf n) s = Inr (p, s') \<and> p_status p = TLM_OK \<and> inv s' \<and>
        get s' = get s \<and>
        (\<forall>x. byte s' x = (if unat a \<le> x \<and> x < unat a + unat n then buf ! (x - unat a) else byte s x))"
    and get_put [simp]: "get (put d s) = d"
    and byte_put [simp]: "byte (put d s) = byte s"

end
