(* ===== verification/DMA.thy ===== *)
theory DMA
  imports Bus_Master
begin

text \<open>
  Model of \<open>src/src/dma/dma_engine.cpp\<close>. The registers are a record; \<open>dma_start\<close> stands for a
  pending notification of \<open>start_event_\<close>. \<open>dma_thread_turn\<close> is one turn of \<open>dma_thread\<close>, from
  a wake-up to the next wait: no other process runs in between, but the transfers go through the
  bus and may reach the engine's own registers, which is why the bus acts on the whole state and
  the registers are read from it by \<open>get\<close> and written by \<open>put\<close>. The burst buffer is an
  uninitialised local: \<open>junk r\<close> is its content in the iteration with \<open>r\<close> bytes left.
\<close>

unbundle bit_operations_syntax

record DMAEngine =
  src_addr :: u32
  dst_addr :: u32
  byte_count :: u32
  dma_ctrl :: u32
  dma_status :: u32
  dma_start :: bool

abbreviation (input) BURST_SIZE :: u32 where "BURST_SIZE \<equiv> 256"

definition DMAEngine_new :: DMAEngine where
  "DMAEngine_new = \<lparr>src_addr = 0, dst_addr = 0, byte_count = 0, dma_ctrl = 0, dma_status = 0, dma_start = False\<rparr>"

section \<open>Registers\<close>

definition dma_switch :: "bool \<Rightarrow> u32 \<Rightarrow> u32 \<Rightarrow> DMAEngine \<Rightarrow> (u32 \<times> DMAEngine \<times> bool list) option" where
  "dma_switch is_write addr val d =
     (if addr = 0x00 then
        (if is_write then Some (val, d\<lparr>src_addr := val\<rparr>, []) else Some (src_addr d, d, []))
      else if addr = 0x04 then
        (if is_write then Some (val, d\<lparr>dst_addr := val\<rparr>, []) else Some (dst_addr d, d, []))
      else if addr = 0x08 then
        (if is_write then Some (val, d\<lparr>byte_count := val\<rparr>, []) else Some (byte_count d, d, []))
      else if addr = 0x0C then
        (if is_write
         then Some (val, (if val AND 1 \<noteq> 0 then d\<lparr>dma_ctrl := val, dma_start := True\<rparr> else d\<lparr>dma_ctrl := val\<rparr>), [])
         else Some (dma_ctrl d, d, []))
      else if addr = 0x10 then
        (if is_write then Some (val, d\<lparr>dma_status := 0\<rparr>, [False]) else Some (dma_status d, d, []))
      else None)"

definition dma_b_transport :: "(DMAEngine, bool) transport" where
  "dma_b_transport p d = reg_transport 4 dma_switch p d"

interpretation dma: reg_device dma_b_transport dma_switch "\<lambda>p. 4" "\<lambda>p. False" "\<lambda>d. True"
  by unfold_locales (simp_all add: dma_b_transport_def)

section \<open>The transfer\<close>

text \<open>One iteration: a read into the buffer, then a write from it. The result says whether both
  were answered with success.\<close>

definition dma_chunk :: "'s bus \<Rightarrow> u8 list \<Rightarrow> u32 \<Rightarrow> u32 \<Rightarrow> u32 \<Rightarrow> 's \<Rightarrow> stop + (bool \<times> 's)" where
  "dma_chunk bus buf chunk src dst s =
     (case bus (master_payload TLM_READ src buf chunk) s of
        Inl x \<Rightarrow> Inl x
      | Inr (r, s1) \<Rightarrow>
          if p_status r \<noteq> TLM_OK then Inr (False, s1)
          else (case bus (master_payload TLM_WRITE dst (p_data r) chunk) s1 of
                  Inl x \<Rightarrow> Inl x
                | Inr (w, s2) \<Rightarrow> Inr (p_status w = TLM_OK, s2)))"

function dma_loop :: "'s bus \<Rightarrow> (u32 \<Rightarrow> u8 list) \<Rightarrow> u32 \<Rightarrow> u32 \<Rightarrow> u32 \<Rightarrow> 's \<Rightarrow> stop + (bool \<times> 's)" where
  "dma_loop bus junk remaining src dst s =
     (if remaining > 0 then
        (let chunk = min remaining BURST_SIZE
         in case dma_chunk bus (junk remaining) chunk src dst s of
              Inl x \<Rightarrow> Inl x
            | Inr (False, s') \<Rightarrow> Inr (False, s')
            | Inr (True, s') \<Rightarrow> dma_loop bus junk (remaining - chunk) (src + chunk) (dst + chunk) s')
      else Inr (True, s))"
  by pat_completeness auto

lemma chunk_less: "(0 :: u32) < r \<Longrightarrow> unat (r - min r 256) < unat r"
  by (simp add: word_less_nat_alt unat_sub min_def)

termination dma_loop
  by (relation "measure (\<lambda>(bus, junk, remaining, src, dst, s). unat remaining)")
    (use chunk_less in \<open>auto simp: word_gt_0\<close>)

definition dma_thread_turn ::
    "'s bus \<Rightarrow> (u32 \<Rightarrow> u8 list) \<Rightarrow> ('s \<Rightarrow> DMAEngine) \<Rightarrow> (DMAEngine \<Rightarrow> 's \<Rightarrow> 's) \<Rightarrow> 's \<Rightarrow> stop + ('s \<times> bool list)" where
  "dma_thread_turn bus junk get put s =
     (let d = get s; s1 = put (d\<lparr>dma_start := False, dma_status := 1\<rparr>) s
      in case dma_loop bus junk (byte_count d) (src_addr d) (dst_addr d) s1 of
           Inl x \<Rightarrow> Inl x
         | Inr (ok, s2) \<Rightarrow>
             (let d2 = (get s2)\<lparr>dma_status := (if ok then 2 else 6)\<rparr>
              in Inr (put d2 s2, if dma_ctrl d2 AND 2 \<noteq> 0 then [True] else [])))"

declare dma_loop.simps [simp del]

section \<open>Correctness over memory\<close>

locale dma_bus = memory_bus bus byte mapped inv get put
  for bus :: "'s bus" and byte mapped inv and get :: "'s \<Rightarrow> DMAEngine" and put +
  assumes inv_put: "inv s \<Longrightarrow> inv (put d s)"
begin

text \<open>A chunk within memory is moved.\<close>

lemma dma_chunk_moves:
  assumes "inv s" and "mapped (unat src) (unat n)" and "mapped (unat dst) (unat n)" and "0 < n" and "unat n \<le> length buf"
  obtains s' where "dma_chunk bus buf n src dst s = Inr (True, s')" and "inv s'" and "get s' = get s"
    and "\<And>x. byte s' x =
      (if unat dst \<le> x \<and> x < unat dst + unat n then byte s (unat src + (x - unat dst)) else byte s x)"
proof -
  obtain r where r: "bus (master_payload TLM_READ src buf n) s = Inr (r, s)" "p_status r = TLM_OK"
    "p_data r = map (\<lambda>i. byte s (unat src + i)) [0..<unat n] @ drop (unat n) buf"
    using bus_read [OF assms(1,2,4,5)] by blast
  have "unat n \<le> length (p_data r)" using assms(5) by (simp add: r(3))
  from bus_write [OF assms(1,3,4) this] obtain w s' where w:
    "bus (master_payload TLM_WRITE dst (p_data r) n) s = Inr (w, s')" "p_status w = TLM_OK" "inv s'" "get s' = get s"
    "\<forall>x. byte s' x = (if unat dst \<le> x \<and> x < unat dst + unat n then p_data r ! (x - unat dst) else byte s x)"
    by blast
  show thesis
  proof (rule that)
    show "dma_chunk bus buf n src dst s = Inr (True, s')" by (simp add: dma_chunk_def r(1,2) w(1,2))
    show "byte s' x = (if unat dst \<le> x \<and> x < unat dst + unat n then byte s (unat src + (x - unat dst)) else byte s x)" for x
      using w(5) by (auto simp: r(3) nth_append)
  qed (use w in auto)
qed

text \<open>
  The loop copies the whole range, forward and in bursts: the source must not be overwritten
  before it is read, so the destination lies below the source or beyond its end.
\<close>

lemma dma_loop_copies:
  assumes "inv s" and "mapped (unat src) (unat n)" and "mapped (unat dst) (unat n)"
    and "\<And>r. length (junk r) = 256" and "unat dst \<le> unat src \<or> unat src + unat n \<le> unat dst"
  shows "\<exists>s'. dma_loop bus junk n src dst s = Inr (True, s') \<and> inv s' \<and> get s' = get s \<and>
    (\<forall>x. byte s' x =
      (if unat dst \<le> x \<and> x < unat dst + unat n then byte s (unat src + (x - unat dst)) else byte s x))"
  using assms
proof (induction "unat n" arbitrary: n src dst s rule: less_induct)
  case less
  show ?case
  proof (cases "n = 0")
    case True
    with less.prems show ?thesis by (auto simp: dma_loop.simps)
  next
    case False
    define c where "c = min n (256 :: u32)"
    have pos: "0 < c" using False by (simp add: c_def word_gt_0)
    have c: "unat c \<le> 256" "unat c \<le> unat n" "0 < unat c" "unat (n - c) = unat n - unat c"
      using False by (auto simp: c_def min_def word_le_nat_alt unat_sub unat_gt_0)
    have m: "mapped (unat src) (unat c)" "mapped (unat dst) (unat c)"
      using mapped_sub [OF less.prems(2)] mapped_sub [OF less.prems(3)] c by auto
    obtain s1 where s1: "dma_chunk bus (junk n) c src dst s = Inr (True, s1)" "inv s1" "get s1 = get s"
      "\<And>x. byte s1 x = (if unat dst \<le> x \<and> x < unat dst + unat c then byte s (unat src + (x - unat dst)) else byte s x)"
      using dma_chunk_moves [OF less.prems(1) m pos, of "junk n"] c less.prems(4) by auto
    have a: "unat (src + c) = unat src + unat c" "unat (dst + c) = unat dst + unat c"
      using mapped_bound [OF less.prems(2)] mapped_bound [OF less.prems(3)] c by (simp_all add: unat_word_ariths)
    have "mapped (unat (src + c)) (unat (n - c))" "mapped (unat (dst + c)) (unat (n - c))"
      using mapped_sub [OF less.prems(2)] mapped_sub [OF less.prems(3)] c a by auto
    then obtain s2 where s2: "dma_loop bus junk (n - c) (src + c) (dst + c) s1 = Inr (True, s2)" "inv s2" "get s2 = get s1"
      "\<forall>x. byte s2 x = (if unat dst + unat c \<le> x \<and> x < unat dst + unat n
          then byte s1 (unat src + unat c + (x - (unat dst + unat c))) else byte s1 x)"
      using less.hyps [of "n - c" s1 "src + c" "dst + c"] c s1(2) less.prems(4,5) a by auto
    have loop: "dma_loop bus junk n src dst s = dma_loop bus junk (n - c) (src + c) (dst + c) s1"
      using False s1(1) by (subst dma_loop.simps) (simp add: c_def [symmetric] word_gt_0)
    have "byte s2 x = (if unat dst \<le> x \<and> x < unat dst + unat n then byte s (unat src + (x - unat dst)) else byte s x)" for x
      using s2(4) [rule_format, of x] s1(4) less.prems(5) c by (auto simp: not_less)
    with loop s1(3) s2 show ?thesis by auto
  qed
qed

text \<open>The whole turn, from the start bit to the completion interrupt.\<close>

lemma dma_turn_copies:
  assumes "inv s" and "get s = d" and "mapped (unat (src_addr d)) (unat (byte_count d))"
    and "mapped (unat (dst_addr d)) (unat (byte_count d))" and "\<And>r. length (junk r) = 256"
    and "unat (dst_addr d) \<le> unat (src_addr d) \<or>
      unat (src_addr d) + unat (byte_count d) \<le> unat (dst_addr d)"
  shows "\<exists>s'. dma_thread_turn bus junk get put s = Inr (s', if dma_ctrl d AND 2 \<noteq> 0 then [True] else []) \<and>
    inv s' \<and> get s' = d\<lparr>dma_start := False, dma_status := 2\<rparr> \<and>
    (\<forall>x. byte s' x = (if unat (dst_addr d) \<le> x \<and> x < unat (dst_addr d) + unat (byte_count d)
       then byte s (unat (src_addr d) + (x - unat (dst_addr d))) else byte s x))"
proof -
  define s1 where "s1 = put (d\<lparr>dma_start := False, dma_status := 1\<rparr>) s"
  obtain s2 where s2: "dma_loop bus junk (byte_count d) (src_addr d) (dst_addr d) s1 = Inr (True, s2)" "inv s2"
    "get s2 = get s1"
    "\<forall>x. byte s2 x = (if unat (dst_addr d) \<le> x \<and> x < unat (dst_addr d) + unat (byte_count d)
       then byte s1 (unat (src_addr d) + (x - unat (dst_addr d))) else byte s1 x)"
    using dma_loop_copies [where junk = junk, OF inv_put [OF assms(1), of "d\<lparr>dma_start := False, dma_status := 1\<rparr>"] assms(3-6)]
    unfolding s1_def by blast
  show ?thesis
    using s2 inv_put [OF s2(2)] unfolding dma_thread_turn_def assms(2) Let_def s1_def [symmetric]
    by (auto simp: s1_def)
qed

end

section \<open>Errors\<close>

text \<open>
  Whatever the bus does, the loop returns; if a transaction is answered with anything but success
  the transfer ends there and the status says done with error.
\<close>

lemma dma_turn_status:
  assumes "dma_thread_turn bus junk get put s = Inr (s', evs)" and "\<And>d s. get (put d s) = d"
  shows "dma_status (get s') = 2 \<or> dma_status (get s') = 6"
  using assms by (auto simp: dma_thread_turn_def Let_def split: sum.splits prod.splits if_splits)

end
