(* ===== verification/SD.thy ===== *)
theory SD
  imports Bus_Master
begin

text \<open>
  Models of \<open>src/src/sd/sd_card_model.cpp\<close> and \<open>src/src/sd/sd_ctrl.cpp\<close>.

  The card is an input file stream: \<open>sd_file\<close> is the content of the image once it is open,
  \<open>sd_fail\<close> the stream's failure flag. A seek on a failed stream fails, and nothing clears the
  flag, so a read beyond the image makes every later read fail. A block number times 512 does not
  overflow the 64-bit offset.

  As for the DMA engine, \<open>sd_start\<close> is a pending notification of \<open>start_event_\<close> and
  \<open>sd_thread_turn\<close> one turn of \<open>transfer_thread\<close>.
\<close>

unbundle bit_operations_syntax

section \<open>The card\<close>

record SDCardModel =
  sd_file :: "u8 list option"
  sd_fail :: bool

abbreviation (input) BLOCK_SIZE :: nat where "BLOCK_SIZE \<equiv> 512"

definition SDCardModel_new :: SDCardModel where
  "SDCardModel_new = \<lparr>sd_file = None, sd_fail = False\<rparr>"

text \<open>\<open>img\<close> is what the host's file system has under the path. A second \<open>open\<close> fails.\<close>

definition sd_open :: "u8 list option \<Rightarrow> SDCardModel \<Rightarrow> bool \<times> SDCardModel" where
  "sd_open img c =
     (case (sd_file c, img) of
        (None, Some bytes) \<Rightarrow> (True, c\<lparr>sd_file := Some bytes, sd_fail := False\<rparr>)
      | (None, None) \<Rightarrow> (False, c\<lparr>sd_fail := True\<rparr>)
      | (Some _, _) \<Rightarrow> (True, c\<lparr>sd_fail := True\<rparr>))"

definition read_block :: "u32 \<Rightarrow> SDCardModel \<Rightarrow> u8 list option \<times> SDCardModel" where
  "read_block block_addr c =
     (case sd_file c of
        None \<Rightarrow> (None, c)
      | Some bytes \<Rightarrow>
          if sd_fail c then (None, c)
          else (let block = take BLOCK_SIZE (drop (unat block_addr * BLOCK_SIZE) bytes)
                in if length block = BLOCK_SIZE then (Some block, c) else (None, c\<lparr>sd_fail := True\<rparr>)))"

section \<open>Controller registers\<close>

record SDCtrl =
  sd_cmd :: u32
  sd_arg :: u32
  data_addr :: u32
  burst_len :: u32
  sd_status :: u32
  sd_start :: bool
  sd_card :: "SDCardModel option"

abbreviation (input) CMD17 :: u32 where "CMD17 \<equiv> 17"
abbreviation (input) CMD18 :: u32 where "CMD18 \<equiv> 18"
abbreviation (input) STATUS_BUSY :: u32 where "STATUS_BUSY \<equiv> 1"
abbreviation (input) STATUS_DONE :: u32 where "STATUS_DONE \<equiv> 2"
abbreviation (input) STATUS_ERROR :: u32 where "STATUS_ERROR \<equiv> 4"

definition SDCtrl_new :: SDCtrl where
  "SDCtrl_new = \<lparr>sd_cmd = 0, sd_arg = 0, data_addr = 0, burst_len = 1, sd_status = 0, sd_start = False, sd_card = None\<rparr>"

definition set_card :: "SDCardModel \<Rightarrow> SDCtrl \<Rightarrow> SDCtrl" where
  "set_card crd d = d\<lparr>sd_card := Some crd\<rparr>"

definition sd_switch :: "bool \<Rightarrow> u32 \<Rightarrow> u32 \<Rightarrow> SDCtrl \<Rightarrow> (u32 \<times> SDCtrl \<times> bool list) option" where
  "sd_switch is_write addr val d =
     (if addr = 0x00 then
        (if is_write then Some (val, d\<lparr>sd_cmd := val\<rparr>, []) else Some (sd_cmd d, d, []))
      else if addr = 0x04 then
        (if is_write then Some (val, d\<lparr>sd_arg := val\<rparr>, []) else Some (sd_arg d, d, []))
      else if addr = 0x08 then
        (if is_write then Some (val, d\<lparr>data_addr := val\<rparr>, []) else Some (data_addr d, d, []))
      else if addr = 0x0C then
        (if is_write then Some (val, d\<lparr>burst_len := val\<rparr>, []) else Some (burst_len d, d, []))
      else if addr = 0x10 then
        (if is_write then Some (val, d\<lparr>sd_status := 0\<rparr>, [False]) else Some (sd_status d, d, []))
      else if addr = 0x14 then
        Some (val, (if is_write \<and> val AND 1 \<noteq> 0 then d\<lparr>sd_start := True\<rparr> else d), [])
      else None)"

definition sd_b_transport :: "(SDCtrl, bool) transport" where
  "sd_b_transport p d = reg_transport 4 sd_switch p d"

interpretation sd: reg_device sd_b_transport sd_switch "\<lambda>p. 4" "\<lambda>p. False" "\<lambda>d. True"
  by unfold_locales (simp_all add: sd_b_transport_def)

section \<open>The transfer\<close>

text \<open>One iteration: read block \<open>n\<close> of the card, write it to \<open>dest\<close>. The result is \<open>ok\<close>.\<close>

definition sd_block ::
    "'s bus \<Rightarrow> ('s \<Rightarrow> SDCtrl) \<Rightarrow> (SDCtrl \<Rightarrow> 's \<Rightarrow> 's) \<Rightarrow> u32 \<Rightarrow> u32 \<Rightarrow> 's \<Rightarrow> stop + (bool \<times> 's)" where
  "sd_block bus get put n dest s =
     (case sd_card (get s) of
        None \<Rightarrow> Inr (False, s)
      | Some crd \<Rightarrow>
          (case read_block n crd of
             (None, crd') \<Rightarrow> Inr (False, put ((get s)\<lparr>sd_card := Some crd'\<rparr>) s)
           | (Some buf, crd') \<Rightarrow>
               (case bus (master_payload TLM_WRITE dest buf 512) (put ((get s)\<lparr>sd_card := Some crd'\<rparr>) s) of
                  Inl x \<Rightarrow> Inl x
                | Inr (w, s') \<Rightarrow> Inr (p_status w = TLM_OK, s'))))"

function sd_loop ::
    "'s bus \<Rightarrow> ('s \<Rightarrow> SDCtrl) \<Rightarrow> (SDCtrl \<Rightarrow> 's \<Rightarrow> 's) \<Rightarrow> u32 \<Rightarrow> u32 \<Rightarrow> u32 \<Rightarrow> u32 \<Rightarrow> 's \<Rightarrow> stop + (bool \<times> 's)" where
  "sd_loop bus get put blocks block_addr i dest s =
     (if i < blocks then
        (case sd_block bus get put (block_addr + i) dest s of
           Inl x \<Rightarrow> Inl x
         | Inr (False, s') \<Rightarrow> Inr (False, s')
         | Inr (True, s') \<Rightarrow> sd_loop bus get put blocks block_addr (i + 1) (dest + 512) s')
      else Inr (True, s))"
  by pat_completeness auto

lemma unat_suc: "(i :: u32) < n \<Longrightarrow> unat (i + 1) = unat i + 1"
proof -
  assume "i < n"
  then have "unat i + 1 < 2 ^ 32" using unsigned_less [of n, where ?'a = nat] by (simp add: word_less_nat_alt)
  then show ?thesis by (simp add: unat_word_ariths)
qed

termination sd_loop
  by (relation "measure (\<lambda>(bus, get, put, blocks, block_addr, i, dest, s). unat blocks - unat i)")
    (auto simp: unat_suc word_less_nat_alt)

declare sd_loop.simps [simp del]

definition sd_thread_turn ::
    "'s bus \<Rightarrow> ('s \<Rightarrow> SDCtrl) \<Rightarrow> (SDCtrl \<Rightarrow> 's \<Rightarrow> 's) \<Rightarrow> 's \<Rightarrow> stop + ('s \<times> bool list)" where
  "sd_thread_turn bus get put s =
     (let d = get s; s1 = put (d\<lparr>sd_start := False, sd_status := STATUS_BUSY\<rparr>) s;
          blocks = (if sd_cmd d = CMD18 then burst_len d else 1)
      in case sd_loop bus get put blocks (sd_arg d) 0 (data_addr d) s1 of
           Inl x \<Rightarrow> Inl x
         | Inr (ok, s2) \<Rightarrow>
             Inr (put ((get s2)\<lparr>sd_status := (if ok then STATUS_DONE else STATUS_DONE OR STATUS_ERROR)\<rparr>) s2, [True]))"

section \<open>Correctness over memory\<close>

locale sd_bus = memory_bus bus byte mapped inv get put
  for bus :: "'s bus" and byte mapped inv and get :: "'s \<Rightarrow> SDCtrl" and put +
  assumes inv_put: "inv s \<Longrightarrow> inv (put d s)"
begin

lemma sd_block_reads:
  assumes "inv s" and "sd_card (get s) = Some c" and "sd_file c = Some bytes" and "\<not> sd_fail c"
    and "unat n * 512 + 512 \<le> length bytes" and "mapped (unat dest) 512"
  obtains s' where "sd_block bus get put n dest s = Inr (True, s')" and "inv s'" and "get s' = get s"
    and "\<And>x. byte s' x =
      (if unat dest \<le> x \<and> x < unat dest + 512 then bytes ! (unat n * 512 + (x - unat dest)) else byte s x)"
proof -
  let ?b = "take 512 (drop (unat n * 512) bytes)"
  have l: "length ?b = 512" using assms(5) by simp
  then have r: "read_block n c = (Some ?b, c)" using assms(3,4) by (simp add: read_block_def Let_def)
  define s1 where "s1 = put ((get s)\<lparr>sd_card := Some c\<rparr>) s"
  have s1: "inv s1" "get s1 = get s" "byte s1 = byte s"
    using inv_put [OF assms(1)] assms(2) by (simp_all add: s1_def)
  have 512: "unat (512 :: u32) = 512" by simp
  have m: "mapped (unat dest) (unat (512 :: u32))" "(0 :: u32) < 512" "unat (512 :: u32) \<le> length ?b"
    using assms(6) l by simp_all
  obtain w s' where w: "bus (master_payload TLM_WRITE dest ?b 512) s1 = Inr (w, s')" "p_status w = TLM_OK" "inv s'"
    "get s' = get s1" "\<forall>x. byte s' x = (if unat dest \<le> x \<and> x < unat dest + 512 then ?b ! (x - unat dest) else byte s1 x)"
    using bus_write [OF s1(1) m] unfolding 512 by blast
  show thesis
  proof (rule that)
    show "sd_block bus get put n dest s = Inr (True, s')"
      using w(1,2) by (simp add: sd_block_def assms(2) r s1_def)
    show "byte s' x = (if unat dest \<le> x \<and> x < unat dest + 512 then bytes ! (unat n * 512 + (x - unat dest)) else byte s x)" for x
      using w(5) [rule_format, of x] assms(5) by (auto simp: s1(3))
  qed (use w s1 in auto)
qed

text \<open>The blocks from \<open>i\<close> on arrive in order, one after the other.\<close>

lemma sd_loop_reads:
  assumes "inv s" and "sd_card (get s) = Some c" and "sd_file c = Some bytes" and "\<not> sd_fail c"
    and "i \<le> blocks" and "(unat a + unat blocks) * 512 \<le> length bytes" and "unat a + unat blocks < 2 ^ 32"
    and "mapped (unat dest) ((unat blocks - unat i) * 512)"
  shows "\<exists>s'. sd_loop bus get put blocks a i dest s = Inr (True, s') \<and> inv s' \<and> get s' = get s \<and>
    (\<forall>x. byte s' x = (if unat dest \<le> x \<and> x < unat dest + (unat blocks - unat i) * 512
       then bytes ! ((unat a + unat i) * 512 + (x - unat dest)) else byte s x))"
  using assms
proof (induction "unat blocks - unat i" arbitrary: i dest s)
  case 0
  then have "\<not> i < blocks" by (simp add: word_less_nat_alt)
  with 0 show ?case by (auto simp: sd_loop.simps [of _ _ _ blocks])
next
  case (Suc k)
  then have lt: "i < blocks" by (simp add: word_less_nat_alt)
  have i: "unat (i + 1) = unat i + 1" using lt by (rule unat_suc)
  have n: "unat (a + i) = unat a + unat i"
    using Suc.prems(7) lt by (simp add: unat_word_ariths word_less_nat_alt)
  have len: "(unat blocks - unat i) * 512 = k * 512 + 512" using Suc.hyps(2) by simp
  have m: "mapped (unat dest) 512" using mapped_sub [OF Suc.prems(8)] len by auto
  have b: "unat (a + i) * 512 + 512 \<le> length bytes"
  proof -
    have "unat (a + i) + 1 \<le> unat a + unat blocks" using n lt by (simp add: word_less_nat_alt)
    then have "(unat (a + i) + 1) * 512 \<le> (unat a + unat blocks) * 512" by (rule mult_le_mono1)
    with Suc.prems(6) show ?thesis by simp
  qed
  obtain s1 where s1: "sd_block bus get put (a + i) dest s = Inr (True, s1)" "inv s1" "get s1 = get s"
    "\<And>x. byte s1 x = (if unat dest \<le> x \<and> x < unat dest + 512 then bytes ! (unat (a + i) * 512 + (x - unat dest)) else byte s x)"
    using sd_block_reads [OF Suc.prems(1-4) b m] by blast
  have kk: "unat blocks - unat (i + 1) = k" using Suc.hyps(2) i by simp
  have d: "unat (dest + 512) = unat dest + 512"
    using mapped_bound [OF Suc.prems(8)] len by (simp add: unat_word_ariths)
  have "mapped (unat (dest + 512)) ((unat blocks - unat (i + 1)) * 512)"
    using mapped_sub [OF Suc.prems(8)] len d kk by auto
  moreover have "i + 1 \<le> blocks" using i lt by (simp add: word_le_nat_alt word_less_nat_alt)
  ultimately obtain s2 where s2: "sd_loop bus get put blocks a (i + 1) (dest + 512) s1 = Inr (True, s2)" "inv s2"
    "get s2 = get s1"
    "\<forall>x. byte s2 x = (if unat (dest + 512) \<le> x \<and> x < unat (dest + 512) + k * 512
       then bytes ! ((unat a + unat (i + 1)) * 512 + (x - unat (dest + 512))) else byte s1 x)"
    using Suc.hyps(1) [of "i + 1" s1 "dest + 512"] kk s1(2,3) Suc.prems(2-4,6,7) by auto
  have "byte s2 x = (if unat dest \<le> x \<and> x < unat dest + (unat blocks - unat i) * 512
      then bytes ! ((unat a + unat i) * 512 + (x - unat dest)) else byte s x)" for x
  proof -
    have "(unat a + unat (i + 1)) * 512 + (x - unat (dest + 512)) = (unat a + unat i) * 512 + (x - unat dest)"
      if "unat dest + 512 \<le> x" using that by (simp add: i d)
    then show ?thesis using s2(4) [rule_format, of x] s1(4) [of x] by (auto simp: d len n)
  qed
  moreover have "sd_loop bus get put blocks a i dest s = sd_loop bus get put blocks a (i + 1) (dest + 512) s1"
    using lt s1(1) by (simp add: sd_loop.simps [of _ _ _ blocks a i])
  ultimately show ?case using s1(3) s2 by auto
qed

lemma sd_turn_reads:
  assumes "inv s" and "get s = d" and "sd_card d = Some c" and "sd_file c = Some bytes" and "\<not> sd_fail c"
    and "blocks = (if sd_cmd d = CMD18 then burst_len d else 1)"
    and "(unat (sd_arg d) + unat blocks) * 512 \<le> length bytes" and "unat (sd_arg d) + unat blocks < 2 ^ 32"
    and "mapped (unat (data_addr d)) (unat blocks * 512)"
  shows "\<exists>s'. sd_thread_turn bus get put s = Inr (s', [True]) \<and> inv s' \<and>
    get s' = d\<lparr>sd_start := False, sd_status := STATUS_DONE\<rparr> \<and>
    (\<forall>x. byte s' x = (if unat (data_addr d) \<le> x \<and> x < unat (data_addr d) + unat blocks * 512
       then bytes ! (unat (sd_arg d) * 512 + (x - unat (data_addr d))) else byte s x))"
proof -
  define s1 where "s1 = put (d\<lparr>sd_start := False, sd_status := STATUS_BUSY\<rparr>) s"
  have s1: "inv s1" "get s1 = d\<lparr>sd_start := False, sd_status := STATUS_BUSY\<rparr>" "byte s1 = byte s"
    using inv_put [OF assms(1)] by (simp_all add: s1_def)
  obtain s2 where s2: "sd_loop bus get put blocks (sd_arg d) 0 (data_addr d) s1 = Inr (True, s2)" "inv s2"
    "get s2 = get s1"
    "\<forall>x. byte s2 x = (if unat (data_addr d) \<le> x \<and> x < unat (data_addr d) + unat blocks * 512
       then bytes ! (unat (sd_arg d) * 512 + (x - unat (data_addr d))) else byte s1 x)"
    using sd_loop_reads [of s1 c bytes 0 blocks "sd_arg d" "data_addr d"] assms s1 by auto
  show ?thesis
    using s2 s1 inv_put [OF s2(2)]
    unfolding sd_thread_turn_def assms(2) Let_def s1_def [symmetric] assms(6) [symmetric] by auto
qed

end

section \<open>Errors\<close>

text \<open>A card that has once failed to deliver a block never delivers one again.\<close>

lemma sd_failure_sticky:
  assumes "read_block n c = (None, c')"
  shows "fst (read_block m c') = None"
  using assms by (auto simp: read_block_def Let_def split: option.splits if_splits)

end
