(* ===== verification/Platform.thy ===== *)
theory Platform
  imports Execute_Props TLM_Bus CLINT PLIC UART GPIO
    Timer SPI Video Audio DMA SD
begin

text \<open>
  Model of \<open>src/src/platform/gamingcpu_vp.cpp\<close>: the devices behind the bus, the address map and
  the wiring of the interrupt callbacks. The state is the hart, whose CSR file the interrupt
  controllers drive, and the record of all devices. Bytes the UART transmits go to the console.

  A bus transaction of any master, a tick of either timer, one turn of the DMA or SD thread, and
  the two host inputs (a received byte, a change of input pins) are the operations of the
  platform. Their common invariant \<open>soc_inv\<close> joins the device invariants with the wiring: the
  three machine interrupt lines of the hart always stand where the registers of the interrupt
  controllers say.
\<close>

unbundle bit_operations_syntax

section \<open>State\<close>

record Plat =
  ram :: Memory
  bootrom :: Memory
  clint :: CLINT
  plic :: PLIC
  uart :: UART
  gpio :: GPIO
  timer :: Timer
  spi :: SPI
  sd_ctrl :: SDCtrl
  dma :: DMAEngine
  fb_ctrl :: FBCtrl
  audio :: AudioOut
  console :: "u8 list"

type_synonym soc = "CPUState \<times> Plat"

definition Plat_new :: Plat where
  "Plat_new = \<lparr>ram = Memory_new RAM_BASE RAM_SIZE, bootrom = Memory_new BOOTROM_BASE BOOTROM_SIZE,
     clint = CLINT_new, plic = PLIC_new, uart = UART_new, gpio = GPIO_new, timer = Timer_new, spi = SPI_new,
     sd_ctrl = SDCtrl_new, dma = DMAEngine_new, fb_ctrl = FBCtrl_new, audio = AudioOut_new, console = []\<rparr>"

section \<open>Address map\<close>

text \<open>The \<open>bus.map\<close> calls of the constructor, in order; the position is the target index.\<close>

definition vp_ranges :: "(u32 \<times> u32) list" where
  "vp_ranges =
     [(BOOTROM_BASE, BOOTROM_SIZE), (RAM_BASE, RAM_SIZE), (CLINT_BASE, CLINT_SIZE), (PLIC_BASE, PLIC_SIZE),
      (UART_BASE, UART_SIZE), (GPIO_BASE, GPIO_SIZE), (TIMER_BASE, TIMER_SIZE), (SPI_BASE, SPI_SIZE),
      (SD_BASE, SD_SIZE), (DMA_BASE, DMA_SIZE), (VIDEO_BASE, VIDEO_SIZE), (AUDIO_BASE, AUDIO_SIZE)]"

fun map_all :: "(u32 \<times> u32) list \<Rightarrow> Bus \<Rightarrow> stop + Bus" where
  "map_all [] b = Inr b"
| "map_all ((base, sz) # rs) b = (case bus_map base sz b of Inl x \<Rightarrow> Inl x | Inr b' \<Rightarrow> map_all rs b')"

definition vp_bus :: Bus where
  "vp_bus = (case map_all vp_ranges Bus_new of Inr b \<Rightarrow> b | Inl x \<Rightarrow> Bus_new)"

section \<open>Interrupt wiring\<close>

definition on_external_irq :: "bool \<Rightarrow> soc \<Rightarrow> soc" where
  "on_external_irq v = (\<lambda>(s, pl). (s\<lparr>csr := set_mip_meip v (csr s)\<rparr>, pl))"

definition on_clint_irq :: "clint_event \<Rightarrow> soc \<Rightarrow> soc" where
  "on_clint_irq e = (\<lambda>(s, pl). (s\<lparr>csr := (case e of CLINT_TIMER v \<Rightarrow> set_mip_mtip v (csr s)
                                               | CLINT_SW v \<Rightarrow> set_mip_msip v (csr s))\<rparr>, pl))"

definition raise_irq :: "u32 \<Rightarrow> bool \<Rightarrow> soc \<Rightarrow> soc" where
  "raise_irq src v = (\<lambda>(s, pl). let (c, evs) = set_pending src v (plic pl)
                              in fold on_external_irq evs (s, pl\<lparr>plic := c\<rparr>))"

definition on_uart :: "uart_event \<Rightarrow> soc \<Rightarrow> soc" where
  "on_uart e = (case e of UART_IRQ v \<Rightarrow> raise_irq IRQ_UART v
                        | UART_TX c \<Rightarrow> (\<lambda>(s, pl). (s, pl\<lparr>console := console pl @ [c]\<rparr>)))"

definition on_fb :: "fb_event \<Rightarrow> soc \<Rightarrow> soc" where
  "on_fb e = (case e of FB_IRQ v \<Rightarrow> raise_irq IRQ_VIDEO v | FB_VSYNC a p st \<Rightarrow> id)"

section \<open>Bus transactions\<close>

text \<open>A target's transport as a transaction on the platform: its state is replaced, then its
  callbacks run.\<close>

definition lift_target :: "('d, 'ev) transport \<Rightarrow> (Plat \<Rightarrow> 'd) \<Rightarrow> ('d \<Rightarrow> Plat \<Rightarrow> Plat) \<Rightarrow>
    ('ev \<Rightarrow> soc \<Rightarrow> soc) \<Rightarrow> payload \<Rightarrow> soc \<Rightarrow> stop + (payload \<times> soc)" where
  "lift_target bt get put cb p = (\<lambda>(s, pl).
     case bt p (get pl) of
       Inl x \<Rightarrow> Inl x
     | Inr (p', d', evs) \<Rightarrow> Inr (p', fold cb evs (s, put d' pl)))"

definition vp_target :: "bool \<Rightarrow> soc targets" where
  "vp_target throws i =
     (if i = 0 then lift_target (bootrom_b_transport throws) bootrom (\<lambda>d pl. pl\<lparr>bootrom := d\<rparr>) (\<lambda>e :: unit. id)
      else if i = 1 then lift_target (memory_b_transport throws) ram (\<lambda>d pl. pl\<lparr>ram := d\<rparr>) (\<lambda>e :: unit. id)
      else if i = 2 then lift_target clint_b_transport clint (\<lambda>d pl. pl\<lparr>clint := d\<rparr>) on_clint_irq
      else if i = 3 then lift_target plic_b_transport plic (\<lambda>d pl. pl\<lparr>plic := d\<rparr>) on_external_irq
      else if i = 4 then lift_target uart_b_transport uart (\<lambda>d pl. pl\<lparr>uart := d\<rparr>) on_uart
      else if i = 5 then lift_target gpio_b_transport gpio (\<lambda>d pl. pl\<lparr>gpio := d\<rparr>) (raise_irq IRQ_GPIO)
      else if i = 6 then lift_target timer_b_transport timer (\<lambda>d pl. pl\<lparr>timer := d\<rparr>) (raise_irq IRQ_TIMER)
      else if i = 7 then lift_target (spi_b_transport None) spi (\<lambda>d pl. pl\<lparr>spi := d\<rparr>) (\<lambda>e. id)
      else if i = 8 then lift_target sd_b_transport sd_ctrl (\<lambda>d pl. pl\<lparr>sd_ctrl := d\<rparr>) (raise_irq IRQ_SD)
      else if i = 9 then lift_target dma_b_transport dma (\<lambda>d pl. pl\<lparr>dma := d\<rparr>) (raise_irq IRQ_DMA)
      else if i = 10 then lift_target fb_b_transport fb_ctrl (\<lambda>d pl. pl\<lparr>fb_ctrl := d\<rparr>) on_fb
      else lift_target audio_b_transport audio (\<lambda>d pl. pl\<lparr>audio := d\<rparr>) (raise_irq IRQ_AUDIO))"

definition vp_transport :: "bool \<Rightarrow> payload \<Rightarrow> soc \<Rightarrow> stop + (payload \<times> soc)" where
  "vp_transport throws = bus_b_transport (vp_target throws) vp_bus"

section \<open>Other operations\<close>

definition vp_clint_tick :: "soc \<Rightarrow> soc" where
  "vp_clint_tick = (\<lambda>(s, pl). let (c, evs) = clint_tick (clint pl) in fold on_clint_irq evs (s, pl\<lparr>clint := c\<rparr>))"

definition vp_timer_tick :: "soc \<Rightarrow> soc" where
  "vp_timer_tick = (\<lambda>(s, pl). let (t, evs) = timer_tick (timer pl)
                            in fold (raise_irq IRQ_TIMER) evs (s, pl\<lparr>timer := t\<rparr>))"

definition vp_push_rx :: "u8 \<Rightarrow> soc \<Rightarrow> soc" where
  "vp_push_rx b = (\<lambda>(s, pl). let (u, evs) = push_rx b (uart pl) in fold on_uart evs (s, pl\<lparr>uart := u\<rparr>))"

definition vp_set_input :: "u32 \<Rightarrow> soc \<Rightarrow> soc" where
  "vp_set_input pins = (\<lambda>(s, pl). let (g, evs) = set_input pins (gpio pl)
                                in fold (raise_irq IRQ_GPIO) evs (s, pl\<lparr>gpio := g\<rparr>))"

definition vp_get_dma :: "soc \<Rightarrow> DMAEngine" where "vp_get_dma x = dma (snd x)"
definition vp_put_dma :: "DMAEngine \<Rightarrow> soc \<Rightarrow> soc" where "vp_put_dma d = (\<lambda>(s, pl). (s, pl\<lparr>dma := d\<rparr>))"
definition vp_get_sd :: "soc \<Rightarrow> SDCtrl" where "vp_get_sd x = sd_ctrl (snd x)"
definition vp_put_sd :: "SDCtrl \<Rightarrow> soc \<Rightarrow> soc" where "vp_put_sd d = (\<lambda>(s, pl). (s, pl\<lparr>sd_ctrl := d\<rparr>))"

definition vp_dma_turn :: "bool \<Rightarrow> (u32 \<Rightarrow> u8 list) \<Rightarrow> soc \<Rightarrow> stop + soc" where
  "vp_dma_turn throws junk x =
     (case dma_thread_turn (vp_transport throws) junk vp_get_dma vp_put_dma x of
        Inl e \<Rightarrow> Inl e
      | Inr (x', evs) \<Rightarrow> Inr (fold (raise_irq IRQ_DMA) evs x'))"

definition vp_sd_turn :: "bool \<Rightarrow> soc \<Rightarrow> stop + soc" where
  "vp_sd_turn throws x =
     (case sd_thread_turn (vp_transport throws) vp_get_sd vp_put_sd x of
        Inl e \<Rightarrow> Inl e
      | Inr (x', evs) \<Rightarrow> Inr (fold (raise_irq IRQ_SD) evs x'))"

section \<open>The address map is sound\<close>

lemma vp_map_all: "map_all vp_ranges Bus_new = Inr vp_bus"
proof -
  have "isl (map_all vp_ranges Bus_new) = False" by code_simp
  then show ?thesis by (auto simp: vp_bus_def split: sum.splits)
qed

lemma vp_bus_ranges: "ranges vp_bus =
  [\<lparr>r_base = BOOTROM_BASE, r_size = BOOTROM_SIZE, target_idx = 0\<rparr>,
   \<lparr>r_base = CLINT_BASE, r_size = CLINT_SIZE, target_idx = 2\<rparr>,
   \<lparr>r_base = PLIC_BASE, r_size = PLIC_SIZE, target_idx = 3\<rparr>,
   \<lparr>r_base = UART_BASE, r_size = UART_SIZE, target_idx = 4\<rparr>,
   \<lparr>r_base = GPIO_BASE, r_size = GPIO_SIZE, target_idx = 5\<rparr>,
   \<lparr>r_base = TIMER_BASE, r_size = TIMER_SIZE, target_idx = 6\<rparr>,
   \<lparr>r_base = SPI_BASE, r_size = SPI_SIZE, target_idx = 7\<rparr>,
   \<lparr>r_base = SD_BASE, r_size = SD_SIZE, target_idx = 8\<rparr>,
   \<lparr>r_base = DMA_BASE, r_size = DMA_SIZE, target_idx = 9\<rparr>,
   \<lparr>r_base = VIDEO_BASE, r_size = VIDEO_SIZE, target_idx = 10\<rparr>,
   \<lparr>r_base = AUDIO_BASE, r_size = AUDIO_SIZE, target_idx = 11\<rparr>,
   \<lparr>r_base = RAM_BASE, r_size = RAM_SIZE, target_idx = 1\<rparr>]"
  by code_simp

lemma map_all_inv:
  assumes "bus_inv b" and "map_all rs b = Inr b'"
    and "\<forall>(base, sz) \<in> set rs. 0 < sz \<and> unat base + unat sz < 2 ^ 32"
  shows "bus_inv b'"
  using assms
proof (induction rs arbitrary: b)
  case (Cons r rs)
  obtain base sz where r: "r = (base, sz)" by (cases r)
  let ?q = "\<lparr>r_base = base, r_size = sz, target_idx = next_target_idx b\<rparr>"
  from Cons.prems(2) obtain b1 where b1: "bus_map base sz b = Inr b1" "map_all rs b1 = Inr b'"
    by (auto simp: r split: sum.splits)
  have "range_ok ?q" using Cons.prems(3) by (simp add: r range_ok_def)
  then have "bus_inv b1" using bus_map_inv [OF Cons.prems(1), of ?q b1] b1(1) by simp
  with Cons.IH b1(2) Cons.prems(3) show ?case by simp
qed simp

lemma vp_bus_inv: "bus_inv vp_bus"
  by (rule map_all_inv [OF bus_inv_new vp_map_all]) (simp add: vp_ranges_def)

lemma vp_ranges_mapped:
  assumes "i < 12"
  shows "\<lparr>r_base = fst (vp_ranges ! i), r_size = snd (vp_ranges ! i), target_idx = of_nat i\<rparr> \<in> set (ranges vp_bus)"
proof -
  have "list_all (\<lambda>i. \<lparr>r_base = fst (vp_ranges ! i), r_size = snd (vp_ranges ! i), target_idx = of_nat i\<rparr>
      \<in> set (ranges vp_bus)) [0..<12]"
    by code_simp
  with assms show ?thesis by (simp only: list_all_iff set_upt) simp
qed

lemma vp_route:
  assumes "i < 12" and "(base, sz) = vp_ranges ! i" and "unat base \<le> unat a" and "unat a < unat base + unat sz"
  shows "vp_transport throws (p\<lparr>p_addr := ucast a\<rparr>) x =
      (case vp_target throws (of_nat i) (p\<lparr>p_addr := ucast (a - base)\<rparr>) x of
         Inl e \<Rightarrow> Inl e
       | Inr (p', x') \<Rightarrow> Inr (p'\<lparr>p_addr := ucast a\<rparr>, x'))"
proof -
  have a: "ucast (ucast a :: u64) = a" by (rule u32_eqI) (simp add: bit_simps)
  let ?r = "\<lparr>r_base = base, r_size = sz, target_idx = of_nat i\<rparr>"
  have r: "?r \<in> set (ranges vp_bus)" using vp_ranges_mapped [OF assms(1)] assms(2) by (metis fst_conv snd_conv)
  then obtain k where k: "k < length (ranges vp_bus)" "ranges vp_bus ! k = ?r" by (auto simp: in_set_conv_nth)
  have "unat a \<in> span_of ?r" using assms(3,4) by (simp add: span_of_def)
  with k bus_decode_iff [OF vp_bus_inv] have "bus_decode vp_bus a = Some k" by simp
  with k(2) show ?thesis
    by (simp add: vp_transport_def bus_b_transport_def a Let_def split: sum.splits)
qed

text \<open>
  C23. The address map of the platform is sound: the twelve registrations of the constructor all
  succeed, and an access to any address of a device's window reaches that device, at its offset
  in the window.
\<close>

theorem vp_address_map:
  assumes "i < 12" and "(base, sz) = vp_ranges ! i" and "unat base \<le> unat a" and "unat a < unat base + unat sz"
  shows "map_all vp_ranges Bus_new = Inr vp_bus \<and>
    vp_transport throws (p\<lparr>p_addr := ucast a\<rparr>) x =
      (case vp_target throws (of_nat i) (p\<lparr>p_addr := ucast (a - base)\<rparr>) x of
         Inl e \<Rightarrow> Inl e
       | Inr (p', x') \<Rightarrow> Inr (p'\<lparr>p_addr := ucast a\<rparr>, x'))"
  using vp_map_all vp_route [OF assms] by blast

theorem vp_address_map_witness:
  "vp_transport True \<lparr>p_cmd = TLM_READ, p_addr = 0x10000005, p_data = [0, 0, 0, 0], p_len = 1, p_status = TLM_INCOMPLETE\<rparr>
     (CPUState_init, Plat_new) =
   Inr (\<lparr>p_cmd = TLM_READ, p_addr = 0x10000005, p_data = [0x60, 0, 0, 0], p_len = 1, p_status = TLM_OK\<rparr>,
     (CPUState_init, Plat_new))"
proof -
  define p where "p = \<lparr>p_cmd = TLM_READ, p_addr = 0, p_data = [0, 0, 0, 0], p_len = 1, p_status = TLM_INCOMPLETE\<rparr>"
  have "vp_target True 4 (p\<lparr>p_addr := 5\<rparr>) (CPUState_init, Plat_new) =
      Inr (p\<lparr>p_addr := 5, p_data := [0x60, 0, 0, 0], p_status := TLM_OK\<rparr>, (CPUState_init, Plat_new))"
    by (simp add: p_def vp_target_def lift_target_def uart_b_transport_def reg_transport_def uart_switch_def
        Plat_new_def UART_new_def copy_out_def Let_def)
  then show ?thesis
    using vp_address_map [of 4 UART_BASE UART_SIZE "0x10000005" True p "(CPUState_init, Plat_new)"]
    by (simp add: vp_ranges_def p_def)
qed

section \<open>Invariant\<close>

definition plat_inv :: "Plat \<Rightarrow> bool" where
  "plat_inv pl = (memory_ok RAM_SIZE (ram pl) \<and> memory_ok BOOTROM_SIZE (bootrom pl) \<and> plic_inv (plic pl) \<and>
     uart_inv (uart pl) \<and> fb_inv (fb_ctrl pl) \<and> au_status (audio pl) = 0)"

text \<open>The interrupt lines of the hart against the registers of the interrupt controllers.\<close>

definition lines_exact :: "CPUState \<Rightarrow> Plat \<Rightarrow> bool" where
  "lines_exact s pl =
     (bit (hw_mip (csr s)) 7 = (mtime (clint pl) \<ge> mtimecmp (clint pl)) \<and>
      bit (hw_mip (csr s)) 3 = (msip (clint pl) \<noteq> 0) \<and>
      bit (hw_mip (csr s)) 11 = (\<exists>i. claimable (plic pl) i))"

definition soc_inv :: "soc \<Rightarrow> bool" where
  "soc_inv x = (plat_inv (snd x) \<and> lines_exact (fst x) (snd x))"

lemma plat_inv_new: "plat_inv Plat_new"
  by (simp add: plat_inv_def Plat_new_def memory_ok_new plic_inv_new uart_inv_new fb_inv_new AudioOut_new_def)

lemma soc_inv_new: "soc_inv (CPUState_init, Plat_new)"
proof -
  have "lines_exact CPUState_init Plat_new"
    by (simp add: lines_exact_def CPUState_init_def CSRFile_init_def Plat_new_def CLINT_new_def
        claimable_def PLIC_new_def)
  then show ?thesis by (simp add: soc_inv_def plat_inv_new)
qed

subsection \<open>Callbacks\<close>

lemma bit_set_hw_bit:
  "n < 32 \<Longrightarrow> bit (hw_mip (set_hw_bit n v c)) k = (if k = n then v else bit (hw_mip c) k)"
  by (auto simp: set_hw_bit_def bit_simps dest: bit_imp_le_length)

lemma hw_frame_set_hw_bit:
  assumes "bit (0xAAA :: u32) n"
  shows "hw_frame s (s\<lparr>csr := set_hw_bit n v (csr s)\<rparr>)"
proof -
  define h where "h = hw_mip (set_hw_bit n v (csr s))"
  have "set_hw_bit n v (csr s) = (csr s)\<lparr>hw_mip := h\<rparr>" by (simp add: h_def set_hw_bit_def)
  moreover have "within 0xAAA (hw_mip (csr s)) \<longrightarrow> within 0xAAA h"
    using assms by (auto simp: h_def set_hw_bit_def within_iff bit_simps)
  ultimately show ?thesis using hw_frameI [of s h] by simp
qed

lemma on_external_irq_frame: "hw_frame (fst x) (fst (on_external_irq v x))"
  by (cases x) (simp add: on_external_irq_def set_mip_meip_def hw_frame_set_hw_bit)

lemma on_clint_irq_frame: "hw_frame (fst x) (fst (on_clint_irq e x))"
  by (cases x; cases e) (simp_all add: on_clint_irq_def set_mip_mtip_def set_mip_msip_def hw_frame_set_hw_bit)

lemma fold_frame:
  assumes "\<And>e x. hw_frame (fst x) (fst (cb e x))"
  shows "hw_frame (fst x) (fst (fold cb evs x))"
proof (induction evs arbitrary: x)
  case (Cons e evs)
  from hw_frame_trans [OF assms [of x e] Cons [of "cb e x"]] show ?case by simp
qed simp

lemma raise_irq_frame: "hw_frame (fst x) (fst (raise_irq src v x))"
proof (cases x)
  case (Pair s pl)
  obtain c evs where c: "set_pending src v (plic pl) = (c, evs)" by (cases "set_pending src v (plic pl)")
  show ?thesis
    using fold_frame [of on_external_irq "(s, pl\<lparr>plic := c\<rparr>)" evs, OF on_external_irq_frame]
    by (simp add: Pair raise_irq_def c)
qed

lemma on_uart_frame: "hw_frame (fst x) (fst (on_uart e x))"
proof (cases e)
  case (UART_TX b)
  then show ?thesis by (cases x) (simp add: on_uart_def)
qed (simp add: on_uart_def raise_irq_frame)

lemma on_fb_frame: "hw_frame (fst x) (fst (on_fb e x))"
  by (cases e) (simp_all add: on_fb_def raise_irq_frame)

lemmas callback_hw_frames = on_external_irq_frame on_clint_irq_frame raise_irq_frame on_uart_frame on_fb_frame

lemmas callback_hw_frames_pair = callback_hw_frames [where x = "(s, pl)" for s pl, unfolded fst_conv]

text \<open>What a list of callbacks does to the lines.\<close>

lemma fold_external:
  "\<exists>s'. fold on_external_irq evs (s, pl) = (s', pl) \<and>
    (\<forall>k. bit (hw_mip (csr s')) k =
      (if k = 11 then follow Some evs (bit (hw_mip (csr s)) 11) else bit (hw_mip (csr s)) k))"
proof (induction evs arbitrary: s)
  case (Cons v evs)
  show ?case
    using Cons [of "s\<lparr>csr := set_mip_meip v (csr s)\<rparr>"]
    by (auto simp: on_external_irq_def set_mip_meip_def bit_set_hw_bit)
qed simp

lemma fold_clint:
  "\<exists>s'. fold on_clint_irq evs (s, pl) = (s', pl) \<and>
    (\<forall>k. bit (hw_mip (csr s')) k =
      (if k = 7 then follow timer_line evs (bit (hw_mip (csr s)) 7)
       else if k = 3 then follow sw_line evs (bit (hw_mip (csr s)) 3) else bit (hw_mip (csr s)) k))"
proof (induction evs arbitrary: s)
  case (Cons e evs)
  define s1 where "s1 = fst (on_clint_irq e (s, pl))"
  have s1: "on_clint_irq e (s, pl) = (s1, pl)"
    "bit (hw_mip (csr s1)) k = (if k = 7 then follow timer_line [e] (bit (hw_mip (csr s)) 7)
      else if k = 3 then follow sw_line [e] (bit (hw_mip (csr s)) 3) else bit (hw_mip (csr s)) k)" for k
    by (cases e; simp add: s1_def on_clint_irq_def set_mip_mtip_def set_mip_msip_def bit_set_hw_bit
        timer_line_def sw_line_def)+
  show ?case using Cons [of s1] by (auto simp: s1)
qed simp

lemma set_pending_line:
  "set_pending i v c = (c', evs) \<Longrightarrow> follow Some evs (\<exists>j. claimable c j) = (\<exists>j. claimable c' j)"
  by (auto simp: set_pending_def Let_def evaluate_irq_iff split: if_splits)

lemma raise_irq_inv:
  assumes "soc_inv x"
  shows "soc_inv (raise_irq src v x)"
proof (cases x)
  case (Pair s pl)
  obtain c evs where c: "set_pending src v (plic pl) = (c, evs)" by (cases "set_pending src v (plic pl)")
  obtain s' where "fold on_external_irq evs (s, pl\<lparr>plic := c\<rparr>) = (s', pl\<lparr>plic := c\<rparr>)"
    "\<forall>k. bit (hw_mip (csr s')) k = (if k = 11 then follow Some evs (bit (hw_mip (csr s)) 11) else bit (hw_mip (csr s)) k)"
    using fold_external by blast
  with assms set_pending_line [OF c] plic_inv_set_pending [of "plic pl" src v] show ?thesis
    by (simp add: Pair raise_irq_def c soc_inv_def lines_exact_def plat_inv_def)
qed

lemma on_uart_inv: "soc_inv x \<Longrightarrow> soc_inv (on_uart e x)"
proof (cases e)
  case (UART_TX b)
  assume "soc_inv x"
  with UART_TX show ?thesis by (cases x) (simp add: on_uart_def soc_inv_def lines_exact_def plat_inv_def)
qed (simp add: on_uart_def raise_irq_inv)

lemma on_fb_inv: "soc_inv x \<Longrightarrow> soc_inv (on_fb e x)"
  by (cases e) (simp_all add: on_fb_def raise_irq_inv)

lemma fold_inv: "(\<And>e x. P x \<Longrightarrow> P (cb e x)) \<Longrightarrow> P x \<Longrightarrow> P (fold cb evs x)"
  by (induction evs arbitrary: x) auto

subsection \<open>Transactions\<close>

lemma lift_targetE:
  assumes "lift_target bt get put cb p (s, pl) = Inr (p', x')"
  obtains d' evs where "bt p (get pl) = Inr (p', d', evs)" and "x' = fold cb evs (s, put d' pl)"
  using assms by (auto simp: lift_target_def split: sum.splits)

text \<open>Targets other than the interrupt controllers keep the lines exact before their callbacks run.\<close>

lemma lift_target_inv:
  assumes "lift_target bt get put cb p x = Inr (p', x')" and "soc_inv x"
    and "\<And>e x. soc_inv x \<Longrightarrow> soc_inv (cb e x)"
    and "\<And>s pl d' evs. plat_inv pl \<Longrightarrow> bt p (get pl) = Inr (p', d', evs) \<Longrightarrow>
      plat_inv (put d' pl) \<and> clint (put d' pl) = clint pl \<and> plic (put d' pl) = plic pl"
  shows "soc_inv x'"
proof (cases x)
  case (Pair s pl)
  from assms(1) [unfolded Pair] obtain d' evs
    where t: "bt p (get pl) = Inr (p', d', evs)" "x' = fold cb evs (s, put d' pl)"
    by (rule lift_targetE)
  have "soc_inv (s, put d' pl)"
    using assms(2) assms(4) [OF _ t(1)] by (auto simp: Pair soc_inv_def lines_exact_def)
  with t(2) show ?thesis using fold_inv [of soc_inv cb, OF assms(3)] by blast
qed

lemma lift_target_frame:
  assumes "lift_target bt get put cb p x = Inr (p', x')" and "\<And>e x. hw_frame (fst x) (fst (cb e x))"
  shows "hw_frame (fst x) (fst x')"
proof (cases x)
  case (Pair s pl)
  from assms(1) [unfolded Pair] obtain d' evs where "x' = fold cb evs (s, put d' pl)" by (rule lift_targetE)
  then show ?thesis using fold_frame [of cb "(s, put d' pl)" evs, OF assms(2)] by (simp add: Pair)
qed

lemma clint_target_inv:
  assumes "lift_target clint_b_transport clint (\<lambda>d pl. pl\<lparr>clint := d\<rparr>) on_clint_irq p x = Inr (p', x')"
    and "soc_inv x"
  shows "soc_inv x'"
proof (cases x)
  case (Pair s pl)
  from assms(1) [unfolded Pair] obtain c evs
    where t: "clint_b_transport p (clint pl) = Inr (p', c, evs)" "x' = fold on_clint_irq evs (s, pl\<lparr>clint := c\<rparr>)"
    by (rule lift_targetE)
  obtain s' where s': "x' = (s', pl\<lparr>clint := c\<rparr>)"
    "\<forall>k. bit (hw_mip (csr s')) k = (if k = 7 then follow timer_line evs (bit (hw_mip (csr s)) 7)
       else if k = 3 then follow sw_line evs (bit (hw_mip (csr s)) 3) else bit (hw_mip (csr s)) k)"
    using fold_clint [of evs s "pl\<lparr>clint := c\<rparr>"] t(2) by auto
  with assms(2) clint_timer.transport_line [OF _ t(1)] clint_sw.transport_line [OF _ t(1)] show ?thesis
    by (simp add: Pair soc_inv_def lines_exact_def plat_inv_def)
qed

lemma plic_target_inv:
  assumes "lift_target plic_b_transport plic (\<lambda>d pl. pl\<lparr>plic := d\<rparr>) on_external_irq p x = Inr (p', x')"
    and "soc_inv x"
  shows "soc_inv x'"
proof (cases x)
  case (Pair s pl)
  from assms(1) [unfolded Pair] obtain c evs
    where t: "plic_b_transport p (plic pl) = Inr (p', c, evs)" "x' = fold on_external_irq evs (s, pl\<lparr>plic := c\<rparr>)"
    by (rule lift_targetE)
  have i: "plic_inv (plic pl)" using assms(2) by (simp add: Pair soc_inv_def plat_inv_def)
  obtain s' where s': "x' = (s', pl\<lparr>plic := c\<rparr>)"
    "\<forall>k. bit (hw_mip (csr s')) k = (if k = 11 then follow Some evs (bit (hw_mip (csr s)) 11) else bit (hw_mip (csr s)) k)"
    using fold_external [of evs s "pl\<lparr>plic := c\<rparr>"] t(2) by auto
  with assms(2) plic.transport_line [OF i t(1)] plic.target.invariant [OF i t(1)] show ?thesis
    by (simp add: Pair soc_inv_def lines_exact_def plat_inv_def)
qed

lemma vp_target_inv:
  assumes "vp_target throws i p x = Inr (p', x')" and "soc_inv x"
  shows "soc_inv x'"
proof -
  note simple = lift_target_inv [OF _ assms(2)]
  show ?thesis
    using assms(1)
    by (auto simp: vp_target_def split: if_splits
        elim!: clint_target_inv [OF _ assms(2)] plic_target_inv [OF _ assms(2)] simple
        intro: raise_irq_inv on_uart_inv on_fb_inv
        simp: plat_inv_def ram.invariant rom.invariant uart.target.invariant fb.target.invariant
          audio.target.invariant)
qed

lemma vp_target_frame:
  assumes "vp_target throws i p x = Inr (p', x')"
  shows "hw_frame (fst x) (fst x')"
  using assms
  by (auto simp: vp_target_def callback_hw_frames_pair split: if_splits elim!: lift_target_frame)

lemma lift_target_request:
  assumes "lift_target bt get put cb p x = Inr (p', x')"
    and "\<And>d d' evs. bt p d = Inr (p', d', evs) \<Longrightarrow> same_request p p'"
  shows "same_request p p'"
  using assms by (cases x) (auto elim: lift_targetE)

lemma vp_target_request:
  assumes "vp_target throws i p x = Inr (p', x')"
  shows "same_request p p'"
  using assms
  by (auto simp: vp_target_def split: if_splits elim!: lift_target_request
      dest: ram.request rom.request clint_timer.target.request plic.target.request uart.target.request
        gpio.target.request timer.target.request spi.target.request sd.target.request dma.target.request
        fb.target.request audio.target.request)

lemma lift_target_defined:
  "bt p (get (snd x)) \<noteq> Inl e \<Longrightarrow> lift_target bt get put cb p x \<noteq> Inl e"
  by (cases x) (auto simp: lift_target_def split: sum.splits)

text \<open>The window of each target; an access of the processor inside it is defined.\<close>

lemmas device_defined =
  clint_timer.target.defined [OF TrueI _ lessI] plic.target.defined [OF _ _ lessI] uart.target.defined [OF _ _ lessI]
  gpio.target.defined [OF TrueI _ lessI] timer.target.defined [OF TrueI _ lessI] spi.target.defined [OF TrueI _ lessI]
  sd.target.defined [OF TrueI _ lessI] dma.target.defined [OF TrueI _ lessI] fb.target.defined [OF _ _ lessI]
  audio.target.defined [OF _ _ lessI]

lemma vp_target_defined:
  assumes "plat_inv (snd x)" and "cpu_access p"
    and "i = 0 \<Longrightarrow> unat (p_addr p) < unat BOOTROM_SIZE" and "i = 1 \<Longrightarrow> unat (p_addr p) < unat RAM_SIZE"
  shows "vp_target throws i p x \<noteq> Inl HOST_UB"
  using assms
  by (simp add: vp_target_def plat_inv_def lift_target_defined device_defined ram.defined rom.defined)

section \<open>The bus as a whole\<close>

lemma unat_ucast_u64: "unat (ucast w :: u64) = unat w" for w :: u32
proof -
  have "unat w < 2 ^ 64" using unsigned_less [of w, where ?'a = nat] by simp
  then show ?thesis by (simp add: unsigned_ucast_eq take_bit_nat_eq_self)
qed

lemma vp_transport_cases:
  assumes "vp_transport throws p x = r"
  obtains (miss) "r = Inr (p\<lparr>p_status := TLM_ADDRESS_ERROR\<rparr>, x)"
  | (hit) i base sz where "i < 12" "(base, sz) = vp_ranges ! i" "unat (ucast (p_addr p) - base :: u32) < unat sz"
      "r = (case vp_target throws (of_nat i) (p\<lparr>p_addr := ucast (ucast (p_addr p) - base)\<rparr>) x of
         Inl e \<Rightarrow> Inl e | Inr (p', x') \<Rightarrow> Inr (p'\<lparr>p_addr := ucast (ucast (p_addr p) :: u32)\<rparr>, x'))"
proof (cases "bus_decode vp_bus (ucast (p_addr p))")
  case None
  then have "r = Inr (p\<lparr>p_status := TLM_ADDRESS_ERROR\<rparr>, x)"
    using assms by (simp add: vp_transport_def bus_b_transport_def)
  then show ?thesis by (rule miss)
next
  case (Some k)
  let ?r = "ranges vp_bus ! k"
  from Some bus_decode_iff [OF vp_bus_inv] have k: "k < length (ranges vp_bus)" "unat (ucast (p_addr p) :: u32) \<in> span_of ?r"
    by auto
  have "list_all (\<lambda>r. \<exists>i < 12. (r_base r, r_size r) = vp_ranges ! i \<and> target_idx r = of_nat i) (ranges vp_bus)"
    by code_simp
  then obtain i where i: "i < 12" "(r_base ?r, r_size ?r) = vp_ranges ! i" "target_idx ?r = of_nat i"
    using k(1) by (auto simp: list_all_length)
  have "unat (ucast (p_addr p) - r_base ?r :: u32) = unat (ucast (p_addr p) :: u32) - unat (r_base ?r)"
    using k(2) by (intro unat_sub) (simp add: span_of_def word_le_nat_alt)
  then have off: "unat (ucast (p_addr p) - r_base ?r :: u32) < unat (r_size ?r)"
    using k(2) by (auto simp: span_of_def)
  show ?thesis
    by (rule hit [OF i(1,2) off]) (use assms Some i(3) in \<open>simp add: vp_transport_def bus_b_transport_def Let_def\<close>)
qed

lemma vp_transport_inv: "vp_transport throws p x = Inr (p', x') \<Longrightarrow> soc_inv x \<Longrightarrow> soc_inv x'"
  by (erule vp_transport_cases) (auto split: sum.splits dest: vp_target_inv)

lemma vp_transport_frame: "vp_transport throws p x = Inr (p', x') \<Longrightarrow> hw_frame (fst x) (fst x')"
  by (erule vp_transport_cases) (auto split: sum.splits dest: vp_target_frame)

lemma vp_transport_request:
  assumes "vp_transport throws p x = Inr (p', x')"
  shows "p_len p' = p_len p \<and> length (p_data p') = length (p_data p)"
  using assms
  by (cases rule: vp_transport_cases)
    (auto simp: same_request_def split: sum.splits dest!: vp_target_request)

lemma vp_transport_defined:
  assumes "plat_inv (snd x)" and "cpu_access p"
  shows "vp_transport throws p x \<noteq> Inl HOST_UB"
proof
  assume "vp_transport throws p x = Inl HOST_UB"
  then show False
  proof (cases rule: vp_transport_cases)
    case miss
    then show False by simp
  next
    case (hit i base sz)
    let ?p = "p\<lparr>p_addr := ucast (ucast (p_addr p) - base :: u32)\<rparr>"
    have a: "unat (p_addr ?p) = unat (ucast (p_addr p) - base :: u32)"
      by (simp add: unat_ucast_u64)
    have "cpu_access ?p" using assms(2) by (simp add: cpu_access_def)
    moreover have "of_nat i = (0 :: u32) \<Longrightarrow> i = 0" "of_nat i = (1 :: u32) \<Longrightarrow> i = Suc 0"
      using hit(1) by (auto dest: arg_cong [of _ _ unat] simp: unat_of_nat)
    then have "of_nat i = (0 :: u32) \<Longrightarrow> unat (p_addr ?p) < unat BOOTROM_SIZE"
      "of_nat i = (1 :: u32) \<Longrightarrow> unat (p_addr ?p) < unat RAM_SIZE"
      using hit(2,3) unfolding a by (auto simp: vp_ranges_def)
    ultimately have "vp_target throws (of_nat i) ?p x \<noteq> Inl HOST_UB"
      using vp_target_defined assms(1) by blast
    with hit(4) show False by (auto split: sum.splits)
  qed
qed

section \<open>Turns of the bus masters, ticks and host inputs\<close>

lemma dma_chunk_keeps:
  assumes "dma_chunk bus buf n src dst s = Inr (b, s')" and "P s"
    and "\<And>p s p' s'. bus p s = Inr (p', s') \<Longrightarrow> P s \<Longrightarrow> P s'"
  shows "P s'"
  using assms by (auto simp: dma_chunk_def split: sum.splits if_splits)

lemma dma_loop_keeps:
  assumes "dma_loop bus junk n src dst s = Inr (b, s')" and "P s"
    and "\<And>p s p' s'. bus p s = Inr (p', s') \<Longrightarrow> P s \<Longrightarrow> P s'"
  shows "P s'"
  using assms
proof (induction bus junk n src dst s rule: dma_loop.induct [case_names loop])
  case (loop bus junk n src dst s)
  show ?case
  proof (cases "0 < n")
    case False
    with loop.prems show ?thesis by (simp add: dma_loop.simps [of _ _ n])
  next
    case True
    let ?c = "min n 256"
    from loop.prems(1) True obtain b1 s1 where s1: "dma_chunk bus (junk n) ?c src dst s = Inr (b1, s1)"
      by (subst (asm) dma_loop.simps) (auto simp: Let_def split: sum.splits)
    have P: "P s1" by (rule dma_chunk_keeps [where P = P, OF s1 loop.prems(2)]) (fact loop.prems(3))
    show ?thesis
    proof (cases b1)
      case b1: True
      have "dma_loop bus junk (n - ?c) (src + ?c) (dst + ?c) s1 = Inr (b, s')"
        using loop.prems(1) True s1 b1 by (subst (asm) dma_loop.simps) (simp add: Let_def)
      with loop.IH [OF True refl s1 refl eqTrueI [OF b1]] P loop.prems(3) show ?thesis by blast
    next
      case False
      with loop.prems(1) True s1 P show ?thesis by (subst (asm) dma_loop.simps) (simp add: Let_def)
    qed
  qed
qed

lemma sd_block_keeps:
  assumes "sd_block bus get put n dest s = Inr (b, s')" and "P s"
    and "\<And>p s p' s'. bus p s = Inr (p', s') \<Longrightarrow> P s \<Longrightarrow> P s'" and "\<And>d s. P s \<Longrightarrow> P (put d s)"
  shows "P s'"
  using assms by (auto simp: sd_block_def split: sum.splits option.splits prod.splits)

lemma sd_loop_keeps:
  assumes "sd_loop bus get put blocks a i dest s = Inr (b, s')" and "P s"
    and "\<And>p s p' s'. bus p s = Inr (p', s') \<Longrightarrow> P s \<Longrightarrow> P s'" and "\<And>d s. P s \<Longrightarrow> P (put d s)"
  shows "P s'"
  using assms
proof (induction bus get put blocks a i dest s rule: sd_loop.induct [case_names loop])
  case (loop bus get put blocks a i dest s)
  show ?case
  proof (cases "i < blocks")
    case False
    with loop.prems show ?thesis by (simp add: sd_loop.simps [of _ _ _ blocks])
  next
    case True
    from loop.prems(1) True obtain b1 s1 where s1: "sd_block bus get put (a + i) dest s = Inr (b1, s1)"
      by (subst (asm) sd_loop.simps) (auto split: sum.splits)
    have P: "P s1" by (rule sd_block_keeps [where P = P, OF s1 loop.prems(2)]) (fact loop.prems)+
    show ?thesis
    proof (cases b1)
      case b1: True
      have "sd_loop bus get put blocks a (i + 1) (dest + 512) s1 = Inr (b, s')"
        using loop.prems(1) True s1 b1 by (subst (asm) sd_loop.simps) simp
      with loop.IH [OF True s1 refl eqTrueI [OF b1]] P loop.prems(3,4) show ?thesis by blast
    next
      case False
      with loop.prems(1) True s1 P show ?thesis by (subst (asm) sd_loop.simps) simp
    qed
  qed
qed

lemma dma_turn_keeps:
  assumes "dma_thread_turn bus junk get put s = Inr (s', evs)" and "P s"
    and "\<And>p s p' s'. bus p s = Inr (p', s') \<Longrightarrow> P s \<Longrightarrow> P s'" and "\<And>d s. P s \<Longrightarrow> P (put d s)"
  shows "P s'"
proof -
  from assms(1) obtain n src dst d ok s1 d2 where
    loop: "dma_loop bus junk n src dst (put d s) = Inr (ok, s1)" and s': "s' = put d2 s1"
    by (auto simp: dma_thread_turn_def Let_def split: sum.splits)
  have "P s1" by (rule dma_loop_keeps [where P = P, OF loop assms(4) [OF assms(2)]]) (fact assms(3))
  then show ?thesis unfolding s' by (rule assms(4))
qed

lemma sd_turn_keeps:
  assumes "sd_thread_turn bus get put s = Inr (s', evs)" and "P s"
    and "\<And>p s p' s'. bus p s = Inr (p', s') \<Longrightarrow> P s \<Longrightarrow> P s'" and "\<And>d s. P s \<Longrightarrow> P (put d s)"
  shows "P s'"
proof -
  from assms(1) obtain n a dest d ok s1 d2 where
    loop: "sd_loop bus get put n a 0 dest (put d s) = Inr (ok, s1)" and s': "s' = put d2 s1"
    by (auto simp: sd_thread_turn_def Let_def split: sum.splits)
  have "P s1" by (rule sd_loop_keeps [where P = P, OF loop assms(4) [OF assms(2)]]) (fact assms(3,4))+
  then show ?thesis unfolding s' by (rule assms(4))
qed

lemma soc_inv_put: "soc_inv x \<Longrightarrow> soc_inv (vp_put_dma d x)" "soc_inv x \<Longrightarrow> soc_inv (vp_put_sd c x)"
  by (cases x; simp add: vp_put_dma_def vp_put_sd_def soc_inv_def lines_exact_def plat_inv_def)+

lemma fold_raise_inv: "soc_inv x \<Longrightarrow> soc_inv (fold (raise_irq src) evs x)"
  by (rule fold_inv [where P = soc_inv]) (rule raise_irq_inv)

lemma vp_dma_turn_inv: "vp_dma_turn throws junk x = Inr x' \<Longrightarrow> soc_inv x \<Longrightarrow> soc_inv x'"
  unfolding vp_dma_turn_def
  by (auto split: sum.splits intro!: fold_raise_inv
      elim: dma_turn_keeps [where P = soc_inv, OF _ _ vp_transport_inv soc_inv_put(1)])

lemma vp_sd_turn_inv: "vp_sd_turn throws x = Inr x' \<Longrightarrow> soc_inv x \<Longrightarrow> soc_inv x'"
  unfolding vp_sd_turn_def
  by (auto split: sum.splits intro!: fold_raise_inv
      elim: sd_turn_keeps [where P = soc_inv, OF _ _ vp_transport_inv soc_inv_put(2)])

lemma vp_clint_tick_inv:
  assumes "soc_inv x"
  shows "soc_inv (vp_clint_tick x)"
proof (cases x)
  case (Pair s pl)
  obtain c evs where c: "clint_tick (clint pl) = (c, evs)" by (cases "clint_tick (clint pl)")
  have line: "follow timer_line evs b = (mtime c \<ge> mtimecmp c)" "follow sw_line evs b = b" "msip c = msip (clint pl)" for b
    using c by (auto simp: clint_tick_def clint_line_defs)
  obtain s' where "fold on_clint_irq evs (s, pl\<lparr>clint := c\<rparr>) = (s', pl\<lparr>clint := c\<rparr>)"
    "\<forall>k. bit (hw_mip (csr s')) k = (if k = 7 then follow timer_line evs (bit (hw_mip (csr s)) 7)
       else if k = 3 then follow sw_line evs (bit (hw_mip (csr s)) 3) else bit (hw_mip (csr s)) k)"
    using fold_clint by blast
  with assms show ?thesis
    by (simp add: Pair vp_clint_tick_def c soc_inv_def lines_exact_def plat_inv_def line)
qed

lemma vp_timer_tick_inv:
  assumes "soc_inv x"
  shows "soc_inv (vp_timer_tick x)"
proof (cases x)
  case (Pair s pl)
  have "soc_inv (s, pl\<lparr>timer := fst (timer_tick (timer pl))\<rparr>)"
    using assms by (simp add: Pair soc_inv_def lines_exact_def plat_inv_def)
  then show ?thesis
    using fold_raise_inv
    by (simp add: Let_def Pair vp_timer_tick_def split_def)
qed

lemma vp_push_rx_inv:
  assumes "soc_inv x"
  shows "soc_inv (vp_push_rx b x)"
proof (cases x)
  case (Pair s pl)
  have "uart_inv (fst (push_rx b (uart pl)))"
    using push_rx_line [of "uart pl" b] assms by (cases "push_rx b (uart pl)") (simp add: Pair soc_inv_def plat_inv_def)
  then have "soc_inv (s, pl\<lparr>uart := fst (push_rx b (uart pl))\<rparr>)"
    using assms by (simp add: Pair soc_inv_def lines_exact_def plat_inv_def)
  then show ?thesis
    using fold_inv [of soc_inv on_uart, OF on_uart_inv] by (simp add: Let_def Pair vp_push_rx_def split_def)
qed

lemma vp_set_input_inv:
  assumes "soc_inv x"
  shows "soc_inv (vp_set_input pins x)"
proof (cases x)
  case (Pair s pl)
  have "soc_inv (s, pl\<lparr>gpio := fst (set_input pins (gpio pl))\<rparr>)"
    using assms by (simp add: Pair soc_inv_def lines_exact_def plat_inv_def)
  then show ?thesis
    using fold_raise_inv
    by (simp add: Let_def Pair vp_set_input_def split_def)
qed

lemmas vp_operation_inv = vp_transport_inv vp_dma_turn_inv vp_sd_turn_inv vp_clint_tick_inv vp_timer_tick_inv
  vp_push_rx_inv vp_set_input_inv

section \<open>Memory as the bus masters see it\<close>

definition ram_byte :: "soc \<Rightarrow> nat \<Rightarrow> u8" where
  "ram_byte x a = (if 0x80000000 \<le> a \<and> a < 0x88000000 then m_data (ram (snd x)) ! (a - 0x80000000) else 0)"

definition ram_mapped :: "nat \<Rightarrow> nat \<Rightarrow> bool" where
  "ram_mapped a n = (0x80000000 \<le> a \<and> a + n \<le> 0x88000000)"

lemma ram_offset:
  assumes "ram_mapped (unat a) (unat n)" and "0 < n"
  shows "unat (a - 0x80000000) = unat a - 0x80000000" "unat (a - 0x80000000 + n) = unat a - 0x80000000 + unat n"
    "\<not> a - 0x80000000 + n > (0x08000000 :: u32)" "unat a < 0x88000000"
proof -
  have n: "0 < unat n" using assms(2) by (simp add: word_less_nat_alt)
  show 1: "unat (a - 0x80000000) = unat a - 0x80000000"
    using assms(1) by (subst unat_sub) (simp_all add: ram_mapped_def word_le_nat_alt)
  show 2: "unat (a - 0x80000000 + n) = unat a - 0x80000000 + unat n"
    using assms(1) by (simp only: unat_word_ariths 1) (auto simp: ram_mapped_def)
  show "\<not> a - 0x80000000 + n > (0x08000000 :: u32)"
    using assms(1) 2 by (auto simp: word_less_nat_alt ram_mapped_def)
  show "unat a < 0x88000000" using assms(1) n by (simp add: ram_mapped_def)
qed

lemma ram_transaction:
  assumes "ram_mapped (unat a) (unat n)" and "0 < n"
  shows "vp_transport throws (master_payload cmd a buf n) x =
    (case lift_target (memory_b_transport throws) ram (\<lambda>d pl. pl\<lparr>ram := d\<rparr>) (\<lambda>e :: unit. id)
       (master_payload cmd (a - 0x80000000) buf n) x of
       Inl e \<Rightarrow> Inl e
     | Inr (p', x') \<Rightarrow> Inr (p'\<lparr>p_addr := ucast a\<rparr>, x'))"
proof -
  have m: "master_payload cmd b buf n = (master_payload cmd 0 buf n)\<lparr>p_addr := ucast b\<rparr>" for b
    by (simp add: master_payload_def)
  have "(RAM_BASE, RAM_SIZE) = vp_ranges ! 1" by (simp add: vp_ranges_def)
  then have "vp_transport throws ((master_payload cmd 0 buf n)\<lparr>p_addr := ucast a\<rparr>) x =
      (case vp_target throws (of_nat 1) ((master_payload cmd 0 buf n)\<lparr>p_addr := ucast (a - 0x80000000)\<rparr>) x of
         Inl e \<Rightarrow> Inl e | Inr (p', x') \<Rightarrow> Inr (p'\<lparr>p_addr := ucast a\<rparr>, x'))"
    using assms(1) ram_offset(4) [OF assms] by (intro vp_route) (auto simp: ram_mapped_def)
  then show ?thesis by (simp add: m [of a] m [of "a - 0x80000000"] vp_target_def)
qed

lemma ucast_u64_u32: "ucast (ucast w :: u64) = w" for w :: u32
  by (rule u32_eqI) (simp add: bit_simps)

lemma vp_ram_read:
  assumes "soc_inv x" and "ram_mapped (unat a) (unat n)" and "0 < n" and "unat n \<le> length buf"
  shows "\<exists>p. vp_transport throws (master_payload TLM_READ a buf n) x = Inr (p, x) \<and> p_status p = TLM_OK \<and>
    p_data p = map (\<lambda>i. ram_byte x (unat a + i)) [0..<unat n] @ drop (unat n) buf"
proof -
  note o = ram_offset [OF assms(2,3)]
  obtain s pl where x: "x = (s, pl)" by (cases x)
  have m: "m_size (ram pl) = RAM_SIZE" "length (m_data (ram pl)) = 0x08000000"
    using assms(1) by (simp_all add: x soc_inv_def plat_inv_def memory_ok_def)
  have fits: "unat (a - 0x80000000) + unat n \<le> 0x08000000"
    using assms(2) by (auto simp: o(1) ram_mapped_def)
  have "take (unat n) (drop (unat (a - 0x80000000)) (m_data (ram pl))) = map (\<lambda>i. ram_byte x (unat a + i)) [0..<unat n]"
    using assms(2) fits m(2) by (intro nth_equalityI) (simp_all add: o(1) ram_byte_def x ram_mapped_def)
  then show ?thesis
    using o(3) m fits assms(4)
    unfolding ram_transaction [OF assms(2,3)] x
    by (simp add: lift_target_def memory_b_transport_def master_payload_def
        ucast_u64_u32 vec_read_def Let_def)
qed

lemma vp_ram_write:
  assumes "soc_inv x" and "ram_mapped (unat a) (unat n)" and "0 < n" and "unat n \<le> length buf"
  shows "\<exists>p x'. vp_transport throws (master_payload TLM_WRITE a buf n) x = Inr (p, x') \<and> p_status p = TLM_OK \<and>
    soc_inv x' \<and> vp_get_dma x' = vp_get_dma x \<and> vp_get_sd x' = vp_get_sd x \<and>
    (\<forall>b. ram_byte x' b = (if unat a \<le> b \<and> b < unat a + unat n then buf ! (b - unat a) else ram_byte x b))"
proof -
  note o = ram_offset [OF assms(2,3)]
  obtain s pl where x: "x = (s, pl)" by (cases x)
  have m: "m_size (ram pl) = RAM_SIZE" "length (m_data (ram pl)) = 0x08000000"
    using assms(1) by (simp_all add: x soc_inv_def plat_inv_def memory_ok_def)
  have fits: "unat (a - 0x80000000) + unat n \<le> 0x08000000"
    using assms(2) by (auto simp: o(1) ram_mapped_def)
  then obtain v where v: "vec_write (m_data (ram pl)) (unat (a - 0x80000000)) (unat n) buf = Some v"
    using assms(4) m(2) by (simp add: vec_write_def)
  define x' where "x' = (s, pl\<lparr>ram := (ram pl)\<lparr>m_data := v\<rparr>\<rparr>)"
  have t: "\<exists>p. vp_transport throws (master_payload TLM_WRITE a buf n) x = Inr (p, x') \<and> p_status p = TLM_OK"
    using o(3) m v
    unfolding ram_transaction [OF assms(2,3)] x
    by (simp add: lift_target_def memory_b_transport_def master_payload_def
        ucast_u64_u32 Let_def x'_def)
  moreover from t have "soc_inv x'" using vp_transport_inv assms(1) by blast
  moreover have "ram_byte x' b = (if unat a \<le> b \<and> b < unat a + unat n then buf ! (b - unat a) else ram_byte x b)" for b
    using nth_vec_write [OF v, of "b - 0x80000000"] m(2) assms(2)
    by (auto simp: ram_byte_def x x'_def o(1) ram_mapped_def)
  ultimately show ?thesis by (auto simp: x x'_def vp_get_dma_def vp_get_sd_def)
qed

interpretation vp_dma: dma_bus "vp_transport throws" ram_byte ram_mapped soc_inv vp_get_dma vp_put_dma for throws
proof
  show "\<exists>p s'. vp_transport throws (master_payload TLM_WRITE a buf n) x = Inr (p, s') \<and> p_status p = TLM_OK \<and>
      soc_inv s' \<and> vp_get_dma s' = vp_get_dma x \<and>
      (\<forall>b. ram_byte s' b = (if unat a \<le> b \<and> b < unat a + unat n then buf ! (b - unat a) else ram_byte x b))"
    if "soc_inv x" "ram_mapped (unat a) (unat n)" "0 < n" "unat n \<le> length buf" for x a n buf
    using vp_ram_write [OF that, of throws] by blast
  show "soc_inv (vp_put_dma d x)" if "soc_inv x" for d x using that by (rule soc_inv_put)
qed (use vp_ram_read in \<open>auto simp: ram_mapped_def vp_get_dma_def vp_put_dma_def ram_byte_def\<close>)

interpretation vp_sd: sd_bus "vp_transport throws" ram_byte ram_mapped soc_inv vp_get_sd vp_put_sd for throws
proof
  show "\<exists>p s'. vp_transport throws (master_payload TLM_WRITE a buf n) x = Inr (p, s') \<and> p_status p = TLM_OK \<and>
      soc_inv s' \<and> vp_get_sd s' = vp_get_sd x \<and>
      (\<forall>b. ram_byte s' b = (if unat a \<le> b \<and> b < unat a + unat n then buf ! (b - unat a) else ram_byte x b))"
    if "soc_inv x" "ram_mapped (unat a) (unat n)" "0 < n" "unat n \<le> length buf" for x a n buf
    using vp_ram_write [OF that, of throws] by blast
  show "soc_inv (vp_put_sd d x)" if "soc_inv x" for d x using that by (rule soc_inv_put)
qed (use vp_ram_read in \<open>auto simp: ram_mapped_def vp_get_sd_def vp_put_sd_def ram_byte_def\<close>)

section \<open>Properties\<close>

text \<open>
  A load or store of the processor is always defined on the host: whatever the address, a
  transaction of 1, 2 or 4 bytes with a 4-byte buffer never makes a device copy outside a buffer.
\<close>

theorem vp_cpu_access_defined:
  assumes "soc_inv x" and "cpu_access p"
  shows "vp_transport throws p x \<noteq> Inl HOST_UB"
  using assms vp_transport_defined by (auto simp: soc_inv_def)

theorem vp_cpu_access_defined_witness:
  "vp_transport True \<lparr>p_cmd = TLM_WRITE, p_addr = 0x10000000, p_data = [65, 0, 0, 0], p_len = 1, p_status = TLM_INCOMPLETE\<rparr>
     (CPUState_init, Plat_new) \<noteq> Inl HOST_UB"
  by (rule vp_cpu_access_defined [OF soc_inv_new]) (simp add: cpu_access_def)

text \<open>
  C25. A DMA transfer between ranges of RAM copies them: the turn returns, the destination holds
  what the source held, every other byte of memory is as before, the status says done without
  error, the interrupt is raised if it is enabled, and the platform's invariant holds. The
  destination may lie below the source, overlapping or not, or beyond its end.
\<close>

theorem vp_dma_copies:
  assumes "soc_inv x" and "d = vp_get_dma x" and "ram_mapped (unat (src_addr d)) (unat (byte_count d))"
    and "ram_mapped (unat (dst_addr d)) (unat (byte_count d))" and "\<And>r. length (junk r) = 256"
    and "unat (dst_addr d) \<le> unat (src_addr d) \<or> unat (src_addr d) + unat (byte_count d) \<le> unat (dst_addr d)"
  shows "\<exists>x'. dma_thread_turn (vp_transport throws) junk vp_get_dma vp_put_dma x =
      Inr (x', if dma_ctrl d AND 2 \<noteq> 0 then [True] else []) \<and>
    soc_inv x' \<and> vp_get_dma x' = d\<lparr>dma_start := False, dma_status := 2\<rparr> \<and>
    (\<forall>a. ram_byte x' a = (if unat (dst_addr d) \<le> a \<and> a < unat (dst_addr d) + unat (byte_count d)
       then ram_byte x (unat (src_addr d) + (a - unat (dst_addr d))) else ram_byte x a))"
  by (rule vp_dma.dma_turn_copies [OF assms(1) assms(2) [symmetric] assms(3-6)])

theorem vp_dma_copies_witness:
  "\<exists>x'. dma_thread_turn (vp_transport True) (\<lambda>r. replicate 256 0) vp_get_dma vp_put_dma
      (vp_put_dma \<lparr>src_addr = 0x80001000, dst_addr = 0x80000000, byte_count = 1000, dma_ctrl = 3,
         dma_status = 0, dma_start = True\<rparr> (CPUState_init, Plat_new)) = Inr (x', [True]) \<and>
    soc_inv x' \<and> dma_status (vp_get_dma x') = 2"
proof -
  let ?d = "\<lparr>src_addr = 0x80001000, dst_addr = 0x80000000, byte_count = 1000, dma_ctrl = 3,
    dma_status = 0, dma_start = True\<rparr>"
  let ?x = "vp_put_dma ?d (CPUState_init, Plat_new)"
  have i: "soc_inv ?x" by (rule soc_inv_put [OF soc_inv_new])
  have g: "?d = vp_get_dma ?x" by (simp add: vp_get_dma_def vp_put_dma_def)
  from vp_dma_copies [OF i g, of "\<lambda>r. replicate 256 0" True] show ?thesis
    by (auto simp: ram_mapped_def)
qed

text \<open>
  C26. The SD controller delivers the card: a read of one block, or of \<open>burst_len\<close> blocks, that
  lie inside the image into a range of RAM returns with these bytes of the image at the
  destination, in order, and nothing else in memory changed, status done, and the interrupt raised.
\<close>

theorem vp_sd_reads:
  assumes "soc_inv x" and "d = vp_get_sd x" and "sd_card d = Some c" and "sd_file c = Some bytes" and "\<not> sd_fail c"
    and "blocks = (if sd_cmd d = CMD18 then burst_len d else 1)"
    and "(unat (sd_arg d) + unat blocks) * 512 \<le> length bytes" and "unat (sd_arg d) + unat blocks < 2 ^ 32"
    and "ram_mapped (unat (data_addr d)) (unat blocks * 512)"
  shows "\<exists>x'. sd_thread_turn (vp_transport throws) vp_get_sd vp_put_sd x = Inr (x', [True]) \<and> soc_inv x' \<and>
    vp_get_sd x' = d\<lparr>sd_start := False, sd_status := STATUS_DONE\<rparr> \<and>
    (\<forall>a. ram_byte x' a = (if unat (data_addr d) \<le> a \<and> a < unat (data_addr d) + unat blocks * 512
       then bytes ! (unat (sd_arg d) * 512 + (a - unat (data_addr d))) else ram_byte x a))"
  by (rule vp_sd.sd_turn_reads [OF assms(1) assms(2) [symmetric] assms(3-9)])

theorem vp_sd_reads_witness:
  "\<exists>x'. sd_thread_turn (vp_transport True) vp_get_sd vp_put_sd
      (vp_put_sd \<lparr>sd_cmd = CMD18, sd_arg = 0, data_addr = 0x80000000, burst_len = 2, sd_status = 0, sd_start = True,
         sd_card = Some \<lparr>sd_file = Some (replicate 1024 7), sd_fail = False\<rparr>\<rparr> (CPUState_init, Plat_new)) = Inr (x', [True]) \<and>
    ram_byte x' 0x80000001 = 7"
proof -
  let ?c = "\<lparr>sd_file = Some (replicate 1024 7), sd_fail = False\<rparr>"
  let ?d = "\<lparr>sd_cmd = CMD18, sd_arg = 0, data_addr = 0x80000000, burst_len = 2, sd_status = 0, sd_start = True,
    sd_card = Some ?c\<rparr>"
  let ?x = "vp_put_sd ?d (CPUState_init, Plat_new)"
  have i: "soc_inv ?x" by (rule soc_inv_put [OF soc_inv_new])
  have g: "?d = vp_get_sd ?x" by (simp add: vp_get_sd_def vp_put_sd_def)
  have "\<exists>x'. sd_thread_turn (vp_transport True) vp_get_sd vp_put_sd ?x = Inr (x', [True]) \<and> soc_inv x' \<and>
      vp_get_sd x' = ?d\<lparr>sd_start := False, sd_status := STATUS_DONE\<rparr> \<and>
      (\<forall>a. ram_byte x' a = (if unat (data_addr ?d) \<le> a \<and> a < unat (data_addr ?d) + unat (2 :: u32) * 512
         then replicate 1024 7 ! (unat (sd_arg ?d) * 512 + (a - unat (data_addr ?d))) else ram_byte ?x a))"
    by (rule vp_sd_reads [OF i g, of ?c]) (simp_all add: ram_mapped_def)
  then show ?thesis by (auto simp: nth_replicate)
qed

text \<open>
  A DMA transfer of more than four bytes from RAM to the UART is undefined behaviour of the
  host: the engine sends bursts of up to 256 bytes and the UART copies as many bytes as the burst
  has into a 32-bit local.
\<close>

theorem vp_dma_to_uart_undefined:
  assumes "soc_inv x" and "d = vp_get_dma x" and "ram_mapped (unat (src_addr d)) (unat (byte_count d))"
    and "dst_addr d = UART_BASE" and "4 < unat (byte_count d)" and "\<And>r. length (junk r) = 256"
  shows "dma_thread_turn (vp_transport throws) junk vp_get_dma vp_put_dma x = Inl HOST_UB"
proof -
  define c where "c = min (byte_count d) (256 :: u32)"
  have c: "4 < unat c" "unat c \<le> 256" "unat c \<le> unat (byte_count d)" "0 < c" "0 < byte_count d"
    using assms(5) by (auto simp: c_def min_def word_le_nat_alt word_less_nat_alt)
  define x1 where "x1 = vp_put_dma (d\<lparr>dma_start := False, dma_status := 1\<rparr>) x"
  have i: "soc_inv x1" unfolding x1_def by (rule soc_inv_put [OF assms(1)])
  have m: "ram_mapped (unat (src_addr d)) (unat c)" using assms(3) c(3) by (simp add: ram_mapped_def)
  have "unat c \<le> length (junk (byte_count d))" using c(2) assms(6) by simp
  then obtain r where r: "vp_transport throws (master_payload TLM_READ (src_addr d) (junk (byte_count d)) c) x1 = Inr (r, x1)"
    "p_status r = TLM_OK"
    using vp_ram_read [OF i m c(4)] by blast
  let ?p = "\<lparr>p_cmd = TLM_WRITE, p_addr = 0, p_data = p_data r, p_len = c, p_status = TLM_INCOMPLETE\<rparr>"
  have "vp_transport throws (?p\<lparr>p_addr := ucast UART_BASE\<rparr>) x1 =
      (case vp_target throws (of_nat 4) (?p\<lparr>p_addr := ucast (UART_BASE - UART_BASE)\<rparr>) x1 of
         Inl e \<Rightarrow> Inl e | Inr (p', x') \<Rightarrow> Inr (p'\<lparr>p_addr := ucast UART_BASE\<rparr>, x'))"
    by (rule vp_route [where sz = UART_SIZE]) (simp_all add: vp_ranges_def)
  moreover have "vp_target throws 4 ?p x1 = Inl HOST_UB"
    using c(1) by (cases x1) (simp add: vp_target_def lift_target_def uart_wide_access_undefined)
  ultimately have "vp_transport throws (master_payload TLM_WRITE UART_BASE (p_data r) c) x1 = Inl HOST_UB"
    by (simp add: master_payload_def)
  then have "dma_chunk (vp_transport throws) (junk (byte_count d)) c (src_addr d) UART_BASE x1 = Inl HOST_UB"
    by (simp add: dma_chunk_def r)
  then show ?thesis
    using c(5) unfolding dma_thread_turn_def assms(2) [symmetric] Let_def x1_def [symmetric] assms(4)
    by (subst dma_loop.simps) (simp add: Let_def c_def)
qed

theorem vp_dma_to_uart_undefined_witness:
  "dma_thread_turn (vp_transport True) (\<lambda>r. replicate 256 0) vp_get_dma vp_put_dma
     (vp_put_dma \<lparr>src_addr = 0x80000000, dst_addr = 0x10000000, byte_count = 8, dma_ctrl = 1,
        dma_status = 0, dma_start = True\<rparr> (CPUState_init, Plat_new)) = Inl HOST_UB"
proof -
  let ?d = "\<lparr>src_addr = 0x80000000, dst_addr = 0x10000000, byte_count = 8, dma_ctrl = 1,
    dma_status = 0, dma_start = True\<rparr>"
  have g: "?d = vp_get_dma (vp_put_dma ?d (CPUState_init, Plat_new))" by (simp add: vp_get_dma_def vp_put_dma_def)
  show ?thesis
    by (rule vp_dma_to_uart_undefined [OF soc_inv_put(1) [OF soc_inv_new] g]) (simp_all add: ram_mapped_def)
qed

end
