(* ===== verification/GDB_Codec.thy ===== *)
theory GDB_Codec
  imports TLM
begin

text \<open>
  The text side of \<open>src/src/debug/gdb_server.cpp\<close>: numbers in hexadecimal, the little-endian
  register words, and the packet framing of the remote protocol, together with what the sources
  use of \<open>std::string\<close> and \<open>std::stoul\<close>.

  The socket is the list of characters the client still sends and the list of characters written
  so far. A \<open>read\<close> takes what it asks for unless the client has closed the connection, and a
  \<open>write\<close> takes the whole buffer. \<open>stoul\<close> and \<open>substr\<close> throw; nothing in the server catches, so
  an exception ends the simulation and is the error of the sum.
\<close>

unbundle bit_operations_syntax

section \<open>The standard library\<close>

datatype gdb_error = INVALID_ARGUMENT | OUT_OF_RANGE | SIM_STOP stop

definition substr :: "string \<Rightarrow> nat \<Rightarrow> nat \<Rightarrow> gdb_error + string" where
  "substr s pos n = (if pos > length s then Inl OUT_OF_RANGE else Inr (take n (drop pos s)))"

text \<open>\<open>find(c, from)\<close>; \<open>None\<close> is \<open>npos\<close>.\<close>

fun find_from :: "char \<Rightarrow> nat \<Rightarrow> string \<Rightarrow> nat option" where
  "find_from c from [] = None"
| "find_from c 0 (x # xs) = (if x = c then Some 0 else map_option Suc (find_from c 0 xs))"
| "find_from c (Suc k) (x # xs) = map_option Suc (find_from c k xs)"

definition is_space :: "char \<Rightarrow> bool" where
  "is_space c = (let n = of_char c :: nat in n = 32 \<or> 9 \<le> n \<and> n \<le> 13)"

definition hex_value :: "char \<Rightarrow> int option" where
  "hex_value c =
     (let n = of_char c :: int
      in if 48 \<le> n \<and> n \<le> 57 then Some (n - 48)
         else if 97 \<le> n \<and> n \<le> 102 then Some (n - 87)
         else if 65 \<le> n \<and> n \<le> 70 then Some (n - 55)
         else None)"

definition is_hex :: "char \<Rightarrow> bool" where "is_hex c = (hex_value c \<noteq> None)"

definition hex_number :: "string \<Rightarrow> int" where
  "hex_number ds = foldl (\<lambda>n c. 16 * n + the (hex_value c)) 0 ds"

definition skip_sign :: "string \<Rightarrow> bool \<times> string" where
  "skip_sign s = (case s of [] \<Rightarrow> (False, s)
                  | c # r \<Rightarrow> if c = CHR ''-'' then (True, r) else if c = CHR ''+'' then (False, r) else (False, s))"

definition skip_0x :: "string \<Rightarrow> string" where
  "skip_0x s = (case s of
       z # x # d # r \<Rightarrow> if z = CHR ''0'' \<and> (x = CHR ''x'' \<or> x = CHR ''X'') \<and> is_hex d then d # r else s
     | _ \<Rightarrow> s)"

text \<open>\<open>stoul(s, nullptr, 16)\<close>: blanks, a sign, an optional prefix, then the longest run of digits.\<close>

definition stoul16 :: "string \<Rightarrow> gdb_error + u64" where
  "stoul16 s =
     (let (neg, s1) = skip_sign (dropWhile is_space s);
          ds = takeWhile is_hex (skip_0x s1);
          n = hex_number ds
      in if ds = [] then Inl INVALID_ARGUMENT
         else if n \<ge> 2 ^ 64 then Inl OUT_OF_RANGE
         else Inr (if neg then - of_int n else of_int n))"

definition stoul32 :: "string \<Rightarrow> gdb_error + u32" where
  "stoul32 s = map_sum id ucast (stoul16 s)"

section \<open>Hexadecimal\<close>

definition hex_char :: "u8 \<Rightarrow> char" where
  "hex_char d = ''0123456789abcdef'' ! unat (d AND 0xF)"

text \<open>\<open>hex\<close>, \<open>setfill('0')\<close>, \<open>setw(2)\<close> applied to a value below 256.\<close>

definition hex2 :: "u8 \<Rightarrow> string" where
  "hex2 v = [hex_char (drop_bit 4 v), hex_char v]"

definition to_hex32_le :: "u32 \<Rightarrow> string" where
  "to_hex32_le val =
     hex2 (ucast (drop_bit 0 val AND 0xFF)) @ hex2 (ucast (drop_bit 8 val AND 0xFF)) @
     hex2 (ucast (drop_bit 16 val AND 0xFF)) @ hex2 (ucast (drop_bit 24 val AND 0xFF))"

definition hex_byte :: "string \<Rightarrow> nat \<Rightarrow> gdb_error + u32" where
  "hex_byte hex pos = (case substr hex pos 2 of Inl x \<Rightarrow> Inl x | Inr t \<Rightarrow> stoul32 t)"

definition from_hex32_le :: "string \<Rightarrow> nat \<Rightarrow> gdb_error + u32" where
  "from_hex32_le hex offset =
     (case hex_byte hex offset of Inl x \<Rightarrow> Inl x | Inr b0 \<Rightarrow>
     (case hex_byte hex (offset + 2) of Inl x \<Rightarrow> Inl x | Inr b1 \<Rightarrow>
     (case hex_byte hex (offset + 4) of Inl x \<Rightarrow> Inl x | Inr b2 \<Rightarrow>
     (case hex_byte hex (offset + 6) of Inl x \<Rightarrow> Inl x | Inr b3 \<Rightarrow>
        Inr (b0 OR push_bit 8 b1 OR push_bit 16 b2 OR push_bit 24 b3)))))"

section \<open>Packets\<close>

record GDBServer =
  c_in :: string
  c_out :: string
  breakpoints :: "u32 \<rightharpoonup> u32"

definition GDBServer_new :: "string \<Rightarrow> GDBServer" where
  "GDBServer_new stream = \<lparr>c_in = stream, c_out = [], breakpoints = Map.empty\<rparr>"

definition read_packet :: "GDBServer \<Rightarrow> string \<times> GDBServer" where
  "read_packet g =
     (let r = drop 1 (dropWhile (\<lambda>c. c \<noteq> CHR ''$'') (c_in g));
          payload = takeWhile (\<lambda>c. c \<noteq> CHR ''#'') r;
          r' = drop 1 (dropWhile (\<lambda>c. c \<noteq> CHR ''#'') r)
      in (payload, g\<lparr>c_in := drop 2 r', c_out := c_out g @ ''+''\<rparr>))"

definition checksum :: "string \<Rightarrow> u8" where
  "checksum data = foldl (\<lambda>k c. k + of_char c) 0 data"

definition send_packet :: "string \<Rightarrow> GDBServer \<Rightarrow> GDBServer" where
  "send_packet data g =
     g\<lparr>c_out := c_out g @ ''$'' @ data @ ''#'' @ hex2 (checksum data), c_in := drop 1 (c_in g)\<rparr>"

section \<open>Round trips\<close>

lemma hex_char_table:
  "list_all (\<lambda>k. let c = ''0123456789abcdef'' ! k in
     hex_value c = Some (int k) \<and> \<not> is_space c \<and> c \<noteq> CHR ''-'' \<and> c \<noteq> CHR ''+'' \<and> c \<noteq> CHR ''#'') [0..<16]"
  by code_simp

lemma nibble_bound: "unat (d AND 0xF :: u8) < 16"
proof -
  have "d AND 0xF = take_bit 4 d" by (simp add: take_bit_eq_mask mask_eq_exp_minus_1)
  then show ?thesis using take_bit_nat_less_exp [of 4 "unat d"] by (simp add: unsigned_take_bit_eq)
qed

lemma hex_char [simp]:
  "hex_value (hex_char d) = Some (uint (d AND 0xF))" "\<not> is_space (hex_char d)" "hex_char d \<noteq> CHR ''-''"
  "hex_char d \<noteq> CHR ''+''" "hex_char d \<noteq> CHR ''#''" "is_hex (hex_char d)"
proof -
  have "unat (d AND 0xF) \<in> set [0..<16]" using nibble_bound [of d] by simp
  with hex_char_table have t: "let c = hex_char d in hex_value c = Some (uint (d AND 0xF)) \<and> \<not> is_space c \<and>
      c \<noteq> CHR ''-'' \<and> c \<noteq> CHR ''+'' \<and> c \<noteq> CHR ''#''"
    unfolding list_all_iff hex_char_def uint_nat by blast
  then show "hex_value (hex_char d) = Some (uint (d AND 0xF))" "\<not> is_space (hex_char d)" "hex_char d \<noteq> CHR ''-''"
    "hex_char d \<noteq> CHR ''+''" "hex_char d \<noteq> CHR ''#''" "is_hex (hex_char d)"
    by (simp_all add: Let_def is_hex_def)
qed

lemma nibbles: "16 * uint (drop_bit 4 v AND 0xF) + uint (v AND 0xF) = uint (v :: u8)"
proof -
  have "v AND 0xF = take_bit 4 v" "drop_bit 4 v AND 0xF = take_bit 4 (drop_bit 4 v)"
    by (simp_all add: take_bit_eq_mask mask_eq_exp_minus_1)
  moreover have "uint (v :: u8) < 256" "0 \<le> uint v" using unsigned_less [of v, where ?'a = int] by simp_all
  then have "uint v div 16 mod 16 = uint v div 16" by (intro mod_pos_pos_trivial) (simp_all add: pos_imp_zdiv_nonneg_iff)
  ultimately show ?thesis
    by (simp only: unsigned_take_bit_eq unsigned_drop_bit_eq take_bit_eq_mod drop_bit_eq_div)
      (simp add: uint_mod uint_div)
qed

lemma stoul16_hex2: "stoul16 (hex2 v) = Inr (ucast v)"
proof -
  have "uint v < 2 ^ 64" using unsigned_less [of v, where ?'a = int] by simp
  then have "stoul16 (hex2 v) = Inr (of_int (uint v))"
    by (simp add: stoul16_def hex2_def skip_sign_def skip_0x_def hex_number_def nibbles)
  then show ?thesis by simp
qed

lemma stoul32_hex2 [simp]: "stoul32 (hex2 v) = Inr (ucast v)"
proof -
  have "ucast (ucast v :: u64) = (ucast v :: u32)" by (rule u32_eqI) (simp add: bit_simps)
  then show ?thesis by (simp add: stoul32_def stoul16_hex2)
qed

lemma find_from_first: "c \<notin> set t \<Longrightarrow> find_from c 0 (t @ c # r) = Some (length t)"
  by (induction t) auto

lemma length_hex2 [simp]: "length (hex2 v) = 2"
  by (simp add: hex2_def)

lemma length_to_hex32_le [simp]: "length (to_hex32_le w) = 8"
  by (simp add: to_hex32_le_def)

lemma hash_hex [simp]: "CHR ''#'' \<notin> set (hex2 v)" "CHR ''#'' \<notin> set (to_hex32_le w)"
  by (auto simp: hex2_def to_hex32_le_def dest: sym)

lemma hex_byte_at: "length pre = k \<Longrightarrow> hex_byte (pre @ hex2 v @ post) k = Inr (ucast v)"
  by (auto simp: hex_byte_def substr_def)

text \<open>A word printed with \<open>to_hex32_le\<close> anywhere in a text is read back at its position.\<close>

lemma from_to_hex32_le:
  assumes "length pre = k"
  shows "from_hex32_le (pre @ to_hex32_le w @ post) k = Inr w"
proof -
  define b where "b n = (ucast (drop_bit n w AND 0xFF) :: u8)" for n
  let ?s = "pre @ to_hex32_le w @ post"
  have "hex_byte ?s k = Inr (ucast (b 0))" "hex_byte ?s (k + 2) = Inr (ucast (b 8))"
    "hex_byte ?s (k + 4) = Inr (ucast (b 16))" "hex_byte ?s (k + 6) = Inr (ucast (b 24))"
    using assms hex_byte_at [of pre k "b 0" "hex2 (b 8) @ hex2 (b 16) @ hex2 (b 24) @ post"]
      hex_byte_at [of "pre @ hex2 (b 0)" "k + 2" "b 8" "hex2 (b 16) @ hex2 (b 24) @ post"]
      hex_byte_at [of "pre @ hex2 (b 0) @ hex2 (b 8)" "k + 4" "b 16" "hex2 (b 24) @ post"]
      hex_byte_at [of "pre @ hex2 (b 0) @ hex2 (b 8) @ hex2 (b 16)" "k + 6" "b 24" post]
    by (simp_all add: to_hex32_le_def b_def)
  moreover have "ucast (b 0) OR push_bit 8 (ucast (b 8)) OR push_bit 16 (ucast (b 16)) OR push_bit 24 (ucast (b 24)) = w"
    by (rule u32_eqI) (simp add: b_def bitwise)
  ultimately show ?thesis by (simp add: from_hex32_le_def)
qed

text \<open>A framed packet is read back, whatever garbage precedes it and whatever its checksum.\<close>

lemma read_packet_framed:
  assumes "c_in g = junk @ ''$'' @ data @ ''#'' @ ck @ rest" and "CHR ''$'' \<notin> set junk"
    and "CHR ''#'' \<notin> set data" and "length ck = 2"
  shows "read_packet g = (data, g\<lparr>c_in := rest, c_out := c_out g @ ''+''\<rparr>)"
proof -
  have "dropWhile (\<lambda>c. c \<noteq> CHR ''$'') (c_in g) = ''$'' @ data @ ''#'' @ ck @ rest"
    using assms(1,2) by (subst assms(1), subst dropWhile_append2) auto
  moreover have "takeWhile (\<lambda>c. c \<noteq> CHR ''#'') (data @ ''#'' @ ck @ rest) = data"
    "dropWhile (\<lambda>c. c \<noteq> CHR ''#'') (data @ ''#'' @ ck @ rest) = ''#'' @ ck @ rest"
    using assms(3) by (subst takeWhile_append2 dropWhile_append2; auto)+
  ultimately show ?thesis using assms(4) by (simp add: read_packet_def Let_def)
qed

lemma checksum_sum: "checksum data = of_nat (sum_list (map of_char data))"
proof -
  have "foldl (\<lambda>k c. k + of_char c) a data = a + of_nat (sum_list (map of_char data))" for a :: u8
    by (induction data arbitrary: a) (simp_all add: add.assoc of_char_def)
  then show ?thesis by (simp add: checksum_def)
qed

lemma read_packet_shorter: "fst (read_packet g) \<noteq> [] \<Longrightarrow> length (c_in (snd (read_packet g))) < length (c_in g)"
proof -
  let ?d = "dropWhile (\<lambda>c. c \<noteq> CHR ''$'') (c_in g)"
  assume "fst (read_packet g) \<noteq> []"
  then have "?d \<noteq> []" by (rule contrapos_nn) (simp only: read_packet_def Let_def fst_conv drop_Nil takeWhile.simps)
  then have "length (drop 1 ?d) < length (c_in g)"
    using length_dropWhile_le [of "\<lambda>c. c \<noteq> CHR ''$''" "c_in g"] by (cases ?d) auto
  then show ?thesis
    using length_dropWhile_le [of "\<lambda>c. c \<noteq> CHR ''#''" "drop 1 ?d"] by (simp add: read_packet_def Let_def)
qed

end
