(* ===== verification/Execute_Keeps.thy ===== *)
theory Execute_Keeps
  imports Execute_Spec
begin

text \<open>
  Properties of the world behind the memory callbacks. If a property \<open>Q\<close> of the environment
  and the interrupt lines is kept by the callbacks, then executing an instruction keeps it: an
  instruction reaches the environment only through the callbacks, with aligned accesses, and never
  touches the interrupt lines itself.
\<close>

unbundle bit_operations_syntax

lemma csr_write_hw_mip: "csr_write c a p v = Some (c', f) \<Longrightarrow> hw_mip c' = hw_mip c"
  by (auto simp: csr_write_def split: if_splits)

lemma set_reg_hw_mip [simp]: "hw_mip (csr (set_reg i v s)) = hw_mip (csr s)"
  by (simp add: set_reg_def)

text \<open>The accesses an instruction makes: a byte, or an aligned half-word or word.\<close>

definition aligned_access :: "u32 \<Rightarrow> nat \<Rightarrow> bool" where
  "aligned_access a n = (n = 1 \<or> n = 2 \<and> a AND 1 = 0 \<or> n = 4 \<and> a AND 3 = 0)"

locale mem_if_keeps = mem_if m for m :: "'e MemIf" +
  fixes Q :: "CPUState \<Rightarrow> 'e \<Rightarrow> bool"
  assumes lines_only: "hw_mip (csr s') = hw_mip (csr s) \<Longrightarrow> Q s e \<Longrightarrow> Q s' e"
    and read_keeps: "Q s e \<Longrightarrow> aligned_access a n \<Longrightarrow> mem_read m a n s e = (v, s', e') \<Longrightarrow> Q s' e'"
    and write_keeps: "Q s e \<Longrightarrow> aligned_access a n \<Longrightarrow> mem_write m a v n s e = (s', e') \<Longrightarrow> Q s' e'"
    and satp_keeps: "Q s e \<Longrightarrow> on_satp_write m s e = (s', e') \<Longrightarrow> Q s' e'"
begin

lemma exec_csr_write_keeps:
  assumes "exec_csr_write m a v s e = Some (s', e')" and "Q s e"
  shows "Q s' e'"
proof -
  from assms(1) obtain c f where w: "csr_write (csr s) a (priv s) v = Some (c, f)"
    and s': "(s', e') = (if f then on_satp_write m (s\<lparr>csr := c\<rparr>) e else (s\<lparr>csr := c\<rparr>, e))"
    by (auto simp: exec_csr_write_def Let_def split: option.splits)
  have "Q (s\<lparr>csr := c\<rparr>) e" by (rule lines_only [OF _ assms(2)]) (simp add: csr_write_hw_mip [OF w])
  with s' satp_keeps show ?thesis by (cases f) auto
qed

lemma set_reg_keeps: "Q s e \<Longrightarrow> Q (set_reg i v s) e"
  by (rule lines_only [rotated]) simp_all

lemma lr_sc_keeps: "Q s e \<Longrightarrow> Q (s\<lparr>lr_sc := r\<rparr>) e"
  by (rule lines_only [rotated]) simp_all

lemma next_pc_keeps: "Q s e \<Longrightarrow> Q (s\<lparr>next_pc := v\<rparr>) e"
  by (rule lines_only [rotated]) simp_all

lemmas keeps_intros = set_reg_keeps lr_sc_keeps next_pc_keeps

lemma word_keeps:
  "Q s e \<Longrightarrow> a AND 3 = 0 \<Longrightarrow> mem_read m a 4 s e = (v, s', e') \<Longrightarrow> Q s' e'"
  "Q s e \<Longrightarrow> a AND 3 = 0 \<Longrightarrow> mem_write m a v 4 s e = (s', e') \<Longrightarrow> Q s' e'"
  by (auto intro: read_keeps write_keeps simp: aligned_access_def)

lemma exec_memory_keeps:
  assumes "n = 1 \<and> k = 0 \<or> n = 2 \<and> k = 1 \<or> n = 4 \<and> k = 3"
  shows "exec_load m n k f d s e = (r, s', e') \<Longrightarrow> Q s e \<Longrightarrow> Q s' e'"
    and "exec_store m n k v d s e = (r, s', e') \<Longrightarrow> Q s e \<Longrightarrow> Q s' e'"
proof -
  have "aligned_access a n" if "a AND k = 0" for a using assms that by (auto simp: aligned_access_def)
  then show "exec_load m n k f d s e = (r, s', e') \<Longrightarrow> Q s e \<Longrightarrow> Q s' e'"
    "exec_store m n k v d s e = (r, s', e') \<Longrightarrow> Q s e \<Longrightarrow> Q s' e'"
    by (auto simp: exec_load_def exec_store_def Let_def set_rd_def exec_done_def
        split: if_splits prod.splits intro!: keeps_intros dest: read_keeps write_keeps)
qed

lemma exec_reservation_keeps:
  "exec_lr m d s e = (r, s', e') \<Longrightarrow> Q s e \<Longrightarrow> Q s' e'"
  "exec_sc m d s e = (r, s', e') \<Longrightarrow> Q s e \<Longrightarrow> Q s' e'"
  by (auto simp: exec_lr_def exec_sc_def Let_def exec_done_def split: if_splits prod.splits
      intro!: keeps_intros dest: word_keeps)

lemma exec_amo_keeps:
  assumes "exec_amo m f d s e = (r, s', e')" and "Q s e"
  shows "Q s' e'"
proof (cases "get_reg s (d_rs1 d) AND 3 = 0")
  case True
  obtain v s1 e1 where rd: "mem_read m (get_reg s (d_rs1 d)) 4 s e = (v, s1, e1)"
    using prod_cases3 by blast
  have "Q (set_reg (d_rd d) v s1) e1" by (rule set_reg_keeps [OF word_keeps(1) [OF assms(2) True rd]])
  with assms(1) True rd word_keeps(2) show ?thesis
    by (auto simp: exec_amo_def exec_done_def Let_def split: prod.splits)
next
  case False
  with assms show ?thesis by (simp add: exec_amo_def)
qed

lemma exec_system_keeps:
  "exec_csrrw m v d s e = (r, s', e') \<Longrightarrow> Q s e \<Longrightarrow> Q s' e'"
  "exec_csrrx m g d s e = (r, s', e') \<Longrightarrow> Q s e \<Longrightarrow> Q s' e'"
  by (auto simp: exec_csrrw_def exec_csrrx_def Let_def csr_illegal_def exec_done_def
      split: if_splits option.splits prod.splits intro: set_reg_keeps exec_csr_write_keeps)

lemma exec_return_keeps:
  "exec_mret d s e = (r, s', e') \<Longrightarrow> Q s e \<Longrightarrow> Q s' e'"
  "exec_sret d s e = (r, s', e') \<Longrightarrow> Q s e \<Longrightarrow> Q s' e'"
  by (auto simp: exec_mret_def exec_sret_def Let_def csr_illegal_def exec_done_def
      split: if_splits intro: lines_only [rotated])

lemma exec_plain_keeps:
  "set_rd d v s e = (r, s', e') \<Longrightarrow> Q s e \<Longrightarrow> Q s' e'"
  "exec_branch b d s e = (r, s', e') \<Longrightarrow> Q s e \<Longrightarrow> Q s' e'"
  by (auto simp: set_rd_def exec_branch_def exec_done_def intro: keeps_intros split: if_splits)

lemmas group_keeps = exec_memory_keeps [rotated] exec_reservation_keeps exec_amo_keeps exec_system_keeps exec_return_keeps
  exec_plain_keeps

lemma execute_keeps:
  assumes "execute m d s e = (r, s', e')" and "Q s e"
  shows "Q s' e'"
proof -
  let ?s = "s\<lparr>next_pc := pc s + instr_len d\<rparr>"
  have "Q ?s e" by (rule next_pc_keeps [OF assms(2)])
  with assms(1) show ?thesis
    by (cases "d_type d")
      (auto simp: execute_def Let_def exec_done_def csr_illegal_def exec_ecall_def exec_sfence_vma_def
        split: if_splits elim: group_keeps intro: lines_only [rotated])
qed

end

section \<open>Jump offsets\<close>

text \<open>The decoder never produces an odd offset for a jump or branch.\<close>

abbreviation (input) jump_types :: "InstrType set" where
  "jump_types \<equiv> {I_JAL, I_BEQ, I_BNE, I_BLT, I_BGE, I_BLTU, I_BGEU}"

lemma imm_even: "even (imm_b w)" "even (imm_j w)"
proof -
  have "\<not> bit (imm_b w) 0" "\<not> bit (imm_j w) 0" by (simp_all add: imm_b_def imm_j_def bitwise)
  then show "even (imm_b w)" "even (imm_j w)" by (simp_all add: bit_0)
qed

lemma decode32_jump_even: "d_type (decode32 w) \<in> jump_types \<Longrightarrow> even (d_imm (decode32 w))"
  unfolding decode32_def Let_def
  by (auto simp: imm_even DecodedInstr_init_def decode_branch_def decode_load_def decode_store_def decode_op_imm_def
      decode_op_reg_def decode_amo_def decode_system_def Let_def split: if_splits)

lemma decode_jump_even: "d_type (decode w) \<in> jump_types \<Longrightarrow> even (d_imm (decode w))"
  using decode32_jump_even by (auto simp: decode_def Let_def split: if_splits)

end
