(* ===== verification/ISS.thy ===== *)
theory ISS
  imports Platform Execute_Keeps Trap MMU
begin

text \<open>
  Model of \<open>src/src/cpu/iss.cpp\<close>: the simulator that ties the hart to the platform.

  The environment of the hart's memory callbacks holds the platform, the TLB, the pending memory
  fault and the cached direct-memory window. The source caches a pointer into a device's byte
  vector; here the window names the device (0 boot ROM, 1 RAM) and the access goes to the vector.
  The callbacks cannot return an error, so when a bus transaction stops the simulation (an
  exception or undefined behaviour) the reason is kept in \<open>e_stop\<close>, later accesses do nothing,
  and the step that was running ends with the stop as its result.

  \<open>iss_step\<close> is one iteration of the loop in \<open>run\<close>. The temporal decoupling (quantum keeper,
  the wait of WFI) only decides when other processes run; \<open>ISS_Run\<close> lets them run between any
  two iterations.
\<close>

unbundle bit_operations_syntax

section \<open>State\<close>

record Env =
  e_plat :: Plat
  e_tlb :: tlb
  mem_fault :: bool
  mem_fault_cause :: u32
  mem_fault_vaddr :: u32
  dmi_valid :: bool
  dmi_mem :: u32
  dmi_lo :: u64
  dmi_hi :: u64
  e_stop :: "stop option"

record ISS =
  cpu :: CPUState
  env :: Env
  halted :: bool
  single_step :: bool
  stop_on_ebreak :: bool
  insn_count :: u64

definition Env_new :: "Plat \<Rightarrow> Env" where
  "Env_new pl = \<lparr>e_plat = pl, e_tlb = [], mem_fault = False, mem_fault_cause = 0, mem_fault_vaddr = 0,
     dmi_valid = False, dmi_mem = 0, dmi_lo = 0, dmi_hi = 0, e_stop = None\<rparr>"

text \<open>The state when \<open>run\<close> enters its loop: the program counter is the reset address.\<close>

definition iss_start :: "u32 \<Rightarrow> soc \<Rightarrow> ISS" where
  "iss_start reset_pc = (\<lambda>(s, pl). \<lparr>cpu = s\<lparr>pc := reset_pc\<rparr>, env = Env_new pl, halted = False,
     single_step = False, stop_on_ebreak = False, insn_count = 0\<rparr>)"

section \<open>Bus access\<close>

definition vp_dmi :: "u32 \<Rightarrow> Plat \<Rightarrow> tlm_dmi option" where
  "vp_dmi i pl = (if i = 0 then Some (bootrom_get_direct_mem_ptr (bootrom pl))
                  else if i = 1 then Some (memory_get_direct_mem_ptr (ram pl)) else None)"

definition try_dmi :: "u32 \<Rightarrow> Env \<Rightarrow> Env" where
  "try_dmi addr e =
     (case bus_get_direct_mem_ptr vp_dmi vp_bus (ucast addr) (e_plat e) of
        None \<Rightarrow> e
      | Some (i, d) \<Rightarrow> e\<lparr>dmi_valid := True, dmi_mem := i, dmi_lo := dmi_start d, dmi_hi := dmi_end d\<rparr>)"

definition invalidate_dmi :: "u64 \<Rightarrow> u64 \<Rightarrow> Env \<Rightarrow> Env" where
  "invalidate_dmi start stop e =
     (if dmi_valid e \<and> \<not> (stop < dmi_lo e \<or> start > dmi_hi e) then e\<lparr>dmi_valid := False\<rparr> else e)"

definition dmi_hit :: "u32 \<Rightarrow> nat \<Rightarrow> Env \<Rightarrow> bool" where
  "dmi_hit addr bytes e = (dmi_valid e \<and> ucast addr \<ge> dmi_lo e \<and> ucast (addr + of_nat bytes - 1) \<le> dmi_hi e)"

definition dmi_data :: "Env \<Rightarrow> u8 list" where
  "dmi_data e = m_data (if dmi_mem e = 0 then bootrom (e_plat e) else ram (e_plat e))"

definition put_dmi_data :: "u8 list \<Rightarrow> Env \<Rightarrow> Env" where
  "put_dmi_data v e =
     (if dmi_mem e = 0 then e\<lparr>e_plat := (e_plat e)\<lparr>bootrom := (bootrom (e_plat e))\<lparr>m_data := v\<rparr>\<rparr>\<rparr>
      else e\<lparr>e_plat := (e_plat e)\<lparr>ram := (ram (e_plat e))\<lparr>m_data := v\<rparr>\<rparr>\<rparr>)"

definition cpu_payload :: "tlm_command \<Rightarrow> u32 \<Rightarrow> u8 list \<Rightarrow> nat \<Rightarrow> payload" where
  "cpu_payload cmd addr buf bytes =
     \<lparr>p_cmd = cmd, p_addr = ucast addr, p_data = buf, p_len = of_nat bytes, p_status = TLM_INCOMPLETE\<rparr>"

definition bus_read :: "bool \<Rightarrow> u32 \<Rightarrow> nat \<Rightarrow> CPUState \<Rightarrow> Env \<Rightarrow> u32 \<times> CPUState \<times> Env" where
  "bus_read throws addr bytes s e =
     (if e_stop e \<noteq> None then (0, s, e)
      else if dmi_hit addr bytes e then
        (case vec_read (dmi_data e) (unat (ucast addr - dmi_lo e)) bytes (replicate 4 0) of
           None \<Rightarrow> (0, s, e\<lparr>e_stop := Some HOST_UB\<rparr>)
         | Some v \<Rightarrow> (le_word v, s, e))
      else
        (case vp_transport throws (cpu_payload TLM_READ addr (replicate 4 0) bytes) (s, e_plat e) of
           Inl x \<Rightarrow> (0, s, e\<lparr>e_stop := Some x\<rparr>)
         | Inr (p, s', pl') \<Rightarrow>
             (let e1 = e\<lparr>e_plat := pl'\<rparr>; e2 = (if \<not> dmi_valid e1 then try_dmi addr e1 else e1)
              in (le_word (take bytes (p_data p)), s', e2))))"

definition bus_write :: "bool \<Rightarrow> u32 \<Rightarrow> u32 \<Rightarrow> nat \<Rightarrow> CPUState \<Rightarrow> Env \<Rightarrow> CPUState \<times> Env" where
  "bus_write throws addr data bytes s e =
     (if e_stop e \<noteq> None then (s, e)
      else if dmi_hit addr bytes e then
        (case vec_write (dmi_data e) (unat (ucast addr - dmi_lo e)) bytes (le_bytes 4 data) of
           None \<Rightarrow> (s, e\<lparr>e_stop := Some HOST_UB\<rparr>)
         | Some v \<Rightarrow> (s, put_dmi_data v e))
      else
        (case vp_transport throws
                (cpu_payload TLM_WRITE addr (take bytes (le_bytes 4 data) @ replicate (4 - bytes) 0) bytes) (s, e_plat e) of
           Inl x \<Rightarrow> (s, e\<lparr>e_stop := Some x\<rparr>)
         | Inr (p, s', pl') \<Rightarrow> (s', e\<lparr>e_plat := pl'\<rparr>)))"

section \<open>Memory callbacks\<close>

definition effective_data_priv :: "CPUState \<Rightarrow> u8" where
  "effective_data_priv s =
     (if priv s = 3 \<and> mstatus (csr s) AND MSTATUS_MPRV \<noteq> 0
      then ucast (drop_bit MSTATUS_MPP_SHIFT (mstatus (csr s)) AND 0x3) else priv s)"

definition mmu_active_fetch :: "CPUState \<Rightarrow> bool" where
  "mmu_active_fetch s = (drop_bit 31 (satp (csr s)) \<noteq> 0 \<and> priv s < 3)"

definition mmu_active_data :: "CPUState \<Rightarrow> bool" where
  "mmu_active_data s = (drop_bit 31 (satp (csr s)) \<noteq> 0 \<and> effective_data_priv s < 3)"

definition pt_mem :: "bool \<Rightarrow> (CPUState \<times> Env) PTMem" where
  "pt_mem throws =
     \<lparr>pt_read = (\<lambda>paddr (s, e). let (v, s', e') = bus_read throws paddr 4 s e in (v, (s', e'))),
      pt_write = (\<lambda>paddr val (s, e). bus_write throws paddr val 4 s e)\<rparr>"

definition iss_translate :: "bool \<Rightarrow> (tlb \<Rightarrow> u32) \<Rightarrow> u32 \<Rightarrow> AccessType \<Rightarrow> u8 \<Rightarrow> CPUState \<Rightarrow> Env \<Rightarrow>
    MMUResult \<times> CPUState \<times> Env" where
  "iss_translate throws tlb_begin vaddr ty pv s e =
     (let (r, t, s', e') = translate (pt_mem throws) tlb_begin vaddr ty pv (satp (csr s)) (mstatus (csr s)) (e_tlb e) (s, e)
      in (r, s', e'\<lparr>e_tlb := t\<rparr>))"

definition set_fault :: "u32 \<Rightarrow> u32 \<Rightarrow> Env \<Rightarrow> Env" where
  "set_fault c vaddr e = e\<lparr>mem_fault := True, mem_fault_cause := c, mem_fault_vaddr := vaddr\<rparr>"

definition iss_mem_read :: "bool \<Rightarrow> (tlb \<Rightarrow> u32) \<Rightarrow> u32 \<Rightarrow> nat \<Rightarrow> CPUState \<Rightarrow> Env \<Rightarrow> u32 \<times> CPUState \<times> Env" where
  "iss_mem_read throws tlb_begin vaddr bytes s e =
     (if mmu_active_data s then
        (let (r, s', e') = iss_translate throws tlb_begin vaddr LOAD (effective_data_priv s) s e
         in if res_fault r then (0, s', set_fault (res_cause r) vaddr e')
            else bus_read throws (res_paddr r) bytes s' e')
      else bus_read throws vaddr bytes s e)"

definition iss_mem_write :: "bool \<Rightarrow> (tlb \<Rightarrow> u32) \<Rightarrow> u32 \<Rightarrow> u32 \<Rightarrow> nat \<Rightarrow> CPUState \<Rightarrow> Env \<Rightarrow> CPUState \<times> Env" where
  "iss_mem_write throws tlb_begin vaddr data bytes s e =
     (if mmu_active_data s then
        (let (r, s', e') = iss_translate throws tlb_begin vaddr STORE (effective_data_priv s) s e
         in if res_fault r then (s', set_fault (res_cause r) vaddr e')
            else bus_write throws (res_paddr r) data bytes s' e')
      else bus_write throws vaddr data bytes s e)"

definition iss_mem :: "bool \<Rightarrow> (tlb \<Rightarrow> u32) \<Rightarrow> Env MemIf" where
  "iss_mem throws tlb_begin =
     \<lparr>mem_read = iss_mem_read throws tlb_begin, mem_write = iss_mem_write throws tlb_begin,
      on_satp_write = (\<lambda>s e. (s, e\<lparr>e_tlb := flush_tlb (e_tlb e)\<rparr>))\<rparr>"

section \<open>The loop\<close>

definition iss_trap :: "u32 \<Rightarrow> u32 \<Rightarrow> ISS \<Rightarrow> ISS" where
  "iss_trap c tv I = (let s = take_trap c tv (cpu I) in I\<lparr>cpu := s\<lparr>pc := next_pc s\<rparr>\<rparr>)"

definition iss_retire :: "ExecResult \<Rightarrow> ISS \<Rightarrow> ISS" where
  "iss_retire r I =
     (let I1 = I\<lparr>insn_count := insn_count I + 1,
                 cpu := (cpu I)\<lparr>csr := inc_minstret (inc_mcycle (csr (cpu I)))\<rparr>\<rparr>
      in if exception r \<and> cause r = CAUSE_BREAKPOINT \<and> stop_on_ebreak I1 then I1\<lparr>halted := True\<rparr>
         else
           let s2 = (if exception r then take_trap (cause r) (tval r) (cpu I1) else cpu I1);
               e2 = (if fence_i r then (env I1)\<lparr>dmi_valid := False\<rparr> else env I1);
               e3 = (if sfence_vma r then e2\<lparr>e_tlb := flush_tlb (e_tlb e2)\<rparr> else e2);
               I2 = I1\<lparr>cpu := s2\<lparr>pc := next_pc s2\<rparr>, env := e3\<rparr>
           in if single_step I2 then I2\<lparr>halted := True, single_step := False\<rparr> else I2)"

definition iss_execute :: "bool \<Rightarrow> (tlb \<Rightarrow> u32) \<Rightarrow> u32 \<Rightarrow> ISS \<Rightarrow> stop + ISS" where
  "iss_execute throws tlb_begin raw I =
     (let d = decode raw;
          s1 = (cpu I)\<lparr>next_pc := pc (cpu I) + instr_len d\<rparr>;
          (r, s2, e2) = execute (iss_mem throws tlb_begin) d s1 ((env I)\<lparr>mem_fault := False\<rparr>)
      in case e_stop e2 of
           Some x \<Rightarrow> Inl x
         | None \<Rightarrow>
             if mem_fault e2
             then Inr (iss_trap (mem_fault_cause e2) (mem_fault_vaddr e2) (I\<lparr>cpu := s2, env := e2\<lparr>mem_fault := False\<rparr>\<rparr>))
             else Inr (iss_retire r (I\<lparr>cpu := s2, env := e2\<rparr>)))"

definition iss_fetch_execute :: "bool \<Rightarrow> (tlb \<Rightarrow> u32) \<Rightarrow> u32 \<Rightarrow> ISS \<Rightarrow> stop + ISS" where
  "iss_fetch_execute throws tlb_begin fetch_paddr I =
     (let (raw, s, e) = bus_read throws fetch_paddr 4 (cpu I) (env I)
      in case e_stop e of
           Some x \<Rightarrow> Inl x
         | None \<Rightarrow> iss_execute throws tlb_begin raw (I\<lparr>cpu := s, env := e\<rparr>))"

definition iss_step :: "bool \<Rightarrow> (tlb \<Rightarrow> u32) \<Rightarrow> ISS \<Rightarrow> stop + ISS" where
  "iss_step throws tlb_begin I =
     (if halted I then Inr I
      else
        let irq = check_pending_interrupts (cpu I)
        in if irq \<noteq> 0 then Inr (iss_trap irq 0 I)
           else if pc (cpu I) AND 1 \<noteq> 0 then Inr (iss_trap CAUSE_MISALIGNED_FETCH (pc (cpu I)) I)
           else if mmu_active_fetch (cpu I) then
             (let (r, s, e) = iss_translate throws tlb_begin (pc (cpu I)) FETCH (priv (cpu I)) (cpu I) (env I);
                  I1 = I\<lparr>cpu := s, env := e\<rparr>
              in case e_stop e of
                   Some x \<Rightarrow> Inl x
                 | None \<Rightarrow> if res_fault r then Inr (iss_trap (res_cause r) (pc (cpu I1)) I1)
                           else iss_fetch_execute throws tlb_begin (res_paddr r) I1)
           else iss_fetch_execute throws tlb_begin (pc (cpu I)) I)"

section \<open>Debug control\<close>

definition iss_halt :: "ISS \<Rightarrow> ISS" where "iss_halt I = I\<lparr>halted := True\<rparr>"
definition iss_resume :: "ISS \<Rightarrow> ISS" where "iss_resume I = I\<lparr>halted := False, single_step := False\<rparr>"
definition iss_single_step :: "ISS \<Rightarrow> ISS" where "iss_single_step I = I\<lparr>halted := False, single_step := True\<rparr>"

section \<open>Bus accesses keep the invariant\<close>

text \<open>A cached window is the whole window of the device it names.\<close>

definition dmi_ok :: "Env \<Rightarrow> bool" where
  "dmi_ok e = (dmi_valid e \<longrightarrow>
     dmi_mem e = 0 \<and> dmi_lo e = 0 \<and> dmi_hi e = 0xFFFF \<or>
     dmi_mem e = 1 \<and> dmi_lo e = 0x80000000 \<and> dmi_hi e = 0x87FFFFFF)"

text \<open>The bound on the TLB holds if the eviction picks a key that is present.\<close>

definition env_inv :: "(tlb \<Rightarrow> u32) \<Rightarrow> CPUState \<Rightarrow> Env \<Rightarrow> bool" where
  "env_inv tlb_begin s e = (soc_inv (s, e_plat e) \<and> dmi_ok e \<and> (begin_ok tlb_begin \<longrightarrow> tlb_inv (e_tlb e)))"

lemma try_dmi_frame [simp]: "e_plat (try_dmi a e) = e_plat e" "e_tlb (try_dmi a e) = e_tlb e" "e_stop (try_dmi a e) = e_stop e"
  by (simp_all add: try_dmi_def split: option.splits prod.splits)

lemma try_dmi_ok:
  assumes "dmi_ok e" and "plat_inv (e_plat e)"
  shows "dmi_ok (try_dmi a e)"
proof (cases "bus_get_direct_mem_ptr vp_dmi vp_bus (ucast a) (e_plat e)")
  case None
  with assms show ?thesis by (simp add: try_dmi_def)
next
  case (Some x)
  then obtain k where k: "bus_decode vp_bus a = Some k" and x: "case vp_dmi (target_idx (ranges vp_bus ! k)) (e_plat e) of
      None \<Rightarrow> False | Some d \<Rightarrow> x = (target_idx (ranges vp_bus ! k),
        d\<lparr>dmi_start := dmi_start d + ucast (r_base (ranges vp_bus ! k)),
          dmi_end := dmi_end d + ucast (r_base (ranges vp_bus ! k))\<rparr>)"
    by (auto simp: bus_get_direct_mem_ptr_def Let_def ucast_u64_u32 split: option.splits)
  have "k < 12" using k bus_decode_iff [OF vp_bus_inv] by (auto simp: vp_bus_ranges)
  have win: "list_all (\<lambda>r. (target_idx r = 0 \<longrightarrow> r_base r = 0) \<and> (target_idx r = 1 \<longrightarrow> r_base r = 0x80000000)) (ranges vp_bus)"
    by (simp add: vp_bus_ranges)
  have r: "target_idx (ranges vp_bus ! k) = 0 \<Longrightarrow> r_base (ranges vp_bus ! k) = 0"
    "target_idx (ranges vp_bus ! k) = 1 \<Longrightarrow> r_base (ranges vp_bus ! k) = 0x80000000"
    using win k bus_decode_iff [OF vp_bus_inv] by (auto simp: list_all_length)
  have "m_size (bootrom (e_plat e)) = BOOTROM_SIZE" "m_size (ram (e_plat e)) = RAM_SIZE"
    using assms(2) by (simp_all add: plat_inv_def memory_ok_def)
  with Some x r show ?thesis
    by (auto simp: try_dmi_def dmi_ok_def vp_dmi_def bootrom_get_direct_mem_ptr_def memory_get_direct_mem_ptr_def
        split: option.splits if_splits)
qed

lemma bus_read_frame: "bus_read throws a n s e = (v, s', e') \<Longrightarrow> hw_frame s s'"
  by (auto simp: bus_read_def Let_def split: if_splits option.splits sum.splits prod.splits
      dest!: vp_transport_frame)

lemma bus_write_frame: "bus_write throws a d n s e = (s', e') \<Longrightarrow> hw_frame s s'"
  by (auto simp: bus_write_def split: if_splits option.splits sum.splits prod.splits dest!: vp_transport_frame)

lemma bus_read_tlb: "bus_read throws a n s e = (v, s', e') \<Longrightarrow> e_tlb e' = e_tlb e"
  by (auto simp: bus_read_def Let_def split: if_splits option.splits sum.splits prod.splits)

lemma bus_write_tlb: "bus_write throws a d n s e = (s', e') \<Longrightarrow> e_tlb e' = e_tlb e"
  by (auto simp: bus_write_def put_dmi_data_def split: if_splits option.splits sum.splits prod.splits)

lemma env_inv_cong:
  "e_plat e' = e_plat e \<Longrightarrow> e_tlb e' = e_tlb e \<Longrightarrow> dmi_ok e' \<Longrightarrow> env_inv b s e \<Longrightarrow> env_inv b s e'"
  by (simp add: env_inv_def)

lemma bus_read_inv:
  assumes "bus_read throws a n s e = (v, s', e')" and "env_inv b s e"
  shows "env_inv b s' e'"
proof -
  have stop: "env_inv b s (e\<lparr>e_stop := x\<rparr>)" for x
    using assms(2) by (simp add: env_inv_def dmi_ok_def)
  have hit: "env_inv b s2 e2" if "vp_transport throws p (s, e_plat e) = Inr (p', s2, pl2)"
    "e2 = (if \<not> dmi_valid (e\<lparr>e_plat := pl2\<rparr>) then try_dmi a (e\<lparr>e_plat := pl2\<rparr>) else e\<lparr>e_plat := pl2\<rparr>)" for p p' s2 pl2 e2
  proof -
    have i: "soc_inv (s2, pl2)" using vp_transport_inv [OF that(1)] assms(2) by (simp add: env_inv_def)
    have "dmi_ok (e\<lparr>e_plat := pl2\<rparr>)" using assms(2) by (simp add: env_inv_def dmi_ok_def)
    with i assms(2) that(2) try_dmi_ok [of "e\<lparr>e_plat := pl2\<rparr>"] show ?thesis by (simp add: env_inv_def soc_inv_def)
  qed
  show ?thesis
    using assms stop hit
    by (auto simp: bus_read_def Let_def split: if_splits option.splits sum.splits prod.splits)
qed

lemma put_dmi_data_inv:
  assumes "env_inv b s e" and "vec_write (dmi_data e) o1 n buf = Some v"
  shows "env_inv b s (put_dmi_data v e)"
  using assms length_vec(2) [OF assms(2)]
  by (auto simp: env_inv_def put_dmi_data_def dmi_ok_def soc_inv_def plat_inv_def lines_exact_def memory_ok_def dmi_data_def)

lemma bus_write_inv:
  assumes "bus_write throws a d n s e = (s', e')" and "env_inv b s e"
  shows "env_inv b s' e'"
proof -
  have stop: "env_inv b s (e\<lparr>e_stop := x\<rparr>)" for x
    using assms(2) by (simp add: env_inv_def dmi_ok_def)
  have hit: "env_inv b s2 (e\<lparr>e_plat := pl2\<rparr>)" if "vp_transport throws p (s, e_plat e) = Inr (p', s2, pl2)" for p p' s2 pl2
    using vp_transport_inv [OF that] assms(2) by (simp add: env_inv_def dmi_ok_def)
  show ?thesis
    using assms stop hit put_dmi_data_inv [OF assms(2)]
    by (auto simp: bus_write_def split: if_splits option.splits sum.splits prod.splits)
qed

section \<open>Translation keeps it\<close>

text \<open>
  The walk reads and writes aligned words, so a property of the memory behind the page tables that
  such accesses keep is kept by a translation.
\<close>

lemma and_3_iff: "a AND 3 = 0 \<longleftrightarrow> unat a mod 4 = 0" for a :: u32
proof -
  have "a AND 3 = take_bit 2 a" by (simp add: take_bit_eq_mask mask_eq_exp_minus_1)
  moreover have "unat (take_bit 2 a) = unat a mod 4" unfolding unsigned_take_bit_eq by (simp add: take_bit_eq_mod)
  ultimately show ?thesis by (metis unat_eq_zero)
qed

lemma aligned_entry: "(a + x * 4) AND 3 = 0" if "a AND 3 = 0" for a x :: u32
proof -
  have "(4 :: nat) dvd 2 ^ 32" by simp
  then have "unat (a + x * 4) mod 4 = (unat a + unat x * 4) mod 4"
    by (simp add: unat_word_ariths mod_mod_cancel mod_simps)
  with that show ?thesis by (simp add: and_3_iff)
qed

lemma aligned_page: "x * PAGE_SIZE AND 3 = 0"
  using aligned_entry [of 0 "x * 0x400"] by (simp add: mult.assoc)

lemma walk_leaf_keeps:
  assumes "walk_leaf M b va ty pv ms l pa p t m = (r, t', m')" and "P m" and "\<And>v m. P m \<Longrightarrow> P (pt_write M pa v m)"
  shows "P m'"
  using assms by (auto simp: walk_leaf_def Let_def split: if_splits)

lemma walk_loop_keeps:
  assumes "walk_loop M b va ty pv ms n a l t m = (r, t', m')" and "P m" and "a AND 3 = 0"
    and "\<And>a m. a AND 3 = 0 \<Longrightarrow> P m \<Longrightarrow> P (snd (pt_read M a m))"
    and "\<And>a v m. a AND 3 = 0 \<Longrightarrow> P m \<Longrightarrow> P (pt_write M a v m)"
  shows "P m'"
  using assms
proof (induction n arbitrary: a l m)
  case (Suc n)
  define pa where "pa = a + (if l = 0 then drop_bit PAGE_SHIFT va AND VPN_MASK
      else drop_bit (PAGE_SHIFT + VPN_BITS) va AND VPN_MASK) * 4"
  have pa: "pa AND 3 = 0" unfolding pa_def by (rule aligned_entry [OF Suc.prems(3)])
  obtain pte m1 where rd: "pt_read M pa m = (pte, m1)" by (cases "pt_read M pa m")
  have "P m1" using Suc.prems(4) [OF pa Suc.prems(2)] rd by simp
  with Suc.prems(1) Suc.IH [OF _ _ aligned_page Suc.prems(4,5)] walk_leaf_keeps [where P = P, OF _ _ Suc.prems(5) [OF pa]]
  show ?case
    unfolding walk_loop.simps Let_def pa_def [symmetric] rd prod.case
    by (auto split: if_splits)
qed simp

lemma translate_keeps:
  assumes "translate M b va ty pv sa ms t m = (r, t', m')" and "P m"
    and "\<And>a m. a AND 3 = 0 \<Longrightarrow> P m \<Longrightarrow> P (snd (pt_read M a m))"
    and "\<And>a v m. a AND 3 = 0 \<Longrightarrow> P m \<Longrightarrow> P (pt_write M a v m)"
  shows "P m'"
  using assms walk_loop_keeps [where P = P, OF _ _ aligned_page]
  by (auto simp: translate_def walk_def Let_def split: if_splits option.splits)

lemma bus_read_snd:
  "snd (bus_read t a n s e) = (s', e') \<Longrightarrow> bus_read t a n s e = (fst (bus_read t a n s e), s', e')"
  by (metis prod.collapse)

lemma iss_translate_frame:
  assumes "iss_translate throws b va ty pv s e = (r, s', e')"
  shows "hw_frame s s'"
proof -
  let ?P = "\<lambda>(x, y :: Env). hw_frame s x"
  from assms obtain t e1 where t: "translate (pt_mem throws) b va ty pv (satp (csr s)) (mstatus (csr s)) (e_tlb e) (s, e) =
      (r, t, (s', e1))"
    by (auto simp: iss_translate_def split: prod.splits)
  have "?P (s', e1)"
    by (rule translate_keeps [where P = ?P, OF t])
      (auto simp: pt_mem_def split: prod.splits dest!: bus_read_snd dest: bus_read_frame bus_write_frame
        intro: hw_frame_trans)
  then show ?thesis by simp
qed

lemma iss_translate_inv:
  assumes "iss_translate throws b va ty pv s e = (r, s', e')" and "env_inv b s e"
  shows "env_inv b s' e'"
proof -
  let ?P = "\<lambda>(x, y). env_inv b x y \<and> e_tlb y = e_tlb e"
  from assms(1) obtain t e1 where t: "translate (pt_mem throws) b va ty pv (satp (csr s)) (mstatus (csr s)) (e_tlb e) (s, e) =
      (r, t, (s', e1))" and e': "e' = e1\<lparr>e_tlb := t\<rparr>"
    by (auto simp: iss_translate_def split: prod.splits)
  have "?P (s', e1)"
    by (rule translate_keeps [where P = ?P, OF t])
      (use assms(2) in \<open>auto simp: pt_mem_def split: prod.splits dest!: bus_read_snd
        dest: bus_read_inv bus_write_inv bus_read_tlb bus_write_tlb\<close>)
  with e' translate_inv [OF t] assms(2) show ?thesis by (auto simp: env_inv_def dmi_ok_def)
qed

lemma set_fault_inv [simp]: "env_inv b s (set_fault c va e) = env_inv b s e"
  by (simp add: env_inv_def set_fault_def dmi_ok_def)

section \<open>The callbacks meet the hart's contract\<close>

interpretation iss: mem_if "iss_mem throws tlb_begin" for throws tlb_begin
  by unfold_locales
    (auto simp: iss_mem_def iss_mem_read_def iss_mem_write_def split: if_splits prod.splits
      dest: bus_read_frame bus_write_frame iss_translate_frame intro: hw_frame_trans)

lemma env_inv_lines: "hw_mip (csr s') = hw_mip (csr s) \<Longrightarrow> env_inv b s e \<Longrightarrow> env_inv b s' e"
  by (simp add: env_inv_def soc_inv_def lines_exact_def)

interpretation iss: mem_if_keeps "iss_mem throws tlb_begin" "env_inv tlb_begin" for throws tlb_begin
proof
  fix s s' e e' a v n
  show "env_inv tlb_begin s' e'" if "env_inv tlb_begin s e" "mem_read (iss_mem throws tlb_begin) a n s e = (v, s', e')"
    using that by (auto simp: iss_mem_def iss_mem_read_def split: if_splits prod.splits
        dest: iss_translate_inv bus_read_inv)
  show "env_inv tlb_begin s' e'" if "env_inv tlb_begin s e" "mem_write (iss_mem throws tlb_begin) a v n s e = (s', e')"
    using that by (auto simp: iss_mem_def iss_mem_write_def split: if_splits prod.splits
        dest: iss_translate_inv bus_write_inv)
  show "env_inv tlb_begin s' e'" if "env_inv tlb_begin s e" "on_satp_write (iss_mem throws tlb_begin) s e = (s', e')"
    using that by (auto simp: iss_mem_def env_inv_def dmi_ok_def flush_tlb_def tlb_inv_def)
qed (rule env_inv_lines)

end
