(* ===== verification/ELF.thy ===== *)
theory ELF
  imports TLM
begin

text \<open>
  Model of \<open>src/src/util/elf_loader.cpp\<close>: validation of the ELF header and loading of the
  segments. The file is a byte list; a \<open>memcpy\<close> into one of the packed header structs is a read
  of its fields at their offsets. Writing to the target's memory is the callback \<open>write\<close>, a
  parameter on a state \<open>'s\<close>. A \<open>std::runtime_error\<close> is a value of \<open>elf_error\<close>;
  \<open>ELF_UB\<close> marks a copy from outside the file, or an overflow of the signed index product.

  The reference is \<open>elf_image\<close>: the memory image that the program headers describe.
\<close>

section \<open>Headers\<close>

datatype elf_error = ELF_CANNOT_OPEN | ELF_TOO_SMALL | ELF_BAD_MAGIC | ELF_NOT_32BIT | ELF_NOT_LITTLE_ENDIAN
  | ELF_NOT_RISCV | ELF_NOT_EXECUTABLE | ELF_HEADERS_EXCEED_FILE | ELF_SEGMENT_EXCEEDS_FILE | ELF_UB

definition u16_at :: "u8 list \<Rightarrow> nat \<Rightarrow> u16" where
  "u16_at data i = ucast (le_word (take 2 (drop i data)))"

definition u32_at :: "u8 list \<Rightarrow> nat \<Rightarrow> u32" where
  "u32_at data i = le_word (take 4 (drop i data))"

record Elf32_Ehdr =
  e_ident :: "u8 list"
  e_type :: u16
  e_machine :: u16
  e_version :: u32
  e_entry :: u32
  e_phoff :: u32
  e_shoff :: u32
  e_flags :: u32
  e_ehsize :: u16
  e_phentsize :: u16
  e_phnum :: u16
  e_shentsize :: u16
  e_shnum :: u16
  e_shstrndx :: u16

record Elf32_Phdr =
  p_type :: u32
  p_offset :: u32
  p_vaddr :: u32
  p_paddr :: u32
  p_filesz :: u32
  p_memsz :: u32
  p_flags :: u32
  p_align :: u32

abbreviation (input) sizeof_Ehdr :: nat where "sizeof_Ehdr \<equiv> 52"
abbreviation (input) sizeof_Phdr :: nat where "sizeof_Phdr \<equiv> 32"
abbreviation (input) EI_NIDENT :: nat where "EI_NIDENT \<equiv> 16"
abbreviation (input) PT_LOAD :: u32 where "PT_LOAD \<equiv> 1"
abbreviation (input) EM_RISCV :: u16 where "EM_RISCV \<equiv> 0xF3"
abbreviation (input) ET_EXEC :: u16 where "ET_EXEC \<equiv> 2"

definition read_ehdr :: "u8 list \<Rightarrow> Elf32_Ehdr" where
  "read_ehdr data =
     \<lparr>e_ident = take EI_NIDENT data, e_type = u16_at data 16, e_machine = u16_at data 18,
      e_version = u32_at data 20, e_entry = u32_at data 24, e_phoff = u32_at data 28, e_shoff = u32_at data 32,
      e_flags = u32_at data 36, e_ehsize = u16_at data 40, e_phentsize = u16_at data 42, e_phnum = u16_at data 44,
      e_shentsize = u16_at data 46, e_shnum = u16_at data 48, e_shstrndx = u16_at data 50\<rparr>"

definition read_phdr :: "u8 list \<Rightarrow> nat \<Rightarrow> Elf32_Phdr" where
  "read_phdr data i =
     \<lparr>p_type = u32_at data i, p_offset = u32_at data (i + 4), p_vaddr = u32_at data (i + 8),
      p_paddr = u32_at data (i + 12), p_filesz = u32_at data (i + 16), p_memsz = u32_at data (i + 20),
      p_flags = u32_at data (i + 24), p_align = u32_at data (i + 28)\<rparr>"

definition validate_header :: "Elf32_Ehdr \<Rightarrow> elf_error option" where
  "validate_header eh =
     (if e_ident eh ! 0 \<noteq> 0x7F \<or> e_ident eh ! 1 \<noteq> 0x45 \<or> e_ident eh ! 2 \<noteq> 0x4C \<or> e_ident eh ! 3 \<noteq> 0x46
      then Some ELF_BAD_MAGIC
      else if e_ident eh ! 4 \<noteq> 1 then Some ELF_NOT_32BIT
      else if e_ident eh ! 5 \<noteq> 1 then Some ELF_NOT_LITTLE_ENDIAN
      else if e_machine eh \<noteq> EM_RISCV then Some ELF_NOT_RISCV
      else if e_type eh \<noteq> ET_EXEC then Some ELF_NOT_EXECUTABLE
      else None)"

section \<open>Loading\<close>

record ElfLoadResult =
  entry_point :: u32
  load_min :: u32
  load_max :: u32
  segments_loaded :: int

definition ElfLoadResult_new :: ElfLoadResult where
  "ElfLoadResult_new = \<lparr>entry_point = 0, load_min = 0xFFFFFFFF, load_max = 0, segments_loaded = 0\<rparr>"

type_synonym 's elf_write_fn = "u32 \<Rightarrow> u8 list \<Rightarrow> 's \<Rightarrow> 's"

text \<open>The position of program header \<open>i\<close>, if the copy from there is inside the file.\<close>

definition phdr_at :: "u8 list \<Rightarrow> Elf32_Ehdr \<Rightarrow> nat \<Rightarrow> Elf32_Phdr option" where
  "phdr_at data eh i =
     (let pos = unat (e_phoff eh) + i * unat (e_phentsize eh)
      in if i * unat (e_phentsize eh) < 2 ^ 31 \<and> pos + sizeof_Phdr \<le> length data
         then Some (read_phdr data pos) else None)"

definition load_segment :: "u8 list \<Rightarrow> 's elf_write_fn \<Rightarrow> Elf32_Phdr \<Rightarrow> ElfLoadResult \<times> 's \<Rightarrow>
    elf_error + (ElfLoadResult \<times> 's)" where
  "load_segment data write ph = (\<lambda>(r, s).
     if p_type ph \<noteq> PT_LOAD then Inr (r, s)
     else if unat (p_offset ph + p_filesz ph) > length data then Inl ELF_SEGMENT_EXCEEDS_FILE
     else if p_filesz ph > 0 \<and> unat (p_offset ph) + unat (p_filesz ph) > length data then Inl ELF_UB
     else
       let s1 = (if p_filesz ph > 0
                 then write (p_paddr ph) (take (unat (p_filesz ph)) (drop (unat (p_offset ph)) data)) s else s);
           s2 = (if p_memsz ph > p_filesz ph
                 then write (p_paddr ph + p_filesz ph) (replicate (unat (p_memsz ph - p_filesz ph)) 0) s1 else s1);
           r1 = (if p_paddr ph < load_min r then r\<lparr>load_min := p_paddr ph\<rparr> else r);
           r2 = (if p_paddr ph + p_memsz ph > load_max r1 then r1\<lparr>load_max := p_paddr ph + p_memsz ph\<rparr> else r1)
       in Inr (r2\<lparr>segments_loaded := segments_loaded r2 + 1\<rparr>, s2))"

fun load_segments :: "u8 list \<Rightarrow> Elf32_Ehdr \<Rightarrow> 's elf_write_fn \<Rightarrow> nat list \<Rightarrow> ElfLoadResult \<times> 's \<Rightarrow>
    elf_error + (ElfLoadResult \<times> 's)" where
  "load_segments data eh write [] rs = Inr rs"
| "load_segments data eh write (i # is) rs =
     (case phdr_at data eh i of
        None \<Rightarrow> Inl ELF_UB
      | Some ph \<Rightarrow>
          (case load_segment data write ph rs of
             Inl e \<Rightarrow> Inl e
           | Inr rs' \<Rightarrow> load_segments data eh write is rs'))"

definition do_load :: "u8 list \<Rightarrow> 's elf_write_fn \<Rightarrow> 's \<Rightarrow> elf_error + (ElfLoadResult \<times> 's)" where
  "do_load data write s =
     (if length data < sizeof_Ehdr then Inl ELF_TOO_SMALL
      else let eh = read_ehdr data
           in case validate_header eh of
                Some e \<Rightarrow> Inl e
              | None \<Rightarrow>
                  if unat (e_phoff eh) + unat (e_phnum eh) * unat (e_phentsize eh) > length data
                  then Inl ELF_HEADERS_EXCEED_FILE
                  else load_segments data eh write [0..<unat (e_phnum eh)]
                         (ElfLoadResult_new\<lparr>entry_point := e_entry eh\<rparr>, s))"

definition load_elf_from_memory :: "u8 list \<Rightarrow> 's elf_write_fn \<Rightarrow> 's \<Rightarrow> elf_error + (ElfLoadResult \<times> 's)" where
  "load_elf_from_memory data write s = do_load data write s"

text \<open>\<open>file\<close> is what the host's file system has under the path.\<close>

definition load_elf :: "u8 list option \<Rightarrow> 's elf_write_fn \<Rightarrow> 's \<Rightarrow> elf_error + (ElfLoadResult \<times> 's)" where
  "load_elf file write s = (case file of None \<Rightarrow> Inl ELF_CANNOT_OPEN | Some buf \<Rightarrow> do_load buf write s)"

text \<open>A property that the write callback keeps is kept by loading.\<close>

lemma load_segments_keeps:
  assumes "load_segments data eh w is (r, s) = Inr (r', s')" and "P s" and "\<And>a bs s. P s \<Longrightarrow> P (w a bs s)"
  shows "P s'"
  using assms
proof (induction "is" arbitrary: r s)
  case (Cons i "is")
  have seg: "P s1" if "load_segment data w ph (r, s) = Inr (r1, s1)" for ph r1 s1
    using that Cons.prems(2,3) by (auto simp: load_segment_def Let_def split: if_splits)
  from Cons.prems(1) obtain ph r1 s1 where "load_segment data w ph (r, s) = Inr (r1, s1)"
    "load_segments data eh w is (r1, s1) = Inr (r', s')"
    by (auto split: option.splits sum.splits)
  with Cons.IH seg Cons.prems(3) show ?case by blast
qed simp

lemma do_load_keeps:
  assumes "do_load data w s = Inr (r, s')" and "P s" and "\<And>a bs s. P s \<Longrightarrow> P (w a bs s)"
  shows "P s'"
  using assms load_segments_keeps [where P = P]
  by (auto simp: do_load_def Let_def split: if_splits option.splits)

section \<open>The image a file describes\<close>

definition segment_image :: "u8 list \<Rightarrow> Elf32_Phdr \<Rightarrow> (nat \<Rightarrow> u8) \<Rightarrow> nat \<Rightarrow> u8" where
  "segment_image data ph mem x =
     (let k = x - unat (p_paddr ph)
      in if p_type ph \<noteq> PT_LOAD \<or> x < unat (p_paddr ph) then mem x
         else if k < unat (p_filesz ph) then data ! (unat (p_offset ph) + k)
         else if k < unat (p_memsz ph) then 0 else mem x)"

definition elf_headers :: "u8 list \<Rightarrow> Elf32_Phdr list" where
  "elf_headers data = (let eh = read_ehdr data
     in map (\<lambda>i. read_phdr data (unat (e_phoff eh) + i * unat (e_phentsize eh))) [0..<unat (e_phnum eh)])"

definition elf_image :: "u8 list \<Rightarrow> (nat \<Rightarrow> u8) \<Rightarrow> nat \<Rightarrow> u8" where
  "elf_image data = fold (segment_image data) (elf_headers data)"

text \<open>
  A memory that the loader can write to: \<open>inside a n\<close> are the ranges where \<open>write\<close> stores.
\<close>

definition placeable :: "(nat \<Rightarrow> nat \<Rightarrow> bool) \<Rightarrow> Elf32_Phdr \<Rightarrow> bool" where
  "placeable inside ph =
     (p_type ph = PT_LOAD \<longrightarrow> inside (unat (p_paddr ph)) (max (unat (p_filesz ph)) (unat (p_memsz ph))))"

locale elf_store =
  fixes wr :: "'s elf_write_fn" and byte :: "'s \<Rightarrow> nat \<Rightarrow> u8" and inside :: "nat \<Rightarrow> nat \<Rightarrow> bool"
    and inv :: "'s \<Rightarrow> bool"
  assumes inside_sub: "inside i k \<Longrightarrow> i \<le> j \<Longrightarrow> j + m \<le> i + k \<Longrightarrow> inside j m"
    and inside_bound: "inside i k \<Longrightarrow> i + k < 2 ^ 32"
    and write_byte: "inv s \<Longrightarrow> inside (unat a) (length bs) \<Longrightarrow>
      byte (wr a bs s) x = (if unat a \<le> x \<and> x < unat a + length bs then bs ! (x - unat a) else byte s x)"
    and write_inv: "inv s \<Longrightarrow> inside (unat a) (length bs) \<Longrightarrow> inv (wr a bs s)"
begin

lemma load_segment_image:
  assumes "load_segment data wr ph (r, s) = Inr (r', s')" and "inv s" and "placeable inside ph"
  shows "inv s' \<and> byte s' = segment_image data ph (byte s)"
proof (cases "p_type ph = PT_LOAD")
  case False
  with assms show ?thesis by (auto simp: load_segment_def segment_image_def fun_eq_iff)
next
  case True
  define f where "f = take (unat (p_filesz ph)) (drop (unat (p_offset ph)) data)"
  define z where "z = replicate (unat (p_memsz ph - p_filesz ph)) (0 :: u8)"
  define s1 where "s1 = (if p_filesz ph > 0 then wr (p_paddr ph) f s else s)"
  have s': "s' = (if p_memsz ph > p_filesz ph then wr (p_paddr ph + p_filesz ph) z s1 else s1)"
    and fits: "p_filesz ph > 0 \<Longrightarrow> unat (p_offset ph) + unat (p_filesz ph) \<le> length data"
    using assms(1) True by (auto simp: load_segment_def Let_def f_def z_def s1_def split: if_splits)
  have ins: "inside (unat (p_paddr ph)) (max (unat (p_filesz ph)) (unat (p_memsz ph)))"
    using assms(3) True by (simp add: placeable_def)
  have lf: "length f = unat (p_filesz ph)" if "p_filesz ph > 0" using fits [OF that] by (simp add: f_def)
  have i1: "inside (unat (p_paddr ph)) (length f)" if "p_filesz ph > 0"
    using inside_sub [OF ins] lf [OF that] by simp
  have 1: "inv s1" "byte s1 x = (if unat (p_paddr ph) \<le> x \<and> x < unat (p_paddr ph) + unat (p_filesz ph)
      then data ! (unat (p_offset ph) + (x - unat (p_paddr ph))) else byte s x)" for x
    using write_inv [OF assms(2) i1] write_byte [OF assms(2) i1] lf fits assms(2)
    by (auto simp: s1_def f_def word_gt_0 unat_eq_zero)
  have bss: "unat (p_paddr ph + p_filesz ph) = unat (p_paddr ph) + unat (p_filesz ph)"
    "length z = unat (p_memsz ph) - unat (p_filesz ph)"
    "inside (unat (p_paddr ph + p_filesz ph)) (length z)" if "p_memsz ph > p_filesz ph"
  proof -
    have lt: "unat (p_filesz ph) < unat (p_memsz ph)" using that by (simp add: word_less_nat_alt)
    show l: "length z = unat (p_memsz ph) - unat (p_filesz ph)"
      using that by (simp add: z_def unat_sub)
    show a: "unat (p_paddr ph + p_filesz ph) = unat (p_paddr ph) + unat (p_filesz ph)"
      using inside_bound [OF ins] lt by (simp add: unat_word_ariths)
    show "inside (unat (p_paddr ph + p_filesz ph)) (length z)"
      using inside_sub [OF ins] lt l a by auto
  qed
  show ?thesis
  proof (cases "p_memsz ph > p_filesz ph")
    case more: True
    note b = bss [OF more]
    have "byte s' x = segment_image data ph (byte s) x" for x
      using write_byte [OF 1(1) b(3)] 1(2) more True b(1,2)
      by (auto simp: s' segment_image_def z_def Let_def nth_replicate word_less_nat_alt)
    with write_inv [OF 1(1) b(3)] more show ?thesis by (auto simp: s')
  next
    case False
    have "byte s' x = segment_image data ph (byte s) x" for x
      using 1(2) False True by (auto simp: s' segment_image_def Let_def word_less_nat_alt)
    with 1(1) False show ?thesis by (auto simp: s')
  qed
qed

lemma load_segments_image:
  assumes "load_segments data eh wr is (r, s) = Inr (r', s')" and "inv s"
    and "\<forall>i \<in> set is. placeable inside (read_phdr data (unat (e_phoff eh) + i * unat (e_phentsize eh)))"
  shows "inv s' \<and> byte s' =
    fold (segment_image data) (map (\<lambda>i. read_phdr data (unat (e_phoff eh) + i * unat (e_phentsize eh))) is) (byte s)"
  using assms
proof (induction "is" arbitrary: r s)
  case (Cons i "is")
  let ?ph = "read_phdr data (unat (e_phoff eh) + i * unat (e_phentsize eh))"
  from Cons.prems(1) have "phdr_at data eh i = Some ?ph"
    by (auto simp: phdr_at_def Let_def split: if_splits option.splits)
  with Cons.prems(1) obtain r1 s1 where seg: "load_segment data wr ?ph (r, s) = Inr (r1, s1)"
    and rest: "load_segments data eh wr is (r1, s1) = Inr (r', s')"
    by (auto split: sum.splits)
  from load_segment_image [OF seg Cons.prems(2)] Cons.prems(3) have "inv s1" "byte s1 = segment_image data ?ph (byte s)"
    by auto
  with Cons.IH [OF rest] Cons.prems(3) show ?case by simp
qed simp

lemma load_segments_entry:
  "load_segments data eh w is (r, s) = Inr (r', s') \<Longrightarrow> entry_point r' = entry_point r"
proof (induction "is" arbitrary: r s)
  case (Cons i "is")
  have seg: "load_segment data w ph (r, s) = Inr (r1, s1) \<Longrightarrow> entry_point r1 = entry_point r" for ph r1 s1
    by (auto simp: load_segment_def Let_def split: if_splits)
  from Cons.prems obtain ph r1 s1 where "load_segment data w ph (r, s) = Inr (r1, s1)"
    "load_segments data eh w is (r1, s1) = Inr (r', s')"
    by (auto split: option.splits sum.splits)
  with Cons.IH seg show ?case by metis
qed simp

lemma do_load_image:
  assumes "do_load data wr s = Inr (r, s')" and "inv s" and "\<forall>ph \<in> set (elf_headers data). placeable inside ph"
  shows "inv s' \<and> byte s' = elf_image data (byte s) \<and> entry_point r = e_entry (read_ehdr data)"
proof -
  let ?eh = "read_ehdr data"
  from assms(1) have "load_segments data ?eh wr [0..<unat (e_phnum ?eh)]
      (ElfLoadResult_new\<lparr>entry_point := e_entry ?eh\<rparr>, s) = Inr (r, s')"
    by (auto simp: do_load_def Let_def split: if_splits option.splits)
  from load_segments_entry [OF this] load_segments_image [OF this assms(2)] assms(3) show ?thesis
    by (simp add: elf_image_def elf_headers_def Let_def)
qed

end

section \<open>Errors\<close>

text \<open>
  A segment whose offset plus size wraps around 32 bits passes the length check, which is made on
  the wrapped sum, and is then copied from outside the file.
\<close>

lemma load_segment_wraps:
  assumes "p_type ph = PT_LOAD" and "0 < p_filesz ph" and "unat (p_offset ph + p_filesz ph) \<le> length data"
    and "length data < unat (p_offset ph) + unat (p_filesz ph)"
  shows "load_segment data write ph (r, s) = Inl ELF_UB"
  using assms by (simp add: load_segment_def)

end
