(* ===== verification/VP_Boot.thy ===== *)
theory VP_Boot
  imports Platform ELF
begin

text \<open>
  The rest of the constructor in \<open>src/src/platform/gamingcpu_vp.cpp\<close>: opening the SD image and
  loading the program. The write callback of the loader stores a range that lies in RAM or in the
  boot ROM and ignores any other. The sum of address and length is 64 bits wide there, so it does
  not wrap.
\<close>

text \<open>\<open>memcpy\<close> into a memory at an offset; the callers have checked that it fits.\<close>

definition mem_store :: "nat \<Rightarrow> u8 list \<Rightarrow> Memory \<Rightarrow> Memory" where
  "mem_store off bs m = (case vec_write (m_data m) off (length bs) bs of Some v \<Rightarrow> m\<lparr>m_data := v\<rparr> | None \<Rightarrow> m)"

definition vp_elf_write :: "Plat elf_write_fn" where
  "vp_elf_write paddr bs pl =
     (if paddr \<ge> RAM_BASE \<and> unat paddr + length bs \<le> unat (RAM_BASE + RAM_SIZE)
      then pl\<lparr>ram := mem_store (unat (paddr - RAM_BASE)) bs (ram pl)\<rparr>
      else if paddr \<ge> BOOTROM_BASE \<and> unat paddr + length bs \<le> unat (BOOTROM_BASE + BOOTROM_SIZE)
      then pl\<lparr>bootrom := mem_store (unat (paddr - BOOTROM_BASE)) bs (bootrom pl)\<rparr>
      else pl)"

text \<open>An empty path is \<open>None\<close>; \<open>Some f\<close> is a path whose file has content \<open>f\<close>, if it exists.\<close>

definition attach_card :: "u8 list option option \<Rightarrow> Plat \<Rightarrow> Plat" where
  "attach_card sd_image_path pl =
     (case sd_image_path of
        None \<Rightarrow> pl
      | Some img \<Rightarrow>
          (case sd_open img SDCardModel_new of
             (True, c) \<Rightarrow> pl\<lparr>sd_ctrl := set_card c (sd_ctrl pl)\<rparr>
           | (False, c) \<Rightarrow> pl))"

definition GamingCPU_VP :: "u8 list option option \<Rightarrow> u8 list option option \<Rightarrow> elf_error + soc" where
  "GamingCPU_VP elf_path sd_image_path =
     (let pl = attach_card sd_image_path Plat_new
      in case elf_path of
           None \<Rightarrow> Inr (CPUState_init, pl)
         | Some file \<Rightarrow>
             (case load_elf file vp_elf_write pl of
                Inl e \<Rightarrow> Inl e
              | Inr (result, pl') \<Rightarrow> Inr (CPUState_init\<lparr>pc := entry_point result\<rparr>, pl')))"

section \<open>The loaded program\<close>

lemma mem_store_ok: "memory_ok sz m \<Longrightarrow> memory_ok sz (mem_store off bs m)"
  by (auto simp: mem_store_def memory_ok_def split: option.splits dest: length_vec)

lemma vp_elf_write_inv: "plat_inv pl \<Longrightarrow> plat_inv (vp_elf_write a bs pl)"
  by (simp add: vp_elf_write_def plat_inv_def mem_store_ok)

lemma vp_elf_write_byte:
  assumes "plat_inv pl" and "ram_mapped (unat a) (length bs)"
  shows "ram_byte (s, vp_elf_write a bs pl) x =
    (if unat a \<le> x \<and> x < unat a + length bs then bs ! (x - unat a) else ram_byte (s, pl) x)"
proof -
  have m: "length (m_data (ram pl)) = 0x08000000" using assms(1) by (simp add: plat_inv_def memory_ok_def)
  have off: "unat (a - 0x80000000) = unat a - 0x80000000"
    using assms(2) by (subst unat_sub) (simp_all add: ram_mapped_def word_le_nat_alt)
  have "unat (a - 0x80000000) + length bs \<le> 0x08000000" using assms(2) off by (auto simp: ram_mapped_def)
  then obtain v where v: "vec_write (m_data (ram pl)) (unat (a - 0x80000000)) (length bs) bs = Some v"
    using m by (simp add: vec_write_def)
  have "vp_elf_write a bs pl = pl\<lparr>ram := (ram pl)\<lparr>m_data := v\<rparr>\<rparr>"
    using assms(2) v by (simp add: vp_elf_write_def mem_store_def ram_mapped_def word_le_nat_alt)
  then show ?thesis
    using nth_vec_write [OF v, of "x - 0x80000000"] m assms(2)
    by (auto simp: ram_byte_def off ram_mapped_def)
qed

interpretation vp_elf: elf_store vp_elf_write "\<lambda>pl. ram_byte (CPUState_init, pl)" ram_mapped plat_inv
  by unfold_locales (auto simp: ram_mapped_def vp_elf_write_inv vp_elf_write_byte)

lemma plat_inv_attach: "plat_inv (attach_card c Plat_new)"
  "lines_exact CPUState_init (attach_card c Plat_new)"
  using soc_inv_new
  by (auto simp: attach_card_def soc_inv_def plat_inv_def lines_exact_def split: option.splits prod.splits bool.splits)

lemma vp_elf_write_devices:
  "clint (vp_elf_write a bs pl) = clint pl" "plic (vp_elf_write a bs pl) = plic pl"
  by (simp_all add: vp_elf_write_def)

text \<open>Whatever it loads, the constructor leaves the platform in a good state.\<close>

lemma vp_boot_inv:
  assumes "GamingCPU_VP elf sd = Inr (s, pl)"
  shows "soc_inv (s, pl) \<and> (\<exists>v. s = CPUState_init\<lparr>pc := v\<rparr>)"
proof -
  let ?pl = "attach_card sd Plat_new"
  let ?P = "\<lambda>pl. plat_inv pl \<and> clint pl = clint ?pl \<and> plic pl = plic ?pl"
  have "?P pl"
  proof (cases elf)
    case None
    with assms have "pl = ?pl" by (simp add: GamingCPU_VP_def)
    then show ?thesis using plat_inv_attach(1) by simp
  next
    case (Some f)
    with assms obtain data r where "do_load data vp_elf_write ?pl = Inr (r, pl)"
      by (auto simp: GamingCPU_VP_def load_elf_def split: sum.splits option.splits)
    from do_load_keeps [where P = ?P, OF this] show ?thesis
      by (simp add: plat_inv_attach vp_elf_write_inv vp_elf_write_devices)
  qed
  moreover have v: "\<exists>v. s = CPUState_init\<lparr>pc := v\<rparr>"
  proof (cases elf)
    case None
    with assms have "s = CPUState_init\<lparr>pc := pc CPUState_init\<rparr>" by (simp add: GamingCPU_VP_def)
    then show ?thesis ..
  next
    case (Some f)
    with assms show ?thesis by (auto simp: GamingCPU_VP_def split: sum.splits)
  qed
  ultimately show ?thesis
    using plat_inv_attach(2) [of sd] by (auto simp: soc_inv_def lines_exact_def)
qed

text \<open>
  What the constructor leaves of a program whose loadable segments lie in RAM: the image of the
  file, at the physical addresses of its segments, and the entry point in the program counter,
  which \<open>ISS::run\<close> replaces by the reset address before the first fetch.
\<close>

lemma boot_image:
  assumes "GamingCPU_VP (Some (Some data)) sd = Inr (s, pl)"
    and "\<forall>ph \<in> set (elf_headers data). placeable ram_mapped ph"
  shows "ram_byte (s, pl) = elf_image data (ram_byte (CPUState_init, Plat_new)) \<and>
    pc s = e_entry (read_ehdr data) \<and> plat_inv pl"
proof -
  let ?pl = "attach_card sd Plat_new"
  from assms(1) obtain r where r: "do_load data vp_elf_write ?pl = Inr (r, pl)" "s = CPUState_init\<lparr>pc := entry_point r\<rparr>"
    by (auto simp: GamingCPU_VP_def load_elf_def split: sum.splits)
  have "ram_byte (CPUState_init, ?pl) = ram_byte (CPUState_init, Plat_new)"
    by (auto simp: ram_byte_def attach_card_def fun_eq_iff split: option.splits prod.splits bool.splits)
  moreover have "ram_byte (s, pl) = ram_byte (CPUState_init, pl)" by (simp add: ram_byte_def fun_eq_iff)
  ultimately show ?thesis
    using vp_elf.do_load_image [OF r(1) plat_inv_attach(1) assms(2)] by (simp add: r(2))
qed

definition example_elf :: "u8 list" where
  "example_elf =
    [127, 69, 76, 70, 1, 1, 1, 0, 0, 0, 0, 0, 0, 0, 0, 0, 2, 0, 243, 0, 1, 0, 0, 0, 0, 0, 0, 128, 52, 0,
     0, 0, 0, 0, 0, 0, 0, 0, 0, 0, 52, 0, 32, 0, 1, 0, 0, 0, 0, 0, 0, 0, 1, 0, 0, 0, 84, 0, 0, 0, 0, 0,
     0, 128, 0, 0, 0, 128, 4, 0, 0, 0, 8, 0, 0, 0, 5, 0, 0, 0, 4, 0, 0, 0, 19, 0, 0, 0]"

lemma example_elf_fields:
  "e_phoff (read_ehdr example_elf) = 52" "e_phentsize (read_ehdr example_elf) = 32"
  "e_phnum (read_ehdr example_elf) = 1" "e_entry (read_ehdr example_elf) = 0x80000000"
  "validate_header (read_ehdr example_elf) = None" "length example_elf = 88"
  "take 4 (drop 84 example_elf) = [0x13, 0, 0, 0]"
  "read_phdr example_elf 52 =
    \<lparr>p_type = 1, p_offset = 84, p_vaddr = 0x80000000, p_paddr = 0x80000000, p_filesz = 4, p_memsz = 8, p_flags = 5, p_align = 4\<rparr>"
  by code_simp+

lemma example_elf_loads:
  "do_load example_elf w s =
    Inr (\<lparr>entry_point = 0x80000000, load_min = 0x80000000, load_max = 0x80000008, segments_loaded = 1\<rparr>,
      w 0x80000004 [0, 0, 0, 0] (w 0x80000000 [0x13, 0, 0, 0] s))"
proof -
  have "replicate 4 (0 :: u8) = [0, 0, 0, 0]" by code_simp
  then show ?thesis
    by (simp add: do_load_def Let_def example_elf_fields phdr_at_def load_segment_def ElfLoadResult_new_def)
qed

lemma example_elf_headers: "elf_headers example_elf = [read_phdr example_elf 52]"
  by (simp add: elf_headers_def example_elf_fields Let_def)

end
