(* ===== verification/ISS_Run.thy ===== *)
theory ISS_Run
  imports ISS VP_Boot
begin

text \<open>
  Runs of the whole platform: the processor's loop interleaved with the clocks, the DMA and SD
  threads, the host's inputs and the debugger's control, in any order. The invariant joins the
  well-formedness of the hart, an even program counter, the device invariants, exact interrupt
  lines, a sound direct-memory window and the TLB bound; it holds in every reachable state.
\<close>

unbundle bit_operations_syntax

section \<open>Runs\<close>

definition get_soc :: "ISS \<Rightarrow> soc" where "get_soc I = (cpu I, e_plat (env I))"

definition put_soc :: "soc \<Rightarrow> ISS \<Rightarrow> ISS" where
  "put_soc x I = I\<lparr>cpu := fst x, env := (env I)\<lparr>e_plat := snd x\<rparr>\<rparr>"

inductive vp_step :: "bool \<Rightarrow> (tlb \<Rightarrow> u32) \<Rightarrow> ISS \<Rightarrow> ISS \<Rightarrow> bool" for throws tlb_begin where
  core: "iss_step throws tlb_begin I = Inr I' \<Longrightarrow> vp_step throws tlb_begin I I'"
| clint: "vp_step throws tlb_begin I (put_soc (vp_clint_tick (get_soc I)) I)"
| timer: "vp_step throws tlb_begin I (put_soc (vp_timer_tick (get_soc I)) I)"
| rx: "vp_step throws tlb_begin I (put_soc (vp_push_rx b (get_soc I)) I)"
| pins: "vp_step throws tlb_begin I (put_soc (vp_set_input w (get_soc I)) I)"
| dma: "dma_start (vp_get_dma (get_soc I)) \<Longrightarrow> vp_dma_turn throws junk (get_soc I) = Inr x \<Longrightarrow>
    vp_step throws tlb_begin I (put_soc x I)"
| sd: "sd_start (vp_get_sd (get_soc I)) \<Longrightarrow> vp_sd_turn throws (get_soc I) = Inr x \<Longrightarrow>
    vp_step throws tlb_begin I (put_soc x I)"
| halt: "vp_step throws tlb_begin I (iss_halt I)"
| resume: "vp_step throws tlb_begin I (iss_resume I)"
| debug_step: "vp_step throws tlb_begin I (iss_single_step I)"
| ebreak: "vp_step throws tlb_begin I (I\<lparr>stop_on_ebreak := v\<rparr>)"

inductive vp_reachable :: "bool \<Rightarrow> (tlb \<Rightarrow> u32) \<Rightarrow> ISS \<Rightarrow> bool" for throws tlb_begin where
  boot: "GamingCPU_VP elf sd = Inr x \<Longrightarrow> vp_reachable throws tlb_begin (iss_start RAM_BASE x)"
| step: "vp_reachable throws tlb_begin I \<Longrightarrow> vp_step throws tlb_begin I I' \<Longrightarrow> vp_reachable throws tlb_begin I'"

section \<open>Invariant\<close>

text \<open>A well-formed simulator, with a condition on its program counter.\<close>

definition iss_ok :: "(u32 \<Rightarrow> bool) \<Rightarrow> (tlb \<Rightarrow> u32) \<Rightarrow> ISS \<Rightarrow> bool" where
  "iss_ok P b I = (cpu_inv (cpu I) \<and> P (pc (cpu I)) \<and> env_inv b (cpu I) (env I) \<and> e_stop (env I) = None)"

abbreviation iss_inv :: "(tlb \<Rightarrow> u32) \<Rightarrow> ISS \<Rightarrow> bool" where "iss_inv \<equiv> iss_ok even"
abbreviation iss_well :: "(tlb \<Rightarrow> u32) \<Rightarrow> ISS \<Rightarrow> bool" where "iss_well \<equiv> iss_ok (\<lambda>a. True)"

lemmas iss_inv_def = iss_ok_def

lemma take_trap_hw_mip [simp]: "hw_mip (csr (take_trap c tv s)) = hw_mip (csr s)"
  by (simp add: take_trap_def Let_def)

lemma cpu_inv_pc [simp]: "cpu_inv (s\<lparr>pc := v\<rparr>) = cpu_inv s" "cpu_inv (s\<lparr>next_pc := v\<rparr>) = cpu_inv s"
  by (simp_all add: cpu_inv_def)

lemma iss_trap_inv:
  assumes "cpu_inv (cpu I)" and "env_inv b (cpu I) (env I)" and "e_stop (env I) = None"
  shows "iss_inv b (iss_trap c tv I)"
proof -
  let ?s = "take_trap c tv (cpu I)"
  have "env_inv b (?s\<lparr>pc := next_pc ?s\<rparr>) (env I)" by (rule env_inv_lines [OF _ assms(2)]) simp
  with assms show ?thesis by (simp add: iss_inv_def iss_trap_def Let_def take_trap_next_pc_even)
qed

lemma counters_hw_mip [simp]: "hw_mip (inc_mcycle c) = hw_mip c" "hw_mip (inc_minstret c) = hw_mip c"
  by (simp_all add: inc_mcycle_def inc_minstret_def Let_def)

lemma iss_retire_inv:
  assumes "cpu_inv (cpu I)" and "env_inv b (cpu I) (env I)" and "e_stop (env I) = None"
    and "even (pc (cpu I))" and "even (next_pc (cpu I))"
  shows "iss_inv b (iss_retire r I)"
proof -
  define s1 where "s1 = (cpu I)\<lparr>csr := inc_minstret (inc_mcycle (csr (cpu I)))\<rparr>"
  have s1: "cpu_inv s1" "hw_mip (csr s1) = hw_mip (csr (cpu I))" "even (pc s1)" "even (next_pc s1)"
    using assms by (simp_all add: s1_def cpu_inv_def)
  define s2 where "s2 = (if exception r then take_trap (cause r) (tval r) s1 else s1)"
  have s2: "cpu_inv (s2\<lparr>pc := next_pc s2\<rparr>)" "hw_mip (csr (s2\<lparr>pc := next_pc s2\<rparr>)) = hw_mip (csr (cpu I))"
    "even (next_pc s2)"
    using s1 by (simp_all add: s2_def take_trap_next_pc_even)
  define e2 where "e2 = (if fence_i r then (env I)\<lparr>dmi_valid := False\<rparr> else env I)"
  define e3 where "e3 = (if sfence_vma r then e2\<lparr>e_tlb := flush_tlb (e_tlb e2)\<rparr> else e2)"
  have "env_inv b (cpu I) e3" "e_stop e3 = None"
    using assms(2,3) by (simp_all add: e3_def e2_def env_inv_def dmi_ok_def flush_tlb_def tlb_inv_def)
  with s2 have i: "cpu_inv (s2\<lparr>pc := next_pc s2\<rparr>)" "env_inv b (s2\<lparr>pc := next_pc s2\<rparr>) e3" "e_stop e3 = None"
    using env_inv_lines [OF s2(2)] by auto
  have "iss_retire r I = (let J = I\<lparr>insn_count := insn_count I + 1\<rparr> in
      if exception r \<and> cause r = CAUSE_BREAKPOINT \<and> stop_on_ebreak I then J\<lparr>cpu := s1, halted := True\<rparr>
      else if single_step I then J\<lparr>cpu := s2\<lparr>pc := next_pc s2\<rparr>, env := e3, halted := True, single_step := False\<rparr>
      else J\<lparr>cpu := s2\<lparr>pc := next_pc s2\<rparr>, env := e3\<rparr>)"
    by (simp add: iss_retire_def Let_def s1_def s2_def e3_def e2_def)
  with i s1 s2(3) assms(2,3) env_inv_lines [OF s1(2)] show ?thesis by (auto simp: iss_inv_def Let_def)
qed

lemma hw_frame_cpu_inv: "hw_frame s s' \<Longrightarrow> cpu_inv s \<Longrightarrow> cpu_inv s' \<and> pc s' = pc s"
  using hw_frame_arch_step by (auto simp: arch_step_def)

lemma iss_execute_inv:
  assumes "iss_execute throws b raw I = Inr I'" and "iss_inv b I"
  shows "iss_inv b I'"
proof -
  define d where "d = decode raw"
  define s1 where "s1 = (cpu I)\<lparr>next_pc := pc (cpu I) + instr_len d\<rparr>"
  define e1 where "e1 = (env I)\<lparr>mem_fault := False\<rparr>"
  obtain r s2 e2 where x: "execute (iss_mem throws b) d s1 e1 = (r, s2, e2)" using prod_cases3 by blast
  have pre: "cpu_inv s1" "even (pc s1)" "env_inv b s1 e1" "csr_inv (csr s1)"
  proof -
    have "env_inv b (cpu I) e1" using assms(2) by (simp add: iss_inv_def e1_def env_inv_def dmi_ok_def)
    then show "env_inv b s1 e1" by (rule env_inv_lines [rotated]) (simp add: s1_def)
  qed (use assms(2) in \<open>simp_all add: iss_inv_def s1_def cpu_inv_def\<close>)
  have post: "cpu_inv s2" "pc s2 = pc s1" "env_inv b s2 e2" "even (next_pc s2)"
    using iss.execute_arch_step [OF x] iss.execute_keeps [OF x pre(3)]
      iss.execute_next_pc_even [OF x pre(2,4)] decode_jump_even [of raw] pre(1)
    by (auto simp: arch_step_def d_def)
  have "env_inv b s2 (e2\<lparr>mem_fault := False\<rparr>)" using post(3) by (simp add: env_inv_def dmi_ok_def)
  with assms(1) post pre(2) iss_trap_inv [of "I\<lparr>cpu := s2, env := e2\<lparr>mem_fault := False\<rparr>\<rparr>" b]
    iss_retire_inv [of "I\<lparr>cpu := s2, env := e2\<rparr>" b] show ?thesis
    by (auto simp: iss_execute_def Let_def d_def [symmetric] s1_def [symmetric] e1_def [symmetric] x
        split: option.splits if_splits)
qed

lemma iss_fetch_execute_inv:
  assumes "iss_fetch_execute throws b a I = Inr I'" and "iss_inv b I"
  shows "iss_inv b I'"
proof -
  obtain raw s e where f: "bus_read throws a 4 (cpu I) (env I) = (raw, s, e)" using prod_cases3 by blast
  have "iss_inv b (I\<lparr>cpu := s, env := e\<rparr>)" if "e_stop e = None"
    using bus_read_inv [OF f] hw_frame_cpu_inv [OF bus_read_frame [OF f]] assms(2) that by (simp add: iss_inv_def)
  with assms(1) f iss_execute_inv show ?thesis
    by (auto simp: iss_fetch_execute_def split: option.splits)
qed

lemma iss_step_inv:
  assumes "iss_step throws b I = Inr I'" and "iss_inv b I"
  shows "iss_inv b I'"
proof -
  obtain r s e where t: "iss_translate throws b (pc (cpu I)) FETCH (priv (cpu I)) (cpu I) (env I) = (r, s, e)"
    using prod_cases3 by blast
  have i: "iss_inv b (I\<lparr>cpu := s, env := e\<rparr>)" if "e_stop e = None"
    using iss_translate_inv [OF t] hw_frame_cpu_inv [OF iss_translate_frame [OF t]] assms(2) that
    by (simp add: iss_inv_def)
  have trap: "iss_inv b (iss_trap c tv J)" if "iss_inv b J" for c tv J
    by (rule iss_trap_inv) (use that in \<open>simp_all add: iss_inv_def\<close>)
  show ?thesis
    using assms i trap iss_fetch_execute_inv
    by (auto simp: iss_step_def Let_def t split: if_splits option.splits)
qed

section \<open>The other processes\<close>

lemma put_soc_inv:
  assumes "iss_ok P b I" and "soc_inv x" and "hw_frame (cpu I) (fst x)"
  shows "iss_ok P b (put_soc x I)"
  using assms hw_frame_cpu_inv [OF assms(3)]
  by (cases x) (simp add: iss_inv_def put_soc_def env_inv_def dmi_ok_def)

lemma operation_frames:
  "hw_frame (fst x) (fst (vp_clint_tick x))" "hw_frame (fst x) (fst (vp_timer_tick x))"
  "hw_frame (fst x) (fst (vp_push_rx b x))" "hw_frame (fst x) (fst (vp_set_input w x))"
  using fold_frame [OF on_clint_irq_frame] fold_frame [OF raise_irq_frame] fold_frame [OF on_uart_frame]
  by (cases x; simp add: vp_clint_tick_def vp_timer_tick_def vp_push_rx_def vp_set_input_def split_def Let_def;
      fastforce)+

lemma fold_raise_frame: "hw_frame s (fst x) \<Longrightarrow> hw_frame s (fst (fold (raise_irq src) evs x))"
  using fold_frame [where cb = "raise_irq src", OF raise_irq_frame] hw_frame_trans by blast

lemma vp_dma_turn_frame:
  assumes "vp_dma_turn throws junk x = Inr x'"
  shows "hw_frame (fst x) (fst x')"
proof -
  from assms obtain y evs where t: "dma_thread_turn (vp_transport throws) junk vp_get_dma vp_put_dma x = Inr (y, evs)"
    and x': "x' = fold (raise_irq IRQ_DMA) evs y"
    by (auto simp: vp_dma_turn_def split: sum.splits)
  have "hw_frame (fst x) (fst y)"
    by (rule dma_turn_keeps [where P = "\<lambda>y. hw_frame (fst x) (fst y)", OF t])
      (auto simp: vp_put_dma_def split: prod.splits dest: vp_transport_frame intro: hw_frame_trans)
  then show ?thesis unfolding x' by (rule fold_raise_frame)
qed

lemma vp_sd_turn_frame:
  assumes "vp_sd_turn throws x = Inr x'"
  shows "hw_frame (fst x) (fst x')"
proof -
  from assms obtain y evs where t: "sd_thread_turn (vp_transport throws) vp_get_sd vp_put_sd x = Inr (y, evs)"
    and x': "x' = fold (raise_irq IRQ_SD) evs y"
    by (auto simp: vp_sd_turn_def split: sum.splits)
  have "hw_frame (fst x) (fst y)"
    by (rule sd_turn_keeps [where P = "\<lambda>y. hw_frame (fst x) (fst y)", OF t])
      (auto simp: vp_put_sd_def split: prod.splits dest: vp_transport_frame intro: hw_frame_trans)
  then show ?thesis unfolding x' by (rule fold_raise_frame)
qed

text \<open>
  Without the condition on the program counter the loop keeps the invariant too: at an odd
  address it takes the misaligned-fetch trap.
\<close>

lemma iss_step_well:
  assumes "iss_step throws b I = Inr I'" and "iss_well b I"
  shows "iss_well b I'"
proof (cases "even (pc (cpu I))")
  case True
  with assms iss_step_inv [of throws b I I'] show ?thesis by (simp add: iss_ok_def)
next
  case False
  then have "pc (cpu I) AND 1 \<noteq> 0" by (simp add: and_one_eq odd_iff_mod_2_eq_one)
  moreover have "iss_well b (iss_trap c tv I)" for c tv
    using iss_trap_inv [of I b c tv] assms(2) by (simp add: iss_ok_def)
  ultimately show ?thesis using assms by (auto simp: iss_step_def Let_def split: if_splits)
qed

lemma vp_step_keeps:
  assumes "vp_step throws b I I'" and "iss_ok P b I"
    and step: "iss_step throws b I = Inr I' \<Longrightarrow> iss_ok P b I'"
  shows "iss_ok P b I'"
proof -
  have soc: "soc_inv (get_soc I)" "fst (get_soc I) = cpu I"
    using assms(2) by (simp_all add: iss_inv_def env_inv_def get_soc_def)
  note put = put_soc_inv [OF assms(2)]
  from assms(1) show ?thesis
  proof cases
    case core
    with step show ?thesis by blast
  next
    case clint
    then show ?thesis using put [OF vp_clint_tick_inv [OF soc(1)]] operation_frames(1) [of "get_soc I"] soc(2) by simp
  next
    case timer
    then show ?thesis using put [OF vp_timer_tick_inv [OF soc(1)]] operation_frames(2) [of "get_soc I"] soc(2) by simp
  next
    case (rx c)
    then show ?thesis using put [OF vp_push_rx_inv [OF soc(1)]] operation_frames(3) [of "get_soc I"] soc(2) by simp
  next
    case (pins w)
    then show ?thesis using put [OF vp_set_input_inv [OF soc(1)]] operation_frames(4) [of "get_soc I"] soc(2) by simp
  next
    case (dma junk x)
    then show ?thesis using put [OF vp_dma_turn_inv [OF dma(3) soc(1)]] vp_dma_turn_frame [OF dma(3)] soc(2) by simp
  next
    case (sd x)
    then show ?thesis using put [OF vp_sd_turn_inv [OF sd(3) soc(1)]] vp_sd_turn_frame [OF sd(3)] soc(2) by simp
  qed (use assms(2) in \<open>simp_all add: iss_inv_def iss_halt_def iss_resume_def iss_single_step_def\<close>)
qed

lemma vp_step_inv:
  "vp_step throws b I I' \<Longrightarrow> iss_inv b I \<Longrightarrow> iss_inv b I'"
  "vp_step throws b I I' \<Longrightarrow> iss_well b I \<Longrightarrow> iss_well b I'"
  by (blast intro: vp_step_keeps iss_step_inv iss_step_well)+

lemma iss_start_inv:
  assumes "GamingCPU_VP elf sd = Inr x"
  shows "iss_inv b (iss_start RAM_BASE x)"
proof -
  obtain s pl where x: "x = (s, pl)" by (cases x)
  from vp_boot_inv [OF assms [unfolded x]] obtain v where i: "soc_inv (s, pl)" "s = CPUState_init\<lparr>pc := v\<rparr>" by blast
  have "cpu_inv (s\<lparr>pc := RAM_BASE\<rparr>)" unfolding i(2) using cpu_inv_init by simp
  moreover have "soc_inv (s\<lparr>pc := RAM_BASE\<rparr>, pl)" using i(1) by (simp add: soc_inv_def lines_exact_def)
  ultimately show ?thesis
    by (simp add: x iss_start_def iss_inv_def env_inv_def Env_new_def dmi_ok_def tlb_inv_def)
qed

lemma vp_reachable_iss_inv: "vp_reachable throws b I \<Longrightarrow> iss_inv b I"
  by (induction rule: vp_reachable.induct) (auto intro: iss_start_inv vp_step_inv)

section \<open>Properties\<close>

text \<open>
  C19. In every state the platform can reach from boot, under any interleaving of instructions,
  clock ticks, DMA and SD transfers, host inputs and debugger control: the hart is well formed
  (32 registers, legal privilege, CSRs within their WARL ranges, aligned reservation), the program
  counter is even, so the misaligned-fetch branch of the loop is dead, the device invariants hold,
  the machine timer, software and external interrupt lines of the hart are exactly what the CLINT
  and PLIC registers say, and the TLB holds at most 64 entries, provided that the entry the hash
  map yields for eviction is one of its own.
\<close>

theorem vp_reachable_invariant:
  assumes "vp_reachable throws tlb_begin I" and "begin_ok tlb_begin"
  shows "cpu_inv (cpu I) \<and> pc (cpu I) AND 1 = 0 \<and> plat_inv (e_plat (env I)) \<and>
    lines_exact (cpu I) (e_plat (env I)) \<and> length (e_tlb (env I)) \<le> 64"
proof -
  have "pc (cpu I) AND 1 = 0" if "even (pc (cpu I))" using that by (simp add: and_one_eq even_iff_mod_2_eq_zero)
  with vp_reachable_iss_inv [OF assms(1)] assms(2) show ?thesis
    by (simp add: iss_inv_def env_inv_def soc_inv_def tlb_inv_def)
qed

theorem vp_reachable_invariant_witness:
  "\<exists>I. vp_reachable True (\<lambda>t. fst (hd t)) I \<and> mtime (clint (e_plat (env I))) = 1 \<and> cpu_inv (cpu I) \<and>
    lines_exact (cpu I) (e_plat (env I))"
proof -
  let ?b = "\<lambda>t :: tlb. fst (hd t)"
  let ?I = "iss_start RAM_BASE (CPUState_init, Plat_new)"
  have "GamingCPU_VP None None = Inr (CPUState_init, Plat_new)" by (simp add: GamingCPU_VP_def attach_card_def)
  from vp_reachable.step [OF vp_reachable.boot [OF this] vp_step.clint]
  have r: "vp_reachable True ?b (put_soc (vp_clint_tick (get_soc ?I)) ?I)" .
  have b: "begin_ok ?b" by (auto simp: begin_ok_def)
  have "mtime (clint (e_plat (env (put_soc (vp_clint_tick (get_soc ?I)) ?I)))) = 1"
    by (simp add: put_soc_def get_soc_def vp_clint_tick_def iss_start_def Env_new_def clint_tick_def
        update_timer_irq_def on_clint_irq_def Plat_new_def CLINT_new_def Let_def)
  with vp_reachable_invariant [OF r b] r show ?thesis by blast
qed

text \<open>
  C22. The processor starts on the program of the file. If the constructor accepts an ELF file whose
  loadable segments lie in RAM by their physical addresses, then RAM holds at the first fetch the
  image of the file (the bytes of each segment, then zeros up to its memory size, later segments
  over earlier ones) over its initial zeros, and the simulator is well formed. The constructor
  stores the entry point in the program counter, but the first fetch is from the start of RAM.
\<close>

theorem vp_start_image:
  assumes "GamingCPU_VP (Some (Some data)) sd = Inr x"
    and "\<forall>ph \<in> set (elf_headers data). placeable ram_mapped ph"
  shows "ram_byte (get_soc (iss_start RAM_BASE x)) = elf_image data (ram_byte (CPUState_init, Plat_new)) \<and>
    iss_inv b (iss_start RAM_BASE x) \<and> pc (fst x) = e_entry (read_ehdr data) \<and>
    pc (cpu (iss_start RAM_BASE x)) = RAM_BASE"
proof -
  obtain s pl where x: "x = (s, pl)" by (cases x)
  have "ram_byte (get_soc (iss_start RAM_BASE x)) = ram_byte (s, pl)"
    by (simp add: x get_soc_def iss_start_def Env_new_def ram_byte_def fun_eq_iff)
  moreover have "pc (cpu (iss_start RAM_BASE x)) = RAM_BASE" by (simp add: x iss_start_def)
  ultimately show ?thesis
    using boot_image [OF assms(1) [unfolded x] assms(2)] iss_start_inv [OF assms(1)] by (simp add: x)
qed

theorem vp_start_image_witness:
  "\<exists>x. GamingCPU_VP (Some (Some example_elf)) None = Inr x \<and>
    ram_byte (get_soc (iss_start RAM_BASE x)) 0x80000000 = 0x13 \<and> pc (cpu (iss_start RAM_BASE x)) = 0x80000000"
proof -
  have "\<exists>x. GamingCPU_VP (Some (Some example_elf)) None = Inr x"
    by (simp add: GamingCPU_VP_def load_elf_def example_elf_loads)
  then obtain x where l: "GamingCPU_VP (Some (Some example_elf)) None = Inr x" ..
  have "\<forall>ph \<in> set (elf_headers example_elf). placeable ram_mapped ph"
    by (simp add: example_elf_headers example_elf_fields placeable_def ram_mapped_def)
  from vp_start_image [OF l this, of "\<lambda>t. fst (hd t)"]
  have "ram_byte (get_soc (iss_start RAM_BASE x)) 0x80000000 = example_elf ! 84" "pc (cpu (iss_start RAM_BASE x)) = 0x80000000"
    by (simp_all add: elf_image_def example_elf_headers example_elf_fields segment_image_def Let_def)
  moreover have "example_elf ! 84 = 0x13" by code_simp
  ultimately show ?thesis using l by auto
qed

section \<open>Entering a higher privilege\<close>

text \<open>What the hart looks like after a trap taken at \<open>s\<close>.\<close>

definition trap_entry :: "CPUState \<Rightarrow> CPUState \<Rightarrow> bool" where
  "trap_entry s s' =
     (priv s' = PRV_M \<and> mepc (csr s') = pc s \<and>
        pc s' = trap_vector (mtvec (csr s')) (mcause (csr s') AND INT_BIT \<noteq> 0) (mcause (csr s') AND 0x7FFFFFFF) \<or>
      priv s' = PRV_S \<and> sepc (csr s') = pc s \<and>
        pc s' = trap_vector (stvec (csr s')) (scause (csr s') AND INT_BIT \<noteq> 0) (scause (csr s') AND 0x7FFFFFFF))"

lemma even_clear: "even w \<Longrightarrow> w AND NOT 1 = w" for w :: u32
  by (rule bit_word_eqI) (auto simp: bit_simps bit_0 intro: Nat.gr0I)

lemma take_trap_entry:
  assumes "even (pc s)" and "s' = take_trap c tv s"
  shows "trap_entry s (s'\<lparr>pc := next_pc s'\<rparr>)" and "mtvec (csr s') = mtvec (csr s)"
  using even_clear [OF assms(1)]
  by (auto simp: trap_entry_def assms(2) take_trap_def Let_def)

text \<open>The hart \<open>s'\<close> has not moved from \<open>s\<close>: same instruction, no more privilege, and below
  machine mode the same machine trap vector.\<close>

definition at_rest :: "CPUState \<Rightarrow> CPUState \<Rightarrow> bool" where
  "at_rest s s' = (pc s' = pc s \<and> priv s' \<le> priv s \<and> (priv s < PRV_M \<longrightarrow> mtvec (csr s') = mtvec (csr s)))"

definition rises_by_trap :: "CPUState \<Rightarrow> CPUState \<Rightarrow> bool" where
  "rises_by_trap s s' =
     (priv s < priv s' \<longrightarrow> trap_entry s s' \<and> mtvec (csr s') = mtvec (csr s))"

lemma mtvec_machine_state: "mtvec (machine_state s) = mtvec (csr s)"
  by (simp add: machine_state_def machine_view_def)

lemma at_rest_arch_step: "arch_step d s s' \<Longrightarrow> cpu_inv s \<Longrightarrow> at_rest s s'"
  unfolding arch_step_def at_rest_def by (metis mtvec_machine_state)

lemma at_rest_hw_frame: "hw_frame s s' \<Longrightarrow> at_rest s s'"
  by (elim hw_frameE) (simp add: at_rest_def)

lemma at_rest_trans: "at_rest s s' \<Longrightarrow> at_rest s' s'' \<Longrightarrow> at_rest s s''"
  by (auto simp: at_rest_def)

lemma at_rest_rises: "at_rest s s' \<Longrightarrow> rises_by_trap s (s'\<lparr>pc := v\<rparr>)"
  by (auto simp: at_rest_def rises_by_trap_def)

lemma priv_le_M: "cpu_inv s \<Longrightarrow> priv s \<le> PRV_M"
  by (auto simp: cpu_inv_def)

lemma trap_rises:
  assumes "at_rest s s'" and "even (pc s)" and "cpu_inv s'"
  shows "rises_by_trap s ((take_trap c tv s')\<lparr>pc := next_pc (take_trap c tv s')\<rparr>)"
proof -
  let ?t = "take_trap c tv s'"
  have p: "pc s' = pc s" using assms(1) by (simp add: at_rest_def)
  with assms(2) take_trap_entry [of s' ?t c tv]
  have "trap_entry s (?t\<lparr>pc := next_pc ?t\<rparr>)" "mtvec (csr ?t) = mtvec (csr s')" by (simp_all add: trap_entry_def)
  moreover have "priv ?t \<le> PRV_M" using assms(3) by (intro priv_le_M) simp
  ultimately show ?thesis using assms(1) by (auto simp: rises_by_trap_def at_rest_def)
qed

lemma iss_retire_rises:
  assumes "at_rest s (cpu I)" and "even (pc s)" and "cpu_inv (cpu I)"
  shows "rises_by_trap s (cpu (iss_retire r I))"
proof -
  let ?s = "(cpu I)\<lparr>csr := inc_minstret (inc_mcycle (csr (cpu I)))\<rparr>"
  have m: "mtvec (inc_mcycle c) = mtvec c" "mtvec (inc_minstret c) = mtvec c" for c
    by (simp_all add: inc_mcycle_def inc_minstret_def Let_def)
  have s: "at_rest s ?s" "cpu_inv ?s" using assms(1,3) by (simp_all add: at_rest_def m cpu_inv_def)
  have "rises_by_trap s ?s" using s(1) by (auto simp: at_rest_def rises_by_trap_def)
  with trap_rises [OF s(1) assms(2) s(2)] at_rest_rises [OF s(1)] show ?thesis
    by (simp add: iss_retire_def Let_def)
qed

lemma iss_fetch_execute_rises:
  assumes "iss_fetch_execute throws b a I = Inr I'" and "at_rest s (cpu I)" and "even (pc s)" and "cpu_inv (cpu I)"
  shows "rises_by_trap s (cpu I')"
proof -
  obtain raw s1 e1 where f: "bus_read throws a 4 (cpu I) (env I) = (raw, s1, e1)" using prod_cases3 by blast
  define d where "d = decode raw"
  define s2 where "s2 = s1\<lparr>next_pc := pc s1 + instr_len d\<rparr>"
  obtain r s3 e3 where x: "execute (iss_mem throws b) d s2 (e1\<lparr>mem_fault := False\<rparr>) = (r, s3, e3)"
    using prod_cases3 by blast
  have 1: "at_rest s s1" "cpu_inv s1"
    using at_rest_trans [OF assms(2) at_rest_hw_frame [OF bus_read_frame [OF f]]]
      hw_frame_cpu_inv [OF bus_read_frame [OF f] assms(4)] by auto
  have 2: "at_rest s s2" "cpu_inv s2" using 1 by (simp_all add: s2_def at_rest_def)
  have 3: "at_rest s s3" "cpu_inv s3"
    using at_rest_trans [OF 2(1) at_rest_arch_step [OF iss.execute_arch_step [OF x] 2(2)]]
      iss.execute_arch_step [OF x] 2(2) by (auto simp: arch_step_def)
  have "rises_by_trap s (cpu (iss_trap c tv (I\<lparr>cpu := s3, env := e\<rparr>)))" for c tv e
    using trap_rises [OF 3(1) assms(3) 3(2)] by (simp add: iss_trap_def Let_def)
  with assms(1) f iss_retire_rises [of s "I\<lparr>cpu := s3, env := e3\<rparr>"] 3 assms(3) show ?thesis
    by (auto simp: iss_fetch_execute_def iss_execute_def Let_def d_def [symmetric] s2_def [symmetric] x
        split: option.splits if_splits)
qed

lemma iss_step_rises:
  assumes "iss_step throws b I = Inr I'" and "iss_inv b I"
  shows "rises_by_trap (cpu I) (cpu I')"
proof -
  let ?s = "cpu I"
  have i: "at_rest ?s ?s" "even (pc ?s)" "cpu_inv ?s" using assms(2) by (simp_all add: at_rest_def iss_inv_def)
  obtain r s1 e1 where t: "iss_translate throws b (pc ?s) FETCH (priv ?s) ?s (env I) = (r, s1, e1)"
    using prod_cases3 by blast
  have s1: "at_rest ?s s1" "cpu_inv s1"
    using at_rest_hw_frame [OF iss_translate_frame [OF t]] hw_frame_cpu_inv [OF iss_translate_frame [OF t] i(3)] by auto
  have trap: "rises_by_trap ?s (cpu (iss_trap c tv J))" if "at_rest ?s (cpu J)" "cpu_inv (cpu J)" for c tv J
    using trap_rises [OF that(1) i(2) that(2)] by (simp add: iss_trap_def Let_def)
  have fetch: "rises_by_trap ?s (cpu I')" if "iss_fetch_execute throws b a J = Inr I'" "at_rest ?s (cpu J)" "cpu_inv (cpu J)" for a J
    by (rule iss_fetch_execute_rises [OF that(1,2) i(2) that(3)])
  have rest: "rises_by_trap ?s ?s" by (simp add: rises_by_trap_def)
  show ?thesis
    using assms(1) i s1 trap [of I] trap [of "I\<lparr>cpu := s1, env := e1\<rparr>"] rest
      fetch [of "pc ?s" I] fetch [of "res_paddr r" "I\<lparr>cpu := s1, env := e1\<rparr>"]
    by (auto simp: iss_step_def Let_def t split: if_splits option.splits)
qed

text \<open>
  C20. Privilege rises only through a trap: if one iteration of the simulator's loop, from a state
  that satisfies the invariant of all reachable states, leaves the hart at a higher privilege than
  before, then the hart is at the trap vector of the mode it entered, with the address of the
  interrupted instruction saved in that mode's exception program counter, and the machine trap
  vector is the one machine mode had set.
\<close>

theorem privilege_rises_only_by_trap:
  assumes "iss_inv tlb_begin I" and "iss_step throws tlb_begin I = Inr I'" and "priv (cpu I) < priv (cpu I')"
  shows "trap_entry (cpu I) (cpu I') \<and> mtvec (csr (cpu I')) = mtvec (csr (cpu I))"
  using iss_step_rises [OF assms(2,1)] assms(3) by (simp add: rises_by_trap_def)

theorem privilege_rises_only_by_trap_witness:
  "let s = CPUState_init\<lparr>priv := PRV_U, pc := 0x80000000, csr := CSRFile_init\<lparr>mie := 0x80, hw_mip := 0x80, mtvec := 0x100\<rparr>\<rparr>
   in trap_entry s ((take_trap 0x80000007 0 s)\<lparr>pc := 0x100\<rparr>)"
proof -
  define s where "s = CPUState_init\<lparr>priv := PRV_U, pc := 0x80000000,
    csr := CSRFile_init\<lparr>mie := 0x80, hw_mip := 0x80, mtvec := 0x100\<rparr>\<rparr>"
  define pl where "pl = Plat_new\<lparr>clint := CLINT_new\<lparr>mtimecmp := 0\<rparr>\<rparr>"
  define I where "I = iss_start 0x80000000 (s, pl)"
  have "s\<lparr>pc := 0x80000000\<rparr> = s" by (simp add: s_def)
  then have c: "cpu I = s" "env I = Env_new pl" "\<not> halted I" by (simp_all add: I_def iss_start_def)
  have p: "even (pc s)" by (simp add: s_def)
  have l: "lines_exact s pl"
    by (simp add: lines_exact_def s_def pl_def Plat_new_def CLINT_new_def claimable_def PLIC_new_def bit_numeral_rec)
  have "cpu_inv s" unfolding s_def by code_simp
  moreover have "plat_inv pl" using plat_inv_new by (simp add: plat_inv_def pl_def)
  ultimately have i: "iss_inv (\<lambda>t. 0) I"
    using l p by (simp add: iss_inv_def c Env_new_def env_inv_def soc_inv_def dmi_ok_def tlb_inv_def)
  have "check_pending_interrupts s = 0x80000007" unfolding s_def by code_simp
  then have step: "iss_step True (\<lambda>t. 0) I = Inr (iss_trap 0x80000007 0 I)"
    by (simp add: iss_step_def c Let_def)
  have t: "next_pc (take_trap 0x80000007 0 s) = 0x100" "priv (take_trap 0x80000007 0 s) = 3"
    unfolding s_def by code_simp+
  have cpu: "cpu (iss_trap 0x80000007 0 I) = (take_trap 0x80000007 0 s)\<lparr>pc := 0x100\<rparr>"
    by (simp add: iss_trap_def c t Let_def)
  have "priv (cpu I) < priv (cpu (iss_trap 0x80000007 0 I))" by (simp add: cpu c t) (simp add: s_def)
  from privilege_rises_only_by_trap [OF i step this] show ?thesis by (simp add: cpu c s_def Let_def)
qed

end
