(* ===== verification/ISS_DMI.thy ===== *)
theory ISS_DMI
  imports ISS
begin

text \<open>
  The direct-memory path of \<open>ISS::bus_read\<close> and \<open>ISS::bus_write\<close> against the bus: an access
  through the cached window returns and stores what the transaction would have. The exceptions
  are stated too: a store into the boot ROM through its read-only window, and an access that wraps
  around the end of the address space, which the 32-bit comparison lets through.
\<close>

unbundle bit_operations_syntax

section \<open>The window\<close>

definition access_width :: "nat \<Rightarrow> bool" where "access_width n = (n = 1 \<or> n = 2 \<or> n = 4)"

lemma dmi_window:
  assumes "dmi_ok e" and "dmi_hit a n e" and "access_width n" and "unat a + n \<le> 2 ^ 32"
  shows "(dmi_mem e = 0 \<and> dmi_lo e = 0 \<and> unat a + n \<le> 0x10000) \<or>
    (dmi_mem e = 1 \<and> dmi_lo e = 0x80000000 \<and> 0x80000000 \<le> unat a \<and> unat a + n \<le> 0x88000000)"
proof -
  have n: "0 < n" "n \<le> 4" "unat (of_nat n :: u32) = n" using assms(3) by (auto simp: access_width_def)
  obtain k where k: "n = Suc k" using n(1) by (cases n) auto
  have "unat (a + of_nat n - 1) = unat a + n - 1"
    using n(2) assms(4) by (simp add: k unat_word_ariths unat_of_nat)
  then have hi: "unat (ucast (a + of_nat n - 1) :: u64) = unat a + n - 1" by (simp only: unat_ucast_u64)
  show ?thesis
    using assms(1,2) n(1) hi by (auto simp: dmi_ok_def dmi_hit_def word_le_nat_alt unat_ucast_u64)
qed

text \<open>A bus transaction inside either memory, reduced to that memory.\<close>

lemma memory_transaction:
  assumes "i < 2" and "(base, sz) = vp_ranges ! i" and "unat base \<le> unat a" and "unat a + n \<le> unat base + unat sz"
    and "access_width n"
  shows "vp_transport throws (cpu_payload cmd a buf n) (s, pl) =
    (case vp_target throws (of_nat i) (cpu_payload cmd (a - base) buf n) (s, pl) of
       Inl e \<Rightarrow> Inl e
     | Inr (p', x') \<Rightarrow> Inr (p'\<lparr>p_addr := ucast a\<rparr>, x'))"
proof -
  have m: "cpu_payload cmd b buf n = (cpu_payload cmd 0 buf n)\<lparr>p_addr := ucast b\<rparr>" for b
    by (simp add: cpu_payload_def)
  have "0 < n" using assms(5) by (auto simp: access_width_def)
  then have "unat a < unat base + unat sz" using assms(4) by linarith
  then show ?thesis
    unfolding m [of a] m [of "a - base"] using assms(1-3) by (intro vp_route) auto
qed

lemma le_word_zeros: "le_word (xs @ replicate k 0) = le_word xs"
  by (induction xs) (simp_all, induction k, simp_all)

lemma le_word_take_padded:
  assumes "vec_read m a n (replicate 4 0) = Some v"
  shows "le_word (take n v) = le_word v"
proof -
  from assms have "v = take n (drop a m) @ replicate (4 - n) 0" "length (take n (drop a m)) = n"
    by (auto simp: vec_read_def split: if_splits)
  then show ?thesis using le_word_zeros by simp
qed

section \<open>Reads and writes\<close>

lemma offset_sum:
  assumes "unat base \<le> unat a" and "unat a + n \<le> unat base + unat sz" and "access_width n" and "sz \<le> 0x08000000"
  shows "unat (a - base :: u32) = unat a - unat base" and "\<not> a - base + of_nat n > (sz :: u32)"
proof -
  show o: "unat (a - base) = unat a - unat base" using assms(1) by (intro unat_sub) (simp add: word_le_nat_alt)
  have n: "unat (of_nat n :: u32) = n" using assms(3) by (auto simp: access_width_def)
  have z: "unat sz \<le> 0x08000000" using assms(4) by (simp add: word_le_nat_alt)
  have "unat (a - base + of_nat n) = unat a - unat base + n"
    using assms(1,2) z by (simp add: unat_word_ariths n o)
  then show "\<not> a - base + of_nat n > sz" using assms(1,2) by (simp add: word_less_nat_alt)
qed

lemma bus_memory_read:
  assumes "plat_inv pl" and "i < 2" and "(base, sz) = vp_ranges ! i" and "unat base \<le> unat a"
    and "unat a + n \<le> unat base + unat sz" and "access_width n"
  shows "\<exists>p. vp_transport throws (cpu_payload TLM_READ a (replicate 4 0) n) (s, pl) = Inr (p, s, pl) \<and>
    vec_read (m_data (if i = 0 then bootrom pl else ram pl)) (unat a - unat base) n (replicate 4 0) = Some (p_data p)"
proof -
  have i: "i = 0 \<and> base = 0 \<and> sz = 0x10000 \<or> i = 1 \<and> base = 0x80000000 \<and> sz = 0x08000000"
    using assms(2,3) by (auto simp: vp_ranges_def less_2_cases_iff)
  then have sz: "sz \<le> 0x08000000" by auto
  note o = offset_sum [OF assms(4,5,6) sz]
  have n: "unat (of_nat n :: u32) = n" "n \<le> 4" using assms(6) by (auto simp: access_width_def)
  have m: "m_size (bootrom pl) = 0x10000" "length (m_data (bootrom pl)) = 0x10000"
    "m_size (ram pl) = 0x08000000" "length (m_data (ram pl)) = 0x08000000"
    using assms(1) by (simp_all add: plat_inv_def memory_ok_def)
  have fits: "unat a - unat base + n \<le> unat sz" using assms(4,5) by linarith
  from i show ?thesis
  proof (elim disjE conjE)
    assume z: "i = 0" "base = 0" "sz = 0x10000"
    have "vec_read (m_data (bootrom pl)) (unat a) n (replicate 4 0) \<noteq> None"
      using fits m(2) n(2) by (simp add: vec_read_def z)
    then show ?thesis
      unfolding memory_transaction [OF assms(2,3,4,5,6)]
      using o m(1) n(1) by (auto simp: z vp_target_def lift_target_def bootrom_b_transport_def cpu_payload_def
          ucast_u64_u32 Let_def)
  next
    assume z: "i = 1" "base = 0x80000000" "sz = 0x08000000"
    have "vec_read (m_data (ram pl)) (unat a - 0x80000000) n (replicate 4 0) \<noteq> None"
      using fits m(4) n(2) by (simp add: vec_read_def z)
    then show ?thesis
      unfolding memory_transaction [OF assms(2,3,4,5,6)]
      using o m(3) n(1) by (auto simp: z vp_target_def lift_target_def memory_b_transport_def cpu_payload_def
          ucast_u64_u32 Let_def)
  qed
qed

lemma bus_ram_write:
  assumes "plat_inv pl" and "0x80000000 \<le> unat a" and "unat a + n \<le> 0x88000000" and "access_width n"
    and "vec_write (m_data (ram pl)) (unat a - 0x80000000) n buf = Some v"
  shows "\<exists>p. vp_transport throws (cpu_payload TLM_WRITE a buf n) (s, pl) =
    Inr (p, s, pl\<lparr>ram := (ram pl)\<lparr>m_data := v\<rparr>\<rparr>)"
proof -
  have r: "(RAM_BASE, RAM_SIZE) = vp_ranges ! 1" by (simp add: vp_ranges_def)
  have b: "unat RAM_BASE \<le> unat a" "unat a + n \<le> unat RAM_BASE + unat RAM_SIZE" using assms(2,3) by simp_all
  note o = offset_sum [OF b assms(4) order_refl]
  have n: "unat (of_nat n :: u32) = n" using assms(4) by (auto simp: access_width_def)
  have m: "m_size (ram pl) = 0x08000000" using assms(1) by (simp add: plat_inv_def memory_ok_def)
  show ?thesis
    unfolding memory_transaction [OF _ r b assms(4), simplified]
    using o m n assms(5) by (auto simp: vp_target_def lift_target_def memory_b_transport_def cpu_payload_def
        ucast_u64_u32 Let_def)
qed

lemma dmi_offset:
  assumes "lo = (0 :: u64) \<and> b = 0 \<or> lo = 0x80000000 \<and> b = 0x80000000" and "b \<le> unat a"
  shows "unat (ucast (a :: u32) - lo) = unat a - b"
proof -
  have "unat lo = b" using assms(1) by auto
  moreover have "lo \<le> ucast a" using assms by (auto simp: word_le_nat_alt unat_ucast_u64)
  ultimately show ?thesis by (simp add: unat_sub unat_ucast_u64)
qed

text \<open>The cached window at an address that one of the memories covers.\<close>

lemma dmi_window_range:
  assumes "dmi_ok e" and "dmi_hit a n e" and "access_width n" and "i < 2" and "(base, sz) = vp_ranges ! i"
    and "unat base \<le> unat a" and "unat a + n \<le> unat base + unat sz"
  shows "dmi_data e = m_data (if i = 0 then bootrom (e_plat e) else ram (e_plat e))"
    "unat (ucast a - dmi_lo e) = unat a - unat base" "dmi_mem e = of_nat i"
proof -
  have i: "i = 0 \<and> unat base = 0 \<and> unat sz = 0x10000 \<or> i = 1 \<and> unat base = 0x80000000 \<and> unat sz = 0x08000000"
    using assms(4,5) by (auto simp: vp_ranges_def less_2_cases_iff)
  have n: "0 < n" using assms(3) by (auto simp: access_width_def)
  have "unat a + n \<le> 2 ^ 32" using i assms(7) by auto
  from dmi_window [OF assms(1-3) this] i n assms(6,7)
  have w: "dmi_mem e = of_nat i" "dmi_lo e = 0 \<and> unat base = 0 \<or> dmi_lo e = 0x80000000 \<and> unat base = 0x80000000"
    by auto
  then show "dmi_mem e = of_nat i" "unat (ucast a - dmi_lo e) = unat a - unat base"
    using dmi_offset [OF _ assms(6)] by auto
  show "dmi_data e = m_data (if i = 0 then bootrom (e_plat e) else ram (e_plat e))"
    using w(1) i by (auto simp: dmi_data_def)
qed

lemma vec_write_padded:
  assumes "access_width n"
  shows "vec_write m a n (le_bytes 4 d) = vec_write m a n (take n (le_bytes 4 d) @ replicate (4 - n) 0)"
  using assms by (auto simp: vec_write_def access_width_def)

text \<open>An access to either memory, through the window or over the bus.\<close>

lemma bus_read_memory:
  assumes "env_inv b s e" and "e_stop e = None" and "access_width n" and "i < 2" and "(base, sz) = vp_ranges ! i"
    and "unat base \<le> unat a" and "unat a + n \<le> unat base + unat sz"
  shows "\<exists>v e0. vec_read (m_data (if i = 0 then bootrom (e_plat e) else ram (e_plat e))) (unat a - unat base) n (replicate 4 0)
      = Some v \<and> bus_read throws a n s e = (le_word v, s, e0) \<and> e_plat e0 = e_plat e \<and> e_stop e0 = None \<and>
    (dmi_hit a n e \<longrightarrow> e0 = e)"
proof -
  have inv: "dmi_ok e" "plat_inv (e_plat e)" using assms(1) by (simp_all add: env_inv_def soc_inv_def)
  obtain p where p: "vp_transport throws (cpu_payload TLM_READ a (replicate 4 0) n) (s, e_plat e) = Inr (p, s, e_plat e)"
    "vec_read (m_data (if i = 0 then bootrom (e_plat e) else ram (e_plat e))) (unat a - unat base) n (replicate 4 0)
      = Some (p_data p)"
    using bus_memory_read [OF inv(2) assms(4-7,3), of throws s] by blast
  show ?thesis
  proof (cases "dmi_hit a n e")
    case True
    note w = dmi_window_range [OF inv(1) True assms(3-7)]
    show ?thesis using True assms(2) p(2) by (simp add: bus_read_def w)
  next
    case False
    then show ?thesis using assms(2) p le_word_take_padded [OF p(2)] by (simp add: bus_read_def Let_def)
  qed
qed

lemma bus_write_memory:
  assumes "env_inv b s e" and "e_stop e = None" and "access_width n" and "0x80000000 \<le> unat a" and "unat a + n \<le> 0x88000000"
  shows "\<exists>v e0. vec_write (m_data (ram (e_plat e))) (unat a - 0x80000000) n (le_bytes 4 d) = Some v \<and>
    bus_write throws a d n s e = (s, e0) \<and> e_plat e0 = (e_plat e)\<lparr>ram := (ram (e_plat e))\<lparr>m_data := v\<rparr>\<rparr> \<and> e_stop e0 = None"
proof -
  have inv: "dmi_ok e" "plat_inv (e_plat e)" using assms(1) by (simp_all add: env_inv_def soc_inv_def)
  have "length (m_data (ram (e_plat e))) = 0x08000000" using inv(2) by (simp add: plat_inv_def memory_ok_def)
  moreover have "unat a - 0x80000000 + n \<le> 0x08000000" "n \<le> 4" using assms(3-5) by (auto simp: access_width_def)
  ultimately obtain v where v: "vec_write (m_data (ram (e_plat e))) (unat a - 0x80000000) n (le_bytes 4 d) = Some v"
    by (simp add: vec_write_def)
  have r: "(RAM_BASE, RAM_SIZE) = vp_ranges ! 1" by (simp add: vp_ranges_def)
  have b: "unat RAM_BASE \<le> unat a" "unat a + n \<le> unat RAM_BASE + unat RAM_SIZE" using assms(4,5) by simp_all
  show ?thesis
  proof (cases "dmi_hit a n e")
    case True
    note w = dmi_window_range [OF inv(1) True assms(3) _ r b, simplified]
    show ?thesis using True assms(2) v w by (simp add: bus_write_def put_dmi_data_def)
  next
    case False
    obtain q where "vp_transport throws (cpu_payload TLM_WRITE a (take n (le_bytes 4 d) @ replicate (4 - n) 0) n) (s, e_plat e) =
        Inr (q, s, (e_plat e)\<lparr>ram := (ram (e_plat e))\<lparr>m_data := v\<rparr>\<rparr>)"
      using bus_ram_write [OF inv(2) assms(4,5,3)] v vec_write_padded [OF assms(3)] by fastforce
    then show ?thesis using False assms(2) v by (simp add: bus_write_def)
  qed
qed

text \<open>The same accesses, byte by byte.\<close>

lemma bus_read_ram:
  assumes "env_inv b s e" and "e_stop e = None" and "access_width n" and "ram_mapped (unat a) n"
  shows "\<exists>e0. bus_read throws a n s e = (le_word (map (\<lambda>i. ram_byte (s, e_plat e) (unat a + i)) [0..<n]), s, e0) \<and>
    e_plat e0 = e_plat e \<and> e_stop e0 = None"
proof -
  have m: "0x80000000 \<le> unat a" "unat a + n \<le> 0x88000000" using assms(4) by (simp_all add: ram_mapped_def)
  have len: "length (m_data (ram (e_plat e))) = 0x08000000"
    using assms(1) by (simp add: env_inv_def soc_inv_def plat_inv_def memory_ok_def)
  obtain v e0 where v: "vec_read (m_data (ram (e_plat e))) (unat a - 0x80000000) n (replicate 4 0) = Some v"
    "bus_read throws a n s e = (le_word v, s, e0)" "e_plat e0 = e_plat e" "e_stop e0 = None"
    using bus_read_memory [OF assms(1-3), of 1 RAM_BASE RAM_SIZE a throws] m by (auto simp: vp_ranges_def)
  have "take n (drop (unat a - 0x80000000) (m_data (ram (e_plat e)))) = map (\<lambda>i. ram_byte (s, e_plat e) (unat a + i)) [0..<n]"
    using m len by (intro nth_equalityI) (auto simp: ram_byte_def)
  with v(1) have "le_word v = le_word (map (\<lambda>i. ram_byte (s, e_plat e) (unat a + i)) [0..<n])"
    by (auto simp: vec_read_def le_word_zeros split: if_splits)
  with v(2-4) show ?thesis by simp
qed

lemma bus_write_ram:
  assumes "env_inv b s e" and "e_stop e = None" and "access_width n" and "ram_mapped (unat a) n"
  shows "\<exists>e0. bus_write throws a d n s e = (s, e0) \<and> e_stop e0 = None \<and>
    (\<forall>x. ram_byte (s, e_plat e0) x =
      (if unat a \<le> x \<and> x < unat a + n then le_bytes 4 d ! (x - unat a) else ram_byte (s, e_plat e) x))"
proof -
  have m: "0x80000000 \<le> unat a" "unat a + n \<le> 0x88000000" using assms(4) by (simp_all add: ram_mapped_def)
  have len: "length (m_data (ram (e_plat e))) = 0x08000000"
    using assms(1) by (simp add: env_inv_def soc_inv_def plat_inv_def memory_ok_def)
  obtain v e0 where v: "vec_write (m_data (ram (e_plat e))) (unat a - 0x80000000) n (le_bytes 4 d) = Some v"
    "bus_write throws a d n s e = (s, e0)" "e_plat e0 = (e_plat e)\<lparr>ram := (ram (e_plat e))\<lparr>m_data := v\<rparr>\<rparr>" "e_stop e0 = None"
    using bus_write_memory [OF assms(1-3) m, of d throws] by blast
  have "ram_byte (s, e_plat e0) x =
      (if unat a \<le> x \<and> x < unat a + n then le_bytes 4 d ! (x - unat a) else ram_byte (s, e_plat e) x)" for x
    using nth_vec_write [OF v(1), of "x - 0x80000000"] m len by (auto simp: ram_byte_def v(3))
  with v(2,4) show ?thesis by blast
qed

text \<open>
  C21. The direct-memory path is transparent: whenever an access of 1, 2 or 4 bytes that does not
  wrap around the address space goes through the cached window, a read returns the value the bus
  transaction would return, leaving hart and platform as they are, and a write through a window
  into RAM leaves exactly the memory the bus transaction would leave. No such access is undefined
  behaviour of the host.
\<close>

theorem dmi_transparent:
  assumes "env_inv b s e" and "e_stop e = None" and "access_width n" and "unat a + n \<le> 2 ^ 32" and "dmi_hit a n e"
  shows "(\<exists>e0. bus_read throws a n s e = (fst (bus_read throws a n s (e\<lparr>dmi_valid := False\<rparr>)), s, e) \<and>
      snd (bus_read throws a n s (e\<lparr>dmi_valid := False\<rparr>)) = (s, e0) \<and> e_plat e0 = e_plat e \<and> e_stop e0 = None) \<and>
    (dmi_mem e = 1 \<longrightarrow>
      (\<exists>e1 e2. bus_write throws a d n s e = (s, e1) \<and> bus_write throws a d n s (e\<lparr>dmi_valid := False\<rparr>) = (s, e2) \<and>
        e_plat e1 = e_plat e2 \<and> e_stop e1 = None \<and> e_stop e2 = None))"
proof -
  let ?e0 = "e\<lparr>dmi_valid := False\<rparr>"
  have inv: "dmi_ok e" using assms(1) by (simp add: env_inv_def)
  have same: "e_plat ?e0 = e_plat e" by simp
  have off: "env_inv b s ?e0" "e_stop ?e0 = None" using assms(1,2) by (simp_all add: env_inv_def dmi_ok_def)
  from dmi_window [OF inv assms(5,3,4)] obtain i base sz where
    w: "i < 2" "(base, sz) = vp_ranges ! i" "unat base \<le> unat a" "unat a + n \<le> unat base + unat sz"
  proof (elim disjE conjE)
    assume "unat a + n \<le> 0x10000"
    then show thesis by (intro that [of 0 BOOTROM_BASE BOOTROM_SIZE]) (simp_all add: vp_ranges_def)
  next
    assume "0x80000000 \<le> unat a" "unat a + n \<le> 0x88000000"
    then show thesis by (intro that [of 1 RAM_BASE RAM_SIZE]) (simp_all add: vp_ranges_def)
  qed
  have "\<exists>e0. bus_read throws a n s e = (fst (bus_read throws a n s ?e0), s, e) \<and>
      snd (bus_read throws a n s ?e0) = (s, e0) \<and> e_plat e0 = e_plat e \<and> e_stop e0 = None"
    using bus_read_memory [OF assms(1-3) w, of throws] bus_read_memory [OF off assms(3) w, of throws, unfolded same] assms(5)
    by auto
  moreover have "\<exists>e1 e2. bus_write throws a d n s e = (s, e1) \<and> bus_write throws a d n s ?e0 = (s, e2) \<and>
      e_plat e1 = e_plat e2 \<and> e_stop e1 = None \<and> e_stop e2 = None" if "dmi_mem e = 1"
  proof -
    from dmi_window [OF inv assms(5,3,4)] that have r: "0x80000000 \<le> unat a" "unat a + n \<le> 0x88000000" by auto
    show ?thesis
      using bus_write_memory [OF assms(1-3) r, of d throws] bus_write_memory [OF off assms(3) r, of d throws] by auto
  qed
  ultimately show ?thesis by blast
qed

text \<open>A hart with the RAM or the boot ROM window cached.\<close>

definition ram_window :: Env where
  "ram_window = (Env_new Plat_new)\<lparr>dmi_valid := True, dmi_mem := 1, dmi_lo := 0x80000000, dmi_hi := 0x87FFFFFF\<rparr>"

definition rom_window :: Env where
  "rom_window = (Env_new Plat_new)\<lparr>dmi_valid := True, dmi_mem := 0, dmi_lo := 0, dmi_hi := 0xFFFF\<rparr>"

lemma window_inv: "env_inv b CPUState_init ram_window" "env_inv b CPUState_init rom_window"
  using soc_inv_new by (simp_all add: env_inv_def ram_window_def rom_window_def Env_new_def dmi_ok_def tlb_inv_def)

theorem dmi_transparent_witness:
  "\<exists>e1 e2. bus_write True 0x80000000 0xDEADBEEF 4 CPUState_init ram_window = (CPUState_init, e1) \<and>
    bus_write True 0x80000000 0xDEADBEEF 4 CPUState_init (ram_window\<lparr>dmi_valid := False\<rparr>) = (CPUState_init, e2) \<and>
    e_plat e1 = e_plat e2"
proof -
  have h: "e_stop ram_window = None" "access_width 4" "unat (0x80000000 :: u32) + 4 \<le> 2 ^ 32" "dmi_hit 0x80000000 4 ram_window"
    "dmi_mem ram_window = 1"
    by (simp_all add: ram_window_def Env_new_def access_width_def dmi_hit_def)
  from dmi_transparent [OF window_inv(1) h(1-4), of True "0xDEADBEEF"] h(5) show ?thesis by blast
qed

section \<open>Where the window leaks\<close>

text \<open>
  The boot ROM is writable through its window: a store of 1, 2 or 4 bytes to a boot ROM
  address, while the boot ROM is the cached window, stores the bytes into the ROM, although the
  device grants that window for reading only and refuses the same store on the bus.
\<close>

theorem dmi_store_changes_bootrom:
  assumes "env_inv b s e" and "e_stop e = None" and "access_width n" and "unat a + n \<le> 2 ^ 32" and "dmi_hit a n e"
    and "dmi_mem e = 0"
  shows "\<exists>e' v. bus_write throws a d n s e = (s, e') \<and> e_stop e' = None \<and>
    vec_write (m_data (bootrom (e_plat e))) (unat a) n (le_bytes 4 d) = Some v \<and> m_data (bootrom (e_plat e')) = v \<and>
    dmi_write_allowed (bootrom_get_direct_mem_ptr (bootrom (e_plat e))) = False"
proof -
  have inv: "dmi_ok e" "plat_inv (e_plat e)" using assms(1) by (simp_all add: env_inv_def soc_inv_def)
  from dmi_window [OF inv(1) assms(5,3,4)] assms(6) have w: "dmi_lo e = 0" "unat a + n \<le> 0x10000" by auto
  have o: "unat (ucast a - dmi_lo e) = unat a" using dmi_offset [of "dmi_lo e" 0 a] w(1) by simp
  have "length (m_data (bootrom (e_plat e))) = 0x10000" using inv(2) by (simp add: plat_inv_def memory_ok_def)
  then obtain v where v: "vec_write (m_data (bootrom (e_plat e))) (unat a) n (le_bytes 4 d) = Some v"
    using w(2) assms(3) by (auto simp: vec_write_def access_width_def)
  then have "bus_write throws a d n s e = (s, put_dmi_data v e)"
    using assms(2,5,6) o by (simp add: bus_write_def dmi_data_def)
  with v assms(2,6) show ?thesis by (simp add: put_dmi_data_def bootrom_get_direct_mem_ptr_def)
qed

theorem dmi_store_changes_bootrom_witness:
  "\<exists>e' v. bus_write True 0 7 1 CPUState_init rom_window = (CPUState_init, e') \<and>
    vec_write (m_data (bootrom Plat_new)) 0 1 (le_bytes 4 7) = Some v \<and> m_data (bootrom (e_plat e')) = v"
proof -
  have h: "e_stop rom_window = None" "access_width 1" "unat (0 :: u32) + 1 \<le> 2 ^ 32" "dmi_hit 0 1 rom_window"
    "dmi_mem rom_window = 0"
    by (simp_all add: rom_window_def Env_new_def access_width_def dmi_hit_def)
  have p: "e_plat rom_window = Plat_new" by (simp add: rom_window_def Env_new_def)
  from dmi_store_changes_bootrom [OF window_inv(2) h, of True 7] show ?thesis by (auto simp: p)
qed

text \<open>
  A fetch at the last half-word of the address space: the end of the access wraps to 1, which is
  below the end of the RAM window, so the copy starts 2 GB beyond the start of RAM.
\<close>

lemma dmi_wraps:
  "bus_read throws 0xFFFFFFFE 4 CPUState_init ram_window = (0, CPUState_init, ram_window\<lparr>e_stop := Some HOST_UB\<rparr>)"
proof -
  have "length (m_data (ram (e_plat ram_window))) = 0x08000000"
    by (simp add: ram_window_def Env_new_def Plat_new_def Memory_new_def)
  then have "vec_read (dmi_data ram_window) 0x7FFFFFFE 4 (replicate 4 0) = None"
    by (simp add: vec_read_def dmi_data_def ram_window_def)
  moreover have "e_stop ram_window = None" "dmi_hit 0xFFFFFFFE 4 ram_window" "dmi_lo ram_window = 0x80000000"
    by (simp_all add: ram_window_def Env_new_def dmi_hit_def)
  ultimately show ?thesis by (simp add: bus_read_def)
qed

end
