(* ===== verification/GDB_Server.thy ===== *)
theory GDB_Server
  imports GDB_Codec ISS_Run ISS_DMI
begin

text \<open>
  Model of the command side of \<open>src/src/debug/gdb_server.cpp\<close>: the handlers of the remote
  protocol and the server's thread.

  A handler returns the server and the simulator, or the error that ends the simulation: an
  exception of the text functions, or a bus access that stops. \<open>gdb_serve\<close> is one iteration of
  the loop in \<open>handle_client\<close>. The thread is a state machine on top of it. While it serves, it
  blocks the whole simulation, since it reads the socket without giving control back to the
  kernel; only while it waits for \<open>halted_event\<close> do the other processes run. That event is
  notified when the processor's loop finds itself halted.
\<close>

unbundle bit_operations_syntax

section \<open>Registers\<close>

definition register_reply :: "CPUState \<Rightarrow> string" where
  "register_reply s = concat (map (\<lambda>i. to_hex32_le (regs s ! i)) [0..<32]) @ to_hex32_le (pc s)"

definition handle_read_regs :: "GDBServer \<Rightarrow> ISS \<Rightarrow> GDBServer" where
  "handle_read_regs g I = send_packet (register_reply (cpu I)) g"

fun write_regs_loop :: "string \<Rightarrow> nat list \<Rightarrow> u32 list \<Rightarrow> gdb_error + u32 list" where
  "write_regs_loop data [] rs = Inr rs"
| "write_regs_loop data (i # is) rs =
     (if i * 8 + 8 \<le> length data
      then (case from_hex32_le data (i * 8) of
              Inl x \<Rightarrow> Inl x
            | Inr v \<Rightarrow> write_regs_loop data is (rs[i := v]))
      else Inr rs)"

definition handle_write_regs :: "string \<Rightarrow> GDBServer \<Rightarrow> ISS \<Rightarrow> gdb_error + (GDBServer \<times> ISS)" where
  "handle_write_regs data g I =
     (case write_regs_loop data [0..<32] (regs (cpu I)) of
        Inl x \<Rightarrow> Inl x
      | Inr rs \<Rightarrow>
          (case (if length data \<ge> 33 * 8 then from_hex32_le data (32 * 8) else Inr (pc (cpu I))) of
             Inl x \<Rightarrow> Inl x
           | Inr p \<Rightarrow> Inr (send_packet ''OK'' g, I\<lparr>cpu := (cpu I)\<lparr>regs := rs[0 := 0], pc := p\<rparr>\<rparr>)))"

section \<open>Memory\<close>

definition settle :: "GDBServer \<Rightarrow> ISS \<Rightarrow> CPUState \<Rightarrow> Env \<Rightarrow> gdb_error + (GDBServer \<times> ISS)" where
  "settle g I s e = (case e_stop e of Some x \<Rightarrow> Inl (SIM_STOP x) | None \<Rightarrow> Inr (g, I\<lparr>cpu := s, env := e\<rparr>))"

fun read_mem_loop :: "bool \<Rightarrow> u32 \<Rightarrow> nat \<Rightarrow> CPUState \<Rightarrow> Env \<Rightarrow> string \<times> CPUState \<times> Env" where
  "read_mem_loop throws a 0 s e = ([], s, e)"
| "read_mem_loop throws a (Suc n) s e =
     (let (v, s1, e1) = bus_read throws a 1 s e;
          (t, s2, e2) = read_mem_loop throws (a + 1) n s1 e1
      in (hex2 (ucast (v AND 0xFF)) @ t, s2, e2))"

definition handle_read_mem :: "bool \<Rightarrow> string \<Rightarrow> GDBServer \<Rightarrow> ISS \<Rightarrow> gdb_error + (GDBServer \<times> ISS)" where
  "handle_read_mem throws data g I =
     (case find_from (CHR '','') 0 data of
        None \<Rightarrow> Inr (send_packet ''E01'' g, I)
      | Some comma \<Rightarrow>
          (case stoul32 (take comma data) of Inl x \<Rightarrow> Inl x | Inr addr \<Rightarrow>
          (case stoul32 (drop (comma + 1) data) of Inl x \<Rightarrow> Inl x | Inr len \<Rightarrow>
             (let (t, s, e) = read_mem_loop throws addr (unat len) (cpu I) (env I)
              in settle (send_packet t g) I s e))))"

fun write_mem_loop :: "bool \<Rightarrow> u32 \<Rightarrow> string \<Rightarrow> CPUState \<Rightarrow> Env \<Rightarrow> gdb_error + (CPUState \<times> Env)" where
  "write_mem_loop throws a (c # d # hex) s e =
     (case stoul16 [c, d] of
        Inl x \<Rightarrow> Inl x
      | Inr v \<Rightarrow>
          (let (s1, e1) = bus_write throws a (ucast (ucast v :: u8)) 1 s e
           in case e_stop e1 of
                Some x \<Rightarrow> Inl (SIM_STOP x)
              | None \<Rightarrow> write_mem_loop throws (a + 1) hex s1 e1))"
| "write_mem_loop throws a hex s e = Inr (s, e)"

definition handle_write_mem :: "bool \<Rightarrow> string \<Rightarrow> GDBServer \<Rightarrow> ISS \<Rightarrow> gdb_error + (GDBServer \<times> ISS)" where
  "handle_write_mem throws data g I =
     (case (find_from (CHR '','') 0 data, find_from (CHR '':'') 0 data) of
        (Some comma, Some colon) \<Rightarrow>
          (case stoul32 (take comma data) of Inl x \<Rightarrow> Inl x | Inr addr \<Rightarrow>
          (case write_mem_loop throws addr (drop (colon + 1) data) (cpu I) (env I) of
             Inl x \<Rightarrow> Inl x
           | Inr (s, e) \<Rightarrow> Inr (send_packet ''OK'' g, I\<lparr>cpu := s, env := e\<rparr>)))
      | _ \<Rightarrow> Inr (send_packet ''E01'' g, I))"

section \<open>Breakpoints\<close>

abbreviation (input) EBREAK_INSN :: u32 where "EBREAK_INSN \<equiv> 0x00100073"

text \<open>The address field between the first and the second comma; \<open>None\<close> when there is no comma.\<close>

definition bp_addr :: "string \<Rightarrow> gdb_error + u32 option" where
  "bp_addr data =
     (case find_from (CHR '','') 0 data of
        None \<Rightarrow> Inr None
      | Some comma1 \<Rightarrow>
          map_sum id Some (stoul32
            (case find_from (CHR '','') (comma1 + 1) data of
               Some comma2 \<Rightarrow> take (comma2 - comma1 - 1) (drop (comma1 + 1) data)
             | None \<Rightarrow> drop (comma1 + 1) data)))"

definition handle_insert_bp :: "bool \<Rightarrow> string \<Rightarrow> GDBServer \<Rightarrow> ISS \<Rightarrow> gdb_error + (GDBServer \<times> ISS)" where
  "handle_insert_bp throws data g I =
     (case bp_addr data of
        Inl x \<Rightarrow> Inl x
      | Inr None \<Rightarrow> Inr (send_packet ''E01'' g, I)
      | Inr (Some addr) \<Rightarrow>
          if breakpoints g addr = None
          then (let (orig, s1, e1) = bus_read throws addr 4 (cpu I) (env I);
                    (s2, e2) = bus_write throws addr EBREAK_INSN 4 s1 e1
                in settle (send_packet ''OK'' (g\<lparr>breakpoints := (breakpoints g)(addr \<mapsto> orig)\<rparr>)) I s2 e2)
          else Inr (send_packet ''OK'' g, I))"

definition handle_remove_bp :: "bool \<Rightarrow> string \<Rightarrow> GDBServer \<Rightarrow> ISS \<Rightarrow> gdb_error + (GDBServer \<times> ISS)" where
  "handle_remove_bp throws data g I =
     (case bp_addr data of
        Inl x \<Rightarrow> Inl x
      | Inr None \<Rightarrow> Inr (send_packet ''E01'' g, I)
      | Inr (Some addr) \<Rightarrow>
          (case breakpoints g addr of
             Some orig \<Rightarrow>
               (let (s1, e1) = bus_write throws addr orig 4 (cpu I) (env I)
                in settle (send_packet ''OK'' (g\<lparr>breakpoints := (breakpoints g)(addr := None)\<rparr>)) I s1 e1)
           | None \<Rightarrow> Inr (send_packet ''OK'' g, I)))"

section \<open>The server's thread\<close>

datatype phase = Listening | Attaching | Serving | Running | Closed

definition serving :: "gdb_error + (GDBServer \<times> ISS) \<Rightarrow> gdb_error + (phase \<times> GDBServer \<times> ISS)" where
  "serving r = map_sum id (Pair Serving) r"

definition gdb_command :: "bool \<Rightarrow> string \<Rightarrow> GDBServer \<Rightarrow> ISS \<Rightarrow> gdb_error + (phase \<times> GDBServer \<times> ISS)" where
  "gdb_command throws pkt g I =
     (case pkt of
        [] \<Rightarrow> Inr (Closed, g, I)
      | c # arg \<Rightarrow>
          if c = CHR ''?'' then Inr (Serving, send_packet ''S05'' g, I)
          else if c = CHR ''g'' then Inr (Serving, handle_read_regs g I, I)
          else if c = CHR ''G'' then serving (handle_write_regs arg g I)
          else if c = CHR ''m'' then serving (handle_read_mem throws arg g I)
          else if c = CHR ''M'' then serving (handle_write_mem throws arg g I)
          else if c = CHR ''s'' then Inr (Running, g, iss_single_step I)
          else if c = CHR ''c'' then Inr (Running, g, iss_resume I)
          else if c = CHR ''Z'' \<and> arg \<noteq> [] \<and> hd arg = CHR ''0'' then serving (handle_insert_bp throws arg g I)
          else if c = CHR ''z'' \<and> arg \<noteq> [] \<and> hd arg = CHR ''0'' then serving (handle_remove_bp throws arg g I)
          else if c = CHR ''k'' then Inr (Closed, g, I)
          else Inr (Serving, send_packet '''' g, I))"

definition gdb_serve :: "bool \<Rightarrow> GDBServer \<Rightarrow> ISS \<Rightarrow> gdb_error + (phase \<times> GDBServer \<times> ISS)" where
  "gdb_serve throws g I = (let (pkt, g1) = read_packet g in gdb_command throws pkt g1 I)"

text \<open>
  The whole loop. \<open>wait_halted\<close> stands for the wait for \<open>halted_event\<close>, in which the kernel runs the
  other processes: the simulator when the processor has halted again, or \<open>None\<close> if it never does.
\<close>

partial_function (option) handle_client ::
    "bool \<Rightarrow> (ISS \<Rightarrow> ISS option) \<Rightarrow> GDBServer \<Rightarrow> ISS \<Rightarrow> (gdb_error + (GDBServer \<times> ISS)) option" where
  "handle_client throws wait_halted g I =
     (case gdb_serve throws g I of
        Inl x \<Rightarrow> Some (Inl x)
      | Inr (ph, g', I') \<Rightarrow>
          if ph = Closed then Some (Inr (g', I'))
          else if ph = Running then
            (case wait_halted I' of
               None \<Rightarrow> None
             | Some I'' \<Rightarrow> handle_client throws wait_halted (send_packet ''S05'' g') I'')
          else handle_client throws wait_halted g' I')"

type_synonym session = "phase \<times> GDBServer \<times> ISS"

inductive gdb_step :: "bool \<Rightarrow> (tlb \<Rightarrow> u32) \<Rightarrow> session \<Rightarrow> session \<Rightarrow> bool" for throws tlb_begin where
  system: "ph \<noteq> Serving \<Longrightarrow> vp_step throws tlb_begin I I' \<Longrightarrow> gdb_step throws tlb_begin (ph, g, I) (ph, g, I')"
| accept: "gdb_step throws tlb_begin (Listening, g, I) (Attaching, g, iss_halt I)"
| attached: "halted I \<Longrightarrow> gdb_step throws tlb_begin (Attaching, g, I) (Serving, g, I)"
| serve: "gdb_serve throws g I = Inr x \<Longrightarrow> gdb_step throws tlb_begin (Serving, g, I) x"
| stopped: "halted I \<Longrightarrow> gdb_step throws tlb_begin (Running, g, I) (Serving, send_packet ''S05'' g, I)"

inductive gdb_reachable :: "bool \<Rightarrow> (tlb \<Rightarrow> u32) \<Rightarrow> session \<Rightarrow> bool" for throws tlb_begin where
  start: "GamingCPU_VP elf sd = Inr x \<Longrightarrow>
    gdb_reachable throws tlb_begin (Listening, GDBServer_new stream, iss_start RAM_BASE x)"
| step: "gdb_reachable throws tlb_begin S \<Longrightarrow> gdb_step throws tlb_begin S S' \<Longrightarrow> gdb_reachable throws tlb_begin S'"

inductive_cases gdb_stepE: "gdb_step throws b S S'"

section \<open>Handlers keep the simulator well formed\<close>

lemma settle_Inr: "settle g I s e = Inr (g', I') \<longleftrightarrow> e_stop e = None \<and> g' = g \<and> I' = I\<lparr>cpu := s, env := e\<rparr>"
  by (auto simp: settle_def split: option.splits)

text \<open>What an access of the debugger leaves: the simulator well formed, its control flags alone.\<close>

definition access_ok :: "(tlb \<Rightarrow> u32) \<Rightarrow> CPUState \<Rightarrow> Env \<Rightarrow> bool" where
  "access_ok b s e = (cpu_inv s \<and> env_inv b s e)"

lemma bus_read_access: "bus_read throws a n s e = (v, s', e') \<Longrightarrow> access_ok b s e \<Longrightarrow> access_ok b s' e'"
  using bus_read_inv bus_read_frame hw_frame_cpu_inv unfolding access_ok_def by blast

lemma bus_write_access: "bus_write throws a d n s e = (s', e') \<Longrightarrow> access_ok b s e \<Longrightarrow> access_ok b s' e'"
  using bus_write_inv bus_write_frame hw_frame_cpu_inv unfolding access_ok_def by blast

lemma read_mem_loop_access:
  "read_mem_loop throws a n s e = (t, s', e') \<Longrightarrow> access_ok b s e \<Longrightarrow> access_ok b s' e'"
  by (induction n arbitrary: a s e t s' e') (auto split: prod.splits dest: bus_read_access)

lemma write_mem_loop_access:
  "write_mem_loop throws a hex s e = Inr (s', e') \<Longrightarrow> access_ok b s e \<Longrightarrow> e_stop e = None \<Longrightarrow>
    access_ok b s' e' \<and> e_stop e' = None"
proof (induction hex arbitrary: a s e rule: induct_list012)
  case (3 c d hex)
  then show ?case by (auto split: prod.splits sum.splits option.splits dest: bus_write_access)
qed auto

lemma iss_well_access: "iss_well b I \<longleftrightarrow> access_ok b (cpu I) (env I) \<and> e_stop (env I) = None"
  by (auto simp: iss_ok_def access_ok_def)

lemma length_write_regs_loop: "write_regs_loop data is rs = Inr rs' \<Longrightarrow> length rs' = length rs"
  by (induction data "is" rs rule: write_regs_loop.induct) (auto split: if_splits sum.splits)

declare write_regs_loop.simps [simp del]

lemma case_sum_Inr:
  assumes "(case r of Inl x \<Rightarrow> Inl x | Inr y \<Rightarrow> f y) = Inr z"
  obtains y where "r = Inr y" "f y = Inr z"
  using assms by (cases r) auto

definition handler_ok :: "(tlb \<Rightarrow> u32) \<Rightarrow> ISS \<Rightarrow> gdb_error + (GDBServer \<times> ISS) \<Rightarrow> bool" where
  "handler_ok b I r = (\<forall>g' I'. r = Inr (g', I') \<longrightarrow> iss_well b I' \<and> halted I' = halted I)"

lemma handler_okI [intro]:
  "(\<And>g' I'. r = Inr (g', I') \<Longrightarrow> iss_well b I' \<and> halted I' = halted I) \<Longrightarrow> handler_ok b I r"
  by (simp add: handler_ok_def)

lemma handle_write_regs_ok:
  assumes "iss_well b I"
  shows "handler_ok b I (handle_write_regs data g I)"
proof
  fix g' I' assume "handle_write_regs data g I = Inr (g', I')"
  then obtain rs p where rs: "write_regs_loop data [0..<32] (regs (cpu I)) = Inr rs"
    and I': "I' = I\<lparr>cpu := (cpu I)\<lparr>regs := rs[0 := 0], pc := p\<rparr>\<rparr>"
    unfolding handle_write_regs_def by (elim case_sum_Inr) (simp only: sum.inject prod.inject, blast)
  have "env_inv b (cpu I') (env I)" by (rule env_inv_lines [of _ "cpu I"]) (use assms in \<open>simp_all add: I' iss_ok_def\<close>)
  moreover have "cpu_inv (cpu I')" using assms length_write_regs_loop [OF rs] by (simp add: I' iss_ok_def cpu_inv_def)
  ultimately show "iss_well b I' \<and> halted I' = halted I" using assms by (simp add: I' iss_ok_def)
qed

lemma handle_mem_ok:
  assumes "iss_well b I"
  shows "handler_ok b I (handle_read_mem throws data g I)" "handler_ok b I (handle_write_mem throws data g I)"
    "handler_ok b I (handle_insert_bp throws data g I)" "handler_ok b I (handle_remove_bp throws data g I)"
proof -
  have a: "access_ok b (cpu I) (env I)" "e_stop (env I) = None" using assms by (simp_all add: iss_well_access)
  show "handler_ok b I (handle_read_mem throws data g I)"
    using assms a read_mem_loop_access
    by (intro handler_okI) (fastforce simp: handle_read_mem_def settle_Inr iss_well_access split: option.splits sum.splits prod.splits)
  show "handler_ok b I (handle_write_mem throws data g I)"
    using assms a write_mem_loop_access
    by (intro handler_okI) (fastforce simp: handle_write_mem_def iss_well_access split: option.splits sum.splits prod.splits)
  show "handler_ok b I (handle_insert_bp throws data g I)"
    using assms a bus_read_access bus_write_access
    by (intro handler_okI)
      (fastforce simp: handle_insert_bp_def settle_Inr iss_well_access split: option.splits sum.splits prod.splits if_splits)
  show "handler_ok b I (handle_remove_bp throws data g I)"
    using assms a bus_write_access
    by (intro handler_okI)
      (fastforce simp: handle_remove_bp_def settle_Inr iss_well_access split: option.splits sum.splits prod.splits)
qed

lemma serving_ok: "serving r = Inr (ph, g', I') \<Longrightarrow> handler_ok b I r \<Longrightarrow>
    iss_well b I' \<and> ph = Serving \<and> halted I' = halted I"
  by (cases r) (auto simp: serving_def handler_ok_def)

lemma gdb_serve_ok:
  assumes "gdb_serve throws g I = Inr (ph, g', I')" and "iss_well b I"
  shows "iss_well b I' \<and> (ph = Serving \<longrightarrow> halted I' = halted I)"
proof -
  obtain pkt g1 where p: "read_packet g = (pkt, g1)" by (cases "read_packet g")
  have c: "gdb_command throws pkt g1 I = Inr (ph, g', I')" using assms(1) by (simp add: gdb_serve_def p)
  have control: "iss_well b (iss_single_step I)" "iss_well b (iss_resume I)"
    using assms(2) by (simp_all add: iss_ok_def iss_single_step_def iss_resume_def)
  note h = handle_write_regs_ok [OF assms(2)] handle_mem_ok [OF assms(2)]
  show ?thesis
  proof (cases pkt)
    case (Cons x arg)
    with c assms(2) control show ?thesis
      by (simp only: gdb_command_def list.case split: if_split_asm)
        (auto dest: serving_ok [OF _ h(1)] serving_ok [OF _ h(2)] serving_ok [OF _ h(3)] serving_ok [OF _ h(4)]
          serving_ok [OF _ h(5)])
  qed (use c assms(2) in \<open>simp add: gdb_command_def\<close>)
qed

lemma handler_input:
  "handle_write_regs data g I = Inr (g', I') \<Longrightarrow> length (c_in g') \<le> length (c_in g)"
  "handle_read_mem throws data g I = Inr (g', I') \<Longrightarrow> length (c_in g') \<le> length (c_in g)"
  "handle_write_mem throws data g I = Inr (g', I') \<Longrightarrow> length (c_in g') \<le> length (c_in g)"
  "handle_insert_bp throws data g I = Inr (g', I') \<Longrightarrow> length (c_in g') \<le> length (c_in g)"
  "handle_remove_bp throws data g I = Inr (g', I') \<Longrightarrow> length (c_in g') \<le> length (c_in g)"
proof -
  have s: "length (c_in (send_packet d (g\<lparr>breakpoints := m\<rparr>))) \<le> length (c_in g)"
    "length (c_in (send_packet d g)) \<le> length (c_in g)" for d m
    by (simp_all add: send_packet_def)
  show "length (c_in g') \<le> length (c_in g)" if "handle_write_regs data g I = Inr (g', I')"
    using that s unfolding handle_write_regs_def by (elim case_sum_Inr) (simp only: sum.inject prod.inject, blast)
qed (auto simp: handle_read_mem_def handle_write_mem_def handle_insert_bp_def handle_remove_bp_def settle_Inr send_packet_def
  split: option.splits sum.splits prod.splits if_splits)

lemma serving_Inr: "serving r = Inr (ph, g', I') \<longleftrightarrow> ph = Serving \<and> r = Inr (g', I')"
  by (cases r) (auto simp: serving_def)

lemma gdb_command_input:
  assumes "gdb_command throws pkt g I = Inr (ph, g', I')"
  shows "length (c_in g') \<le> length (c_in g)"
proof (cases pkt)
  case (Cons x arg)
  with assms show ?thesis
    by (simp only: gdb_command_def list.case serving_Inr split: if_split_asm)
      (auto simp: handle_read_regs_def send_packet_def dest: handler_input)
qed (use assms in \<open>simp add: gdb_command_def\<close>)

lemma gdb_serve_input:
  assumes "gdb_serve throws g I = Inr (ph, g', I')" and "ph \<noteq> Closed"
  shows "length (c_in g') < length (c_in g)"
proof -
  obtain pkt g1 where p: "read_packet g = (pkt, g1)" by (cases "read_packet g")
  have c: "gdb_command throws pkt g1 I = Inr (ph, g', I')" using assms(1) by (simp add: gdb_serve_def p)
  have "pkt \<noteq> []" using assms(2) c by (auto simp: gdb_command_def)
  then have "length (c_in g1) < length (c_in g)" using read_packet_shorter [of g] p by simp
  moreover have "length (c_in g') \<le> length (c_in g1)" using gdb_command_input [OF c] .
  ultimately show ?thesis by simp
qed

text \<open>The server waits for a processor that it has set running.\<close>

lemma gdb_serve_running:
  assumes "gdb_serve throws g I = Inr (Running, g', I')"
  shows "\<not> halted I'"
proof -
  obtain pkt g1 where p: "read_packet g = (pkt, g1)" by (cases "read_packet g")
  have c: "gdb_command throws pkt g1 I = Inr (Running, g', I')" using assms by (simp add: gdb_serve_def p)
  show ?thesis
  proof (cases pkt)
    case (Cons x arg)
    with c show ?thesis
      by (simp only: gdb_command_def list.case serving_Inr split: if_split_asm)
        (auto simp: iss_single_step_def iss_resume_def)
  qed (use c in \<open>simp add: gdb_command_def\<close>)
qed

lemma gdb_step_ok:
  assumes "gdb_step throws b S S'" and "case S of (ph, g, I) \<Rightarrow> iss_well b I \<and> (ph = Serving \<longrightarrow> halted I)"
  shows "case S' of (ph, g, I) \<Rightarrow> iss_well b I \<and> (ph = Serving \<longrightarrow> halted I)"
  using assms
proof cases
  case (serve g I)
  with assms(2) show ?thesis by (cases S') (auto dest: gdb_serve_ok)
qed (auto dest: vp_step_inv(2) simp: iss_halt_def iss_ok_def)

end
