(* ===== verification/GDB_Props.thy ===== *)
theory GDB_Props
  imports GDB_Server
begin

text \<open>
  Properties of a debugging session: what the client reads and writes back of the registers and
  of memory, that breakpoints leave no trace once removed, and what holds in every state of the
  server's thread.
\<close>

unbundle bit_operations_syntax

section \<open>Registers\<close>

lemma length_register_prefix: "length (concat (map (\<lambda>i. to_hex32_le (f i)) is)) = 8 * length is"
  by (induction "is") auto

lemma register_reply_nth:
  assumes "i < 32"
  shows "from_hex32_le (register_reply s) (i * 8) = Inr (regs s ! i)"
proof -
  let ?f = "\<lambda>i. to_hex32_le (regs s ! i)"
  have "[0..<32] = [0..<i] @ i # [Suc i..<32]" using assms upt_add_eq_append [of 0 i "32 - i"] by (simp add: upt_conv_Cons)
  then have "register_reply s =
      concat (map ?f [0..<i]) @ to_hex32_le (regs s ! i) @ (concat (map ?f [Suc i..<32]) @ to_hex32_le (pc s))"
    by (simp only: register_reply_def map_append list.map concat_append concat.simps append_assoc)
  moreover have "length (concat (map ?f [0..<i])) = i * 8"
    using length_register_prefix [of "\<lambda>i. regs s ! i" "[0..<i]"] by simp
  ultimately show ?thesis by (simp only: from_to_hex32_le)
qed

lemma register_reply_pc: "from_hex32_le (register_reply s) (32 * 8) = Inr (pc s)"
  using from_to_hex32_le [of "concat (map (\<lambda>i. to_hex32_le (regs s ! i)) [0..<32])" "32 * 8" "pc s" "[]"]
    length_register_prefix [of "\<lambda>i. regs s ! i" "[0..<32]"]
  by (simp only: register_reply_def append_Nil2 length_upt)

lemma length_register_reply: "length (register_reply s) = 264"
  using length_register_prefix [of "\<lambda>i. regs s ! i" "[0..<32]"] by (simp only: register_reply_def length_append length_upt) simp

lemma hash_register_reply: "CHR ''#'' \<notin> set (register_reply s)"
  unfolding register_reply_def by (simp only: set_append set_concat set_map Un_iff UN_iff) (auto simp: hash_hex)

lemma write_regs_loop_result:
  assumes "\<And>i. i \<in> set is \<Longrightarrow> i * 8 + 8 \<le> length data \<and> from_hex32_le data (i * 8) = Inr (v i)"
  shows "\<exists>rs'. write_regs_loop data is rs = Inr rs' \<and> length rs' = length rs \<and>
    (\<forall>j < length rs. rs' ! j = (if j \<in> set is then v j else rs ! j))"
  using assms
proof (induction "is" arbitrary: rs)
  case (Cons i "is")
  from Cons.IH [of "rs[i := v i]"] Cons.prems obtain rs' where
    "write_regs_loop data is (rs[i := v i]) = Inr rs'" "length rs' = length rs"
    "\<forall>j < length rs. rs' ! j = (if j \<in> set is then v j else rs[i := v i] ! j)"
    by auto
  with Cons.prems [of i] show ?case by (auto simp: write_regs_loop.simps nth_list_update)
qed (simp add: write_regs_loop.simps)

lemma write_regs_reply:
  assumes "length (regs (cpu I)) = 32" and "length (regs s) = 32"
  shows "handle_write_regs (register_reply s) g I =
    Inr (send_packet ''OK'' g, I\<lparr>cpu := (cpu I)\<lparr>regs := (regs s)[0 := 0], pc := pc s\<rparr>\<rparr>)"
proof -
  have "\<exists>rs. write_regs_loop (register_reply s) [0..<32] (regs (cpu I)) = Inr rs \<and> length rs = length (regs (cpu I)) \<and>
      (\<forall>j < length (regs (cpu I)). rs ! j = (if j \<in> set [0..<32] then regs s ! j else regs (cpu I) ! j))"
    using register_reply_nth by (intro write_regs_loop_result) (simp add: length_register_reply)
  then obtain rs where rs: "write_regs_loop (register_reply s) [0..<32] (regs (cpu I)) = Inr rs" "length rs = 32"
    "\<forall>j < 32. rs ! j = regs s ! j"
    unfolding assms(1) set_upt atLeastLessThan_iff by (metis zero_le)
  have "rs = regs s" using rs(2,3) assms(2) by (intro nth_equalityI) auto
  then show ?thesis using rs(1) register_reply_pc by (simp only: handle_write_regs_def sum.case length_register_reply) simp
qed

text \<open>
  C38. The register file survives a trip through the client: when the client sends back, framed
  as a \<open>G\<close> packet, the very text the server answers to \<open>g\<close> in some state of the hart, the server
  accepts it without an exception, the hart has the registers and the program counter of that
  state again and is otherwise unchanged, and the server is ready for the next packet.
\<close>

theorem gdb_registers_roundtrip:
  assumes "c_in g = junk @ ''$G'' @ register_reply s @ ''#'' @ ck @ rest" and "CHR ''$'' \<notin> set junk" and "length ck = 2"
    and "length (regs s) = 32" and "regs s ! 0 = 0" and "length (regs (cpu I)) = 32"
  shows "\<exists>g'. gdb_serve throws g I = Inr (Serving, g', I\<lparr>cpu := (cpu I)\<lparr>regs := regs s, pc := pc s\<rparr>\<rparr>) \<and>
    c_in g' = drop 1 rest \<and> breakpoints g' = breakpoints g \<and> c_out g' = c_out g @ ''+$OK#9a''"
proof -
  let ?g = "g\<lparr>c_in := rest, c_out := c_out g @ ''+''\<rparr>"
  have "read_packet g = (CHR ''G'' # register_reply s, ?g)"
    using assms(1-3) hash_register_reply [of s] by (intro read_packet_framed [of g junk]) auto
  moreover have "(regs s)[0 := 0] = regs s" using assms(5) by (metis list_update_id)
  ultimately have "gdb_serve throws g I = Inr (Serving, send_packet ''OK'' ?g, I\<lparr>cpu := (cpu I)\<lparr>regs := regs s, pc := pc s\<rparr>\<rparr>)"
    using write_regs_reply [OF assms(6,4)] by (simp add: gdb_serve_def gdb_command_def serving_def)
  moreover have "hex2 (checksum ''OK'') = ''9a''" by code_simp
  ultimately show ?thesis by (simp add: send_packet_def)
qed

theorem gdb_registers_roundtrip_witness:
  "let s = CPUState_init\<lparr>regs := (replicate 32 0)[10 := 0xDEADBEEF], pc := 0x80001000\<rparr>;
       g = GDBServer_new (''+$G'' @ register_reply s @ ''#00'');
       I = iss_start RAM_BASE (CPUState_init, Plat_new)
   in \<exists>g'. gdb_serve True g I = Inr (Serving, g', I\<lparr>cpu := (cpu I)\<lparr>regs := regs s, pc := pc s\<rparr>\<rparr>)"
proof -
  let ?s = "CPUState_init\<lparr>regs := (replicate 32 0)[10 := 0xDEADBEEF], pc := 0x80001000\<rparr>"
  let ?I = "iss_start RAM_BASE (CPUState_init, Plat_new)"
  have "\<exists>g'. gdb_serve True (GDBServer_new (''+$G'' @ register_reply ?s @ ''#00'')) ?I =
      Inr (Serving, g', ?I\<lparr>cpu := (cpu ?I)\<lparr>regs := regs ?s, pc := pc ?s\<rparr>\<rparr>) \<and>
      c_in g' = drop 1 [] \<and> breakpoints g' = breakpoints (GDBServer_new (''+$G'' @ register_reply ?s @ ''#00'')) \<and>
      c_out g' = c_out (GDBServer_new (''+$G'' @ register_reply ?s @ ''#00'')) @ ''+$OK#9a''"
    by (rule gdb_registers_roundtrip [where junk = "''+''" and ck = "''00''"])
      (simp_all add: GDBServer_new_def iss_start_def CPUState_init_def)
  then show ?thesis unfolding Let_def by blast
qed

section \<open>Memory\<close>

definition ram_of :: "ISS \<Rightarrow> nat \<Rightarrow> u8" where "ram_of I x = ram_byte (get_soc I) x"

lemma ram_next:
  assumes "ram_mapped (unat a) (Suc n)"
  shows "unat (a + 1 :: u32) = unat a + 1" and "ram_mapped (unat (a + 1)) n" and "ram_mapped (unat a) 1"
proof -
  from assms show "unat (a + 1) = unat a + 1" "ram_mapped (unat a) 1" by (simp_all add: ram_mapped_def unat_word_ariths)
  with assms show "ram_mapped (unat (a + 1)) n" by (simp add: ram_mapped_def)
qed

lemma byte_of_word: "ucast (ucast v AND 0xFF :: u32) = (v :: u8)"
proof -
  have m: "(0xFF :: u32) = mask 8" by (simp add: mask_eq_exp_minus_1)
  show ?thesis unfolding m by (rule bit_word_eqI) (auto simp: bit_simps)
qed

lemma low_byte: "ucast (ucast v :: u32) = (v :: u8)" "ucast (ucast (ucast v :: u64) :: u8) = (ucast v :: u32)"
  by (rule bit_word_eqI, auto simp: bit_simps dest: bit_imp_le_length)+

lemma read_mem_loop_ram:
  assumes "env_inv b s e" and "e_stop e = None" and "ram_mapped (unat a) n"
  shows "\<exists>e0. read_mem_loop throws a n s e =
      (concat (map (\<lambda>i. hex2 (ram_byte (s, e_plat e) (unat a + i))) [0..<n]), s, e0) \<and>
    e_plat e0 = e_plat e \<and> e_stop e0 = None \<and> env_inv b s e0"
  using assms
proof (induction n arbitrary: a e)
  case (Suc n)
  note r = ram_next [OF Suc.prems(3)]
  obtain e1 where e1: "bus_read throws a 1 s e = (le_word [ram_byte (s, e_plat e) (unat a)], s, e1)"
    "e_plat e1 = e_plat e" "e_stop e1 = None"
    using bus_read_ram [OF Suc.prems(1,2) _ r(3), of throws] by (auto simp: access_width_def)
  from Suc.IH [OF bus_read_inv [OF e1(1) Suc.prems(1)] e1(3) r(2)] obtain e2 where
    e2: "read_mem_loop throws (a + 1) n s e1 =
      (concat (map (\<lambda>i. hex2 (ram_byte (s, e_plat e) (unat a + 1 + i))) [0..<n]), s, e2)"
      "e_plat e2 = e_plat e" "e_stop e2 = None" "env_inv b s e2"
    unfolding e1(2) r(1) by blast
  have "[0..<Suc n] = 0 # map Suc [0..<n]" by (simp add: upt_conv_Cons map_Suc_upt)
  with e1 e2 show ?case by (simp add: byte_of_word o_def del: upt_Suc)
qed simp

lemma write_mem_loop_ram:
  assumes "env_inv b s e" and "e_stop e = None" and "ram_mapped (unat a) (length bs)"
  shows "\<exists>e0. write_mem_loop throws a (concat (map hex2 bs)) s e = Inr (s, e0) \<and> e_stop e0 = None \<and> env_inv b s e0 \<and>
    (\<forall>x. ram_byte (s, e_plat e0) x =
      (if unat a \<le> x \<and> x < unat a + length bs then bs ! (x - unat a) else ram_byte (s, e_plat e) x))"
  using assms
proof (induction bs arbitrary: a e)
  case (Cons v bs)
  note r = ram_next [OF Cons.prems(3) [unfolded length_Cons]]
  have low: "le_bytes 4 (ucast v) ! 0 = (v :: u8)" by (simp add: numeral_eq_Suc low_byte)
  obtain e1 where e1: "bus_write throws a (ucast v) 1 s e = (s, e1)" "e_stop e1 = None"
    "\<And>x. ram_byte (s, e_plat e1) x = (if x = unat a then v else ram_byte (s, e_plat e) x)"
    using bus_write_ram [OF Cons.prems(1,2) _ r(3), where d = "ucast v" and throws = throws] low by (auto simp: access_width_def)
  from Cons.IH [OF bus_write_inv [OF e1(1) Cons.prems(1)] e1(2) r(2)] obtain e2 where
    e2: "write_mem_loop throws (a + 1) (concat (map hex2 bs)) s e1 = Inr (s, e2)" "e_stop e2 = None" "env_inv b s e2"
      "\<And>x. ram_byte (s, e_plat e2) x =
        (if unat a + 1 \<le> x \<and> x < unat a + 1 + length bs then bs ! (x - (unat a + 1)) else ram_byte (s, e_plat e1) x)"
    unfolding r(1) by blast
  have "write_mem_loop throws a (concat (map hex2 (v # bs))) s e = Inr (s, e2)"
    using e1(1,2) e2(1) by (simp add: hex2_def stoul16_hex2 [unfolded hex2_def] low_byte)
  moreover have "ram_byte (s, e_plat e2) x =
      (if unat a \<le> x \<and> x < unat a + length (v # bs) then (v # bs) ! (x - unat a) else ram_byte (s, e_plat e) x)" for x
    by (auto simp: e2(4) e1(3) nth_Cons')
  ultimately show ?case using e2(2,3) by blast
qed auto

lemma separators: "\<not> is_hex (CHR '','')" "\<not> is_hex (CHR '':'')"
  by code_simp+

text \<open>
  C39. Memory survives the trip too: an \<open>M\<close> packet that carries bytes for a range of RAM stores
  exactly these bytes, leaves every other byte of RAM and the hart alone and is answered with
  \<open>OK\<close>, and an \<open>m\<close> packet for the same range then answers with the same bytes.
\<close>

theorem gdb_memory_roundtrip:
  assumes "iss_well b I" and "list_all is_hex (t @ l)" and "stoul32 t = Inr a" and "stoul32 l = Inr (of_nat (length bs))"
    and "ram_mapped (unat a) (length bs)"
  shows "\<exists>I' I''. handle_write_mem throws (t @ '','' @ l @ '':'' @ concat (map hex2 bs)) g I = Inr (send_packet ''OK'' g, I') \<and>
    cpu I' = cpu I \<and>
    (\<forall>x. ram_of I' x = (if unat a \<le> x \<and> x < unat a + length bs then bs ! (x - unat a) else ram_of I x)) \<and>
    handle_read_mem throws (t @ '','' @ l) g' I' = Inr (send_packet (concat (map hex2 bs)) g', I'') \<and>
    cpu I'' = cpu I \<and> e_plat (env I'') = e_plat (env I')"
proof -
  have sep: "CHR '','' \<notin> set t" "CHR '':'' \<notin> set (t @ '','' @ l)"
    using assms(2) separators by (auto simp: list_all_iff)
  have env: "env_inv b (cpu I) (env I)" "e_stop (env I) = None" using assms(1) by (simp_all add: iss_ok_def)
  obtain e1 where e1: "write_mem_loop throws a (concat (map hex2 bs)) (cpu I) (env I) = Inr (cpu I, e1)" "e_stop e1 = None"
      "env_inv b (cpu I) e1"
      "\<And>x. ram_byte (cpu I, e_plat e1) x =
        (if unat a \<le> x \<and> x < unat a + length bs then bs ! (x - unat a) else ram_byte (cpu I, e_plat (env I)) x)"
    using write_mem_loop_ram [OF env assms(5), of throws] by blast
  obtain e2 where e2: "read_mem_loop throws a (length bs) (cpu I) e1 =
      (concat (map (\<lambda>i. hex2 (ram_byte (cpu I, e_plat e1) (unat a + i))) [0..<length bs]), cpu I, e2)"
      "e_plat e2 = e_plat e1" "e_stop e2 = None"
    using read_mem_loop_ram [OF e1(3,2) assms(5), of throws] by blast
  have len: "unat (of_nat (length bs) :: u32) = length bs"
    using assms(5) by (simp add: unat_of_nat ram_mapped_def)
  have "map (\<lambda>i. hex2 (ram_byte (cpu I, e_plat e1) (unat a + i))) [0..<length bs] = map hex2 bs"
    by (intro nth_equalityI) (simp_all add: e1(4))
  with e2 have e2': "read_mem_loop throws a (length bs) (cpu I) e1 = (concat (map hex2 bs), cpu I, e2)" by simp
  let ?I = "I\<lparr>cpu := cpu I, env := e1\<rparr>" and ?J = "I\<lparr>cpu := cpu I, env := e2\<rparr>"
  have "handle_write_mem throws (t @ '','' @ l @ '':'' @ concat (map hex2 bs)) g I = Inr (send_packet ''OK'' g, ?I)"
    using find_from_first [OF sep(1)] find_from_first [OF sep(2)] e1(1) assms(3) by (simp add: handle_write_mem_def)
  moreover have "handle_read_mem throws (t @ '','' @ l) g' ?I = Inr (send_packet (concat (map hex2 bs)) g', ?J)"
    using find_from_first [OF sep(1)] assms(3,4) e2' e2(3) len by (simp add: handle_read_mem_def settle_def)
  ultimately show ?thesis using e1(4) e2(2) by (intro exI [of _ ?I] exI [of _ ?J]) (simp add: ram_of_def get_soc_def)
qed

text \<open>A client that stores two bytes at the start of RAM.\<close>

lemma start_well: "iss_well b (iss_start RAM_BASE (CPUState_init, Plat_new))"
proof -
  have "GamingCPU_VP None None = Inr (CPUState_init, Plat_new)" by (simp add: GamingCPU_VP_def attach_card_def)
  then show ?thesis using iss_start_inv [of None None _ b] by (simp add: iss_ok_def)
qed

theorem gdb_memory_roundtrip_witness:
  "\<exists>I' I''. handle_write_mem True ''80000000,2:beef'' (GDBServer_new []) (iss_start RAM_BASE (CPUState_init, Plat_new)) =
      Inr (send_packet ''OK'' (GDBServer_new []), I') \<and> ram_of I' 0x80000001 = 0xEF \<and>
    handle_read_mem True ''80000000,2'' (GDBServer_new []) I' = Inr (send_packet ''beef'' (GDBServer_new []), I'')"
proof -
  have "list_all is_hex (''80000000'' @ ''2'')" "stoul32 ''80000000'' = Inr 0x80000000"
    "stoul32 ''2'' = Inr (of_nat (length [0xBE, 0xEF :: u8]))" "concat (map hex2 [0xBE, 0xEF]) = ''beef''"
    by code_simp+
  moreover have "ram_mapped (unat (0x80000000 :: u32)) (length [0xBE, 0xEF :: u8])" by (simp add: ram_mapped_def)
  ultimately show ?thesis
    using gdb_memory_roundtrip [OF start_well, of "''80000000''" "''2''" "0x80000000" "[0xBE, 0xEF]" True "GDBServer_new []"
        "GDBServer_new []"]
    by fastforce
qed

section \<open>Breakpoints\<close>

lemma insert_bp_ram:
  assumes "iss_well b I" and "bp_addr data = Inr (Some a)" and "ram_mapped (unat a) 4" and "breakpoints g a = None"
  shows "\<exists>I'. handle_insert_bp throws data g I =
      Inr (send_packet ''OK'' (g\<lparr>breakpoints := (breakpoints g)(a \<mapsto> le_word (map (\<lambda>i. ram_of I (unat a + i)) [0..<4]))\<rparr>), I') \<and>
    iss_well b I' \<and> cpu I' = cpu I \<and>
    (\<forall>x. ram_of I' x = (if unat a \<le> x \<and> x < unat a + 4 then le_bytes 4 EBREAK_INSN ! (x - unat a) else ram_of I x))"
proof -
  have env: "env_inv b (cpu I) (env I)" "e_stop (env I) = None" using assms(1) by (simp_all add: iss_ok_def)
  have w: "access_width 4" by (simp add: access_width_def)
  obtain e1 where e1: "bus_read throws a 4 (cpu I) (env I) = (le_word (map (\<lambda>i. ram_of I (unat a + i)) [0..<4]), cpu I, e1)"
    "e_plat e1 = e_plat (env I)" "e_stop e1 = None"
    using bus_read_ram [OF env w assms(3), of throws] by (simp only: ram_of_def get_soc_def) (elim exE conjE)
  have i1: "env_inv b (cpu I) e1" using bus_read_inv [OF e1(1) env(1)] .
  obtain e2 where e2: "bus_write throws a EBREAK_INSN 4 (cpu I) e1 = (cpu I, e2)" "e_stop e2 = None"
    "\<forall>x. ram_byte (cpu I, e_plat e2) x =
      (if unat a \<le> x \<and> x < unat a + 4 then le_bytes 4 EBREAK_INSN ! (x - unat a) else ram_byte (cpu I, e_plat e1) x)"
    using bus_write_ram [OF i1 e1(3) w assms(3), where d = EBREAK_INSN and throws = throws] by (elim exE conjE)
  let ?I = "I\<lparr>cpu := cpu I, env := e2\<rparr>"
  have "iss_well b ?I"
    using bus_write_inv [OF e2(1) i1] e2(2) assms(1) by (simp add: iss_ok_def)
  moreover have "handle_insert_bp throws data g I =
      Inr (send_packet ''OK'' (g\<lparr>breakpoints := (breakpoints g)(a \<mapsto> le_word (map (\<lambda>i. ram_of I (unat a + i)) [0..<4]))\<rparr>), ?I)"
    by (simp only: handle_insert_bp_def assms(2,4) sum.case option.case if_True e1(1) e2(1) Let_def prod.case settle_def e2(2)
        simp_thms)
  moreover have "\<forall>x. ram_of ?I x = (if unat a \<le> x \<and> x < unat a + 4 then le_bytes 4 EBREAK_INSN ! (x - unat a) else ram_of I x)"
    using e2(3) by (simp add: ram_of_def get_soc_def e1(2))
  moreover have "cpu ?I = cpu I" by simp
  ultimately show ?thesis by blast
qed

lemma remove_bp_ram:
  assumes "iss_well b I" and "bp_addr data = Inr (Some a)" and "ram_mapped (unat a) 4" and "breakpoints g a = Some v"
  shows "\<exists>I'. handle_remove_bp throws data g I =
      Inr (send_packet ''OK'' (g\<lparr>breakpoints := (breakpoints g)(a := None)\<rparr>), I') \<and> iss_well b I' \<and> cpu I' = cpu I \<and>
    (\<forall>x. ram_of I' x = (if unat a \<le> x \<and> x < unat a + 4 then le_bytes 4 v ! (x - unat a) else ram_of I x))"
proof -
  have env: "env_inv b (cpu I) (env I)" "e_stop (env I) = None" using assms(1) by (simp_all add: iss_ok_def)
  obtain e2 where e2: "bus_write throws a v 4 (cpu I) (env I) = (cpu I, e2)" "e_stop e2 = None"
    "\<forall>x. ram_byte (cpu I, e_plat e2) x =
      (if unat a \<le> x \<and> x < unat a + 4 then le_bytes 4 v ! (x - unat a) else ram_byte (cpu I, e_plat (env I)) x)"
    using bus_write_ram [OF env _ assms(3), where d = v and throws = throws] by (auto simp: access_width_def)
  have "iss_well b (I\<lparr>cpu := cpu I, env := e2\<rparr>)"
    using bus_write_inv [OF e2(1) env(1)] e2(2) assms(1) by (simp add: iss_ok_def)
  then show ?thesis
    using assms(2,4) e2 by (auto simp: handle_remove_bp_def settle_def ram_of_def get_soc_def)
qed

text \<open>
  Memory \<open>m\<close> is \<open>M\<close> with breakpoints planted: at each of them \<open>m\<close> has the EBREAK instruction and
  the server has the word of \<open>M\<close>; everywhere else they agree.
\<close>

abbreviation (input) covers :: "u32 \<Rightarrow> nat \<Rightarrow> bool" where "covers a x \<equiv> unat a \<le> x \<and> x < unat a + 4"

definition planted :: "(nat \<Rightarrow> u8) \<Rightarrow> (u32 \<rightharpoonup> u32) \<Rightarrow> (nat \<Rightarrow> u8) \<Rightarrow> bool" where
  "planted M bps m =
     ((\<forall>a v. bps a = Some v \<longrightarrow> (\<forall>x. covers a x \<longrightarrow>
        M x = le_bytes 4 v ! (x - unat a) \<and> m x = le_bytes 4 EBREAK_INSN ! (x - unat a))) \<and>
      (\<forall>x. (\<forall>a \<in> dom bps. \<not> covers a x) \<longrightarrow> m x = M x))"

definition apart :: "u32 set \<Rightarrow> bool" where
  "apart A = (\<forall>a \<in> A. \<forall>b \<in> A. a \<noteq> b \<longrightarrow> unat a + 4 \<le> unat b \<or> unat b + 4 \<le> unat a)"

fun bp_commands :: "bool \<Rightarrow> (bool \<times> string) list \<Rightarrow> GDBServer \<Rightarrow> ISS \<Rightarrow> gdb_error + (GDBServer \<times> ISS)" where
  "bp_commands throws [] g I = Inr (g, I)"
| "bp_commands throws ((ins, data) # cs) g I =
     (case (if ins then handle_insert_bp throws data g I else handle_remove_bp throws data g I) of
        Inl x \<Rightarrow> Inl x
      | Inr (g', I') \<Rightarrow> bp_commands throws cs g' I')"

lemma word_of_bytes: "x < 4 \<Longrightarrow> le_bytes 4 (le_word (map f [0..<4])) ! x = f x"
  using le_bytes_le_word [of "map f [0..<4]"] by simp

lemma apart_covers:
  assumes "apart A" and "a \<in> A" and "c \<in> A" and "a \<noteq> c" and "covers a x"
  shows "\<not> covers c x"
proof -
  from assms(1-4) have "unat a + 4 \<le> unat c \<or> unat c + 4 \<le> unat a" unfolding apart_def by blast
  with assms(5) show ?thesis by auto
qed

lemma planted_insert:
  assumes "planted M bps m" and "apart (insert a (dom bps))" and "bps a = None"
    and "\<forall>x. m' x = (if covers a x then le_bytes 4 EBREAK_INSN ! (x - unat a) else m x)"
  shows "planted M (bps(a \<mapsto> le_word (map (\<lambda>i. m (unat a + i)) [0..<4]))) m'"
proof -
  let ?v = "le_word (map (\<lambda>i. m (unat a + i)) [0..<4])"
  have far: "\<not> covers c x" if "covers a x" "c \<in> dom bps" for c x
    using apart_covers [OF assms(2), of a c x] assms(3) that by (cases "a = c") auto
  have own: "m x = M x" if "covers a x" for x using far [OF that] assms(1) unfolding planted_def by blast
  have word: "le_bytes 4 ?v ! (x - unat a) = m x" if "covers a x" for x
    using that word_of_bytes [of "x - unat a" "\<lambda>i. m (unat a + i)"] by auto
  show ?thesis
    unfolding planted_def
  proof (intro conjI allI impI)
    fix c v x assume c: "(bps(a \<mapsto> ?v)) c = Some v" and x: "covers c x"
    show "M x = le_bytes 4 v ! (x - unat c)" "m' x = le_bytes 4 EBREAK_INSN ! (x - unat c)"
      using c x own [of x] word [of x] far [of x c] assms(1,4) unfolding planted_def by (auto split: if_splits)
  next
    fix x assume "\<forall>c \<in> dom (bps(a \<mapsto> ?v)). \<not> covers c x"
    then show "m' x = M x" using assms(1,4) unfolding planted_def by auto
  qed
qed

lemma planted_remove:
  assumes "planted M bps m" and "apart (dom bps)" and "bps a = Some v"
    and "\<forall>x. m' x = (if covers a x then le_bytes 4 v ! (x - unat a) else m x)"
  shows "planted M (bps(a := None)) m'"
proof -
  have far: "\<not> covers c x" if "covers a x" "c \<in> dom bps" "c \<noteq> a" for c x
    using apart_covers [OF assms(2), of a c x] assms(3) that by auto
  show ?thesis
    unfolding planted_def
  proof (intro conjI allI impI)
    fix c w x assume c: "(bps(a := None)) c = Some w" and x: "covers c x"
    show "M x = le_bytes 4 w ! (x - unat c)" "m' x = le_bytes 4 EBREAK_INSN ! (x - unat c)"
      using c x far [of x c] assms(1,4) unfolding planted_def by (auto split: if_splits)
  next
    fix x assume x: "\<forall>c \<in> dom (bps(a := None)). \<not> covers c x"
    show "m' x = M x"
    proof (cases "covers a x")
      case True
      then show ?thesis using assms(1,3,4) unfolding planted_def by simp
    next
      case False
      then have "\<forall>c \<in> dom bps. \<not> covers c x" using x by auto
      then show ?thesis using False assms(1,4) unfolding planted_def by auto
    qed
  qed
qed

lemma bp_step:
  assumes "iss_well b I" and "planted M (breakpoints g) (ram_of I)" and "dom (breakpoints g) \<subseteq> A" and "apart A"
    and "bp_addr data = Inr (Some a)" and "a \<in> A" and "ram_mapped (unat a) 4"
  shows "\<exists>g' I'. (if ins then handle_insert_bp throws data g I else handle_remove_bp throws data g I) = Inr (g', I') \<and>
    iss_well b I' \<and> planted M (breakpoints g') (ram_of I') \<and> dom (breakpoints g') \<subseteq> A \<and> cpu I' = cpu I"
proof (cases "breakpoints g a")
  case None
  have "apart (insert a (dom (breakpoints g)))" using assms(3,4,6) unfolding apart_def by blast
  note new = planted_insert [OF assms(2) this None]
  from insert_bp_ram [OF assms(1,5,7) None, of throws] obtain I' where
    ins: "handle_insert_bp throws data g I =
      Inr (send_packet ''OK'' (g\<lparr>breakpoints := (breakpoints g)(a \<mapsto> le_word (map (\<lambda>i. ram_of I (unat a + i)) [0..<4]))\<rparr>), I')"
      "iss_well b I'" "cpu I' = cpu I"
      "\<forall>x. ram_of I' x = (if covers a x then le_bytes 4 EBREAK_INSN ! (x - unat a) else ram_of I x)"
    by blast
  have rem: "handle_remove_bp throws data g I = Inr (send_packet ''OK'' g, I)"
    using assms(5) None by (simp add: handle_remove_bp_def)
  show ?thesis
    using ins(1-3) new [OF ins(4)] rem assms(1-3,6) by (cases ins) (auto simp: send_packet_def simp del: upt_rec_numeral)
next
  case (Some v)
  have "apart (dom (breakpoints g))" using assms(3,4) unfolding apart_def by blast
  note old = planted_remove [OF assms(2) this Some]
  from remove_bp_ram [OF assms(1,5,7) Some, of throws] obtain I' where
    rem: "handle_remove_bp throws data g I = Inr (send_packet ''OK'' (g\<lparr>breakpoints := (breakpoints g)(a := None)\<rparr>), I')"
      "iss_well b I'" "cpu I' = cpu I"
      "\<forall>x. ram_of I' x = (if covers a x then le_bytes 4 v ! (x - unat a) else ram_of I x)"
    by blast
  have ins: "handle_insert_bp throws data g I = Inr (send_packet ''OK'' g, I)"
    using assms(5) Some by (simp add: handle_insert_bp_def)
  show ?thesis
    using rem(1-3) old [OF rem(4)] ins assms(1-3) by (cases ins) (auto simp: send_packet_def)
qed

lemma bp_commands_planted:
  assumes "iss_well b I" and "planted M (breakpoints g) (ram_of I)" and "dom (breakpoints g) \<subseteq> A" and "apart A"
    and "\<forall>(ins, data) \<in> set cs. \<exists>a \<in> A. bp_addr data = Inr (Some a) \<and> ram_mapped (unat a) 4"
  shows "\<exists>g' I'. bp_commands throws cs g I = Inr (g', I') \<and> planted M (breakpoints g') (ram_of I') \<and> cpu I' = cpu I"
  using assms
proof (induction cs arbitrary: g I)
  case (Cons c cs)
  obtain ins data where c: "c = (ins, data)" by (cases c)
  from Cons.prems(5) c obtain a where "a \<in> A" "bp_addr data = Inr (Some a)" "ram_mapped (unat a) 4" by auto
  with bp_step [OF Cons.prems(1-4), of data a ins throws] obtain g' I' where
    s: "(if ins then handle_insert_bp throws data g I else handle_remove_bp throws data g I) = Inr (g', I')"
      "iss_well b I'" "planted M (breakpoints g') (ram_of I')" "dom (breakpoints g') \<subseteq> A" "cpu I' = cpu I"
    by blast
  have "\<forall>(ins, data) \<in> set cs. \<exists>a \<in> A. bp_addr data = Inr (Some a) \<and> ram_mapped (unat a) 4"
    using Cons.prems(5) by simp
  from Cons.IH [OF s(2-4) Cons.prems(4) this] s(5) show ?case by (simp add: c s(1))
qed auto

text \<open>
  C37. Breakpoints leave no trace. Let a client that has no breakpoint insert and remove any number
  of software breakpoints, in any order and repeatedly, at addresses in RAM that are at least four
  bytes apart. Every command succeeds and leaves the hart alone; at any time memory is the original
  with the EBREAK instruction at exactly the breakpoints in force, for which the server holds the
  original words; so when the last one is removed, memory is what it was.
\<close>

theorem gdb_breakpoints_restore:
  assumes "iss_well b I" and "breakpoints g = Map.empty" and "apart A"
    and "\<forall>(ins, data) \<in> set cs. \<exists>a \<in> A. bp_addr data = Inr (Some a) \<and> ram_mapped (unat a) 4"
  shows "\<exists>g' I'. bp_commands throws cs g I = Inr (g', I') \<and> cpu I' = cpu I \<and>
    planted (ram_of I) (breakpoints g') (ram_of I') \<and> (breakpoints g' = Map.empty \<longrightarrow> ram_of I' = ram_of I)"
proof -
  have "planted (ram_of I) (breakpoints g) (ram_of I)" by (simp add: planted_def assms(2))
  from bp_commands_planted [OF assms(1) this _ assms(3,4), where throws = throws] assms(2) obtain g' I' where
    r: "bp_commands throws cs g I = Inr (g', I')" "planted (ram_of I) (breakpoints g') (ram_of I')" "cpu I' = cpu I"
    by auto
  moreover have "ram_of I' = ram_of I" if "breakpoints g' = Map.empty" using r(2) that by (auto simp: planted_def)
  ultimately show ?thesis by blast
qed

theorem gdb_breakpoints_restore_witness:
  "\<exists>g' I'. bp_commands True [(True, ''0,80000000,4''), (True, ''0,80000010,4''), (False, ''0,80000000,4'')]
      (GDBServer_new []) (iss_start RAM_BASE (CPUState_init, Plat_new)) = Inr (g', I') \<and>
    planted (ram_of (iss_start RAM_BASE (CPUState_init, Plat_new))) (breakpoints g') (ram_of I')"
proof -
  have a: "bp_addr ''0,80000000,4'' = Inr (Some 0x80000000)" "bp_addr ''0,80000010,4'' = Inr (Some 0x80000010)"
    by code_simp+
  have c: "\<forall>(ins, data) \<in> set [(True, ''0,80000000,4''), (True, ''0,80000010,4''), (False, ''0,80000000,4'')].
      \<exists>a \<in> {0x80000000, 0x80000010}. bp_addr data = Inr (Some a) \<and> ram_mapped (unat a) 4"
    using a by (simp add: ram_mapped_def)
  have s: "apart {0x80000000, 0x80000010}" "breakpoints (GDBServer_new []) = Map.empty"
    by (simp_all add: apart_def GDBServer_new_def)
  from gdb_breakpoints_restore [OF start_well s(2,1) c, where throws = True] show ?thesis by blast
qed

text \<open>
  Two breakpoints two bytes apart, as compressed code allows: the second saves half of the first
  EBREAK, and removing them in the order of insertion leaves that half in memory.
\<close>

lemma overlapping_breakpoints_corrupt:
  assumes "iss_well b I" and "breakpoints g = Map.empty"
  shows "\<exists>g' I'. bp_commands throws [(True, ''0,80000000,2''), (True, ''0,80000002,2''), (False, ''0,80000000,2''),
      (False, ''0,80000002,2'')] g I = Inr (g', I') \<and> breakpoints g' = Map.empty \<and> ram_of I' 0x80000002 = 0x10"
proof -
  have a: "bp_addr ''0,80000000,2'' = Inr (Some 0x80000000)" "bp_addr ''0,80000002,2'' = Inr (Some 0x80000002)"
    by code_simp+
  have m: "ram_mapped (unat (0x80000000 :: u32)) 4" "ram_mapped (unat (0x80000002 :: u32)) 4" by (simp_all add: ram_mapped_def)
  have eb: "le_bytes 4 EBREAK_INSN ! 2 = 0x10" by code_simp
  define o1 o2 where "o1 = le_word (map (\<lambda>i. ram_of I (0x80000000 + i)) [0..<4])"
    and "o2 J = le_word (map (\<lambda>i. ram_of J (0x80000002 + i)) [0..<4])" for J
  define g1 where "g1 = send_packet ''OK'' (g\<lparr>breakpoints := (breakpoints g)(0x80000000 \<mapsto> o1)\<rparr>)"
  obtain I1 where 1: "handle_insert_bp throws ''0,80000000,2'' g I = Inr (g1, I1)" "iss_well b I1"
    "ram_of I1 0x80000002 = 0x10"
    using insert_bp_ram [OF assms(1) a(1) m(1), of g throws] assms(2) eb
    by (auto simp: g1_def o1_def simp del: upt_rec_numeral)
  define g2 where "g2 = send_packet ''OK'' (g1\<lparr>breakpoints := (breakpoints g1)(0x80000002 \<mapsto> o2 I1)\<rparr>)"
  obtain I2 where 2: "handle_insert_bp throws ''0,80000002,2'' g1 I1 = Inr (g2, I2)" "iss_well b I2"
    using insert_bp_ram [OF 1(2) a(2) m(2), of g1 throws] assms(2)
    by (auto simp: g2_def o2_def g1_def send_packet_def simp del: upt_rec_numeral)
  obtain I3 where 3: "handle_remove_bp throws ''0,80000000,2'' g2 I2 =
      Inr (send_packet ''OK'' (g2\<lparr>breakpoints := (breakpoints g2)(0x80000000 := None)\<rparr>), I3)" "iss_well b I3"
    using remove_bp_ram [OF 2(2) a(1) m(1), of g2 o1 throws] by (auto simp: g2_def g1_def send_packet_def)
  define g3 where "g3 = send_packet ''OK'' (g2\<lparr>breakpoints := (breakpoints g2)(0x80000000 := None)\<rparr>)"
  have b3: "breakpoints g3 = [0x80000002 \<mapsto> o2 I1]"
    using assms(2) by (auto simp: g3_def g2_def g1_def send_packet_def)
  have half: "le_bytes 4 (o2 I1) ! 0 = 0x10" using word_of_bytes [of 0 "\<lambda>i. ram_of I1 (0x80000002 + i)"] 1(3) by (simp add: o2_def)
  obtain I4 where 4: "handle_remove_bp throws ''0,80000002,2'' g3 I3 =
      Inr (send_packet ''OK'' (g3\<lparr>breakpoints := (breakpoints g3)(0x80000002 := None)\<rparr>), I4)"
      "ram_of I4 0x80000002 = 0x10"
    using remove_bp_ram [OF 3(2) a(2) m(2), of g3 "o2 I1" throws] b3 half by auto
  show ?thesis
    using 1(1) 2(1) 3(1) 4 b3 by (simp add: g3_def [symmetric]) (simp add: send_packet_def)
qed

section \<open>Sessions\<close>

text \<open>
  C36. In every state a debugging session can reach from boot, whatever the client sends and however
  the other processes interleave while the server waits: the hart and the devices are well formed
  and the interrupt lines exact, although the client may have set any program counter; and
  whenever the server is serving a command the processor is halted, so what the client reads and
  writes is the state between two instructions.
\<close>

theorem gdb_session_invariant:
  assumes "gdb_reachable throws tlb_begin (ph, g, I)"
  shows "cpu_inv (cpu I) \<and> plat_inv (e_plat (env I)) \<and> lines_exact (cpu I) (e_plat (env I)) \<and> e_stop (env I) = None \<and>
    (ph = Serving \<longrightarrow> halted I)"
proof -
  have "case S of (ph, g, I) \<Rightarrow> iss_well tlb_begin I \<and> (ph = Serving \<longrightarrow> halted I)" if "gdb_reachable throws tlb_begin S" for S
    using that
  proof induction
    case (start elf sd x stream)
    then show ?case using iss_start_inv [of elf sd x tlb_begin] by (simp add: iss_ok_def)
  qed (rule gdb_step_ok)
  from this [OF assms] show ?thesis by (simp add: iss_ok_def env_inv_def soc_inv_def)
qed

theorem gdb_session_invariant_witness:
  "\<exists>g I. gdb_reachable True (\<lambda>t. fst (hd t)) (Serving, g, I) \<and> halted I \<and> lines_exact (cpu I) (e_plat (env I))"
proof -
  let ?b = "\<lambda>t :: tlb. fst (hd t)" and ?I = "iss_start RAM_BASE (CPUState_init, Plat_new)"
  have "GamingCPU_VP None None = Inr (CPUState_init, Plat_new)" by (simp add: GamingCPU_VP_def attach_card_def)
  then have "gdb_reachable True ?b (Listening, GDBServer_new [], ?I)" by (rule gdb_reachable.start)
  then have "gdb_reachable True ?b (Attaching, GDBServer_new [], iss_halt ?I)"
    by (rule gdb_reachable.step) (rule gdb_step.accept)
  then have "gdb_reachable True ?b (Serving, GDBServer_new [], iss_halt ?I)"
    by (rule gdb_reachable.step) (rule gdb_step.attached, simp add: iss_halt_def)
  with gdb_session_invariant [OF this] show ?thesis by blast
qed

section \<open>Termination\<close>

lemma handle_client_total:
  assumes "\<And>J. \<not> halted J \<Longrightarrow> wait_halted J \<noteq> None"
  shows "\<exists>r. handle_client throws wait_halted g I = Some r"
proof (induction "length (c_in g)" arbitrary: g I rule: less_induct)
  case less
  show ?case
  proof (cases "gdb_serve throws g I")
    case (Inr x)
    obtain ph g' I' where x: "x = (ph, g', I')" by (rule prod_cases3)
    show ?thesis
    proof (cases "ph = Closed")
      case False
      from gdb_serve_input [OF Inr [unfolded x] False] have l: "length (c_in g') < length (c_in g)" .
      then have "length (c_in (send_packet ''S05'' g')) < length (c_in g)" by (simp add: send_packet_def)
      note rec = less [OF this] less [OF l, of I']
      have "\<exists>J. wait_halted I' = Some J" if "ph = Running"
        using assms [OF gdb_serve_running] Inr x that by blast
      with rec show ?thesis by (subst handle_client.simps) (auto simp: Inr x False)
    qed (subst handle_client.simps, simp add: Inr x)
  qed (subst handle_client.simps, simp)
qed

text \<open>
  C40. The client loop of the server returns, with the closed connection or with the error that ends
  the simulation, whatever the client has sent, if every processor that it sets running with
  \<open>s\<close> or \<open>c\<close> halts again. If the next packet sets running a processor that never halts, the loop
  does not return.
\<close>

theorem handle_client_returns:
  "((\<forall>J. \<not> halted J \<longrightarrow> wait_halted J \<noteq> None) \<longrightarrow> (\<exists>r. handle_client throws wait_halted g I = Some r)) \<and>
   (gdb_serve throws g I = Inr (Running, g', I') \<and> wait_halted I' = None \<longrightarrow> handle_client throws wait_halted g I = None)"
  using handle_client_total [of wait_halted throws g I]
  by (subst (2) handle_client.simps) auto

theorem handle_client_returns_witness:
  "(\<exists>r. handle_client True (\<lambda>J. Some (iss_halt J)) (GDBServer_new ''$?#3f+$c#63+$k#6b'') (iss_start RAM_BASE (CPUState_init, Plat_new)) = Some r) \<and>
   handle_client True (\<lambda>J. None) (GDBServer_new ''$c#63'') (iss_start RAM_BASE (CPUState_init, Plat_new)) = None"
proof
  let ?I = "iss_start RAM_BASE (CPUState_init, Plat_new)"
  show "\<exists>r. handle_client True (\<lambda>J. Some (iss_halt J)) (GDBServer_new ''$?#3f+$c#63+$k#6b'') ?I = Some r"
    using handle_client_returns [of "\<lambda>J. Some (iss_halt J)" True "GDBServer_new ''$?#3f+$c#63+$k#6b''" ?I] by simp
  have "gdb_serve True (GDBServer_new ''$c#63'') ?I = Inr (Running, (GDBServer_new [])\<lparr>c_out := ''+''\<rparr>, iss_resume ?I)"
    by (simp add: gdb_serve_def read_packet_def gdb_command_def GDBServer_new_def)
  with handle_client_returns [of "\<lambda>J. None" True "GDBServer_new ''$c#63''" ?I]
  show "handle_client True (\<lambda>J. None) (GDBServer_new ''$c#63'') ?I = None" by simp
qed

end
