(* ===== verification/ISS_Defined.thy ===== *)
theory ISS_Defined
  imports ISS_Run ISS_DMI
begin

text \<open>
  Progress and memory safety of the processor: an iteration of \<open>ISS::run\<close> on a well-formed platform
  has a result, and no access of it leaves the byte vector or the buffer it goes to. The accesses of
  an instruction and of the page walk are aligned, so they cannot wrap around the address space,
  and the direct-memory window and the devices cover what they let through; the one exception is
  a fetch of the last half-word of the address space. Arithmetic is taken to wrap, as in \<open>Execute\<close>:
  the signed overflow of ADDI, ADD and SUB, which C++ leaves undefined, is not part of this.
\<close>

unbundle bit_operations_syntax

section \<open>How a transaction can stop\<close>

lemma reg_transport_stop: "reg_transport n sw p d = Inl x \<Longrightarrow> x = HOST_UB"
  by (auto simp: reg_transport_def Let_def split: if_splits option.splits)

lemma memory_stop:
  "memory_b_transport throws p m = Inl x \<Longrightarrow> x = HOST_UB \<or> throws \<and> x = SC_ERROR"
  "bootrom_b_transport throws p m = Inl x \<Longrightarrow> x = HOST_UB \<or> throws \<and> x = SC_ERROR"
  by (auto simp: memory_b_transport_def bootrom_b_transport_def Let_def
      split: if_splits option.splits tlm_command.splits)

lemma lift_target_stop: "lift_target bt get put cb p x = Inl e \<Longrightarrow> \<exists>d. bt p d = Inl e"
  by (auto simp: lift_target_def split: prod.splits sum.splits)

lemmas register_devices = clint_b_transport_def plic_b_transport_def uart_b_transport_def gpio_b_transport_def
  timer_b_transport_def spi_b_transport_def sd_b_transport_def dma_b_transport_def fb_b_transport_def audio_b_transport_def

lemma vp_target_stop: "vp_target throws i p x = Inl e \<Longrightarrow> e = HOST_UB \<or> throws \<and> e = SC_ERROR"
  unfolding vp_target_def
  by (auto simp: register_devices split: if_splits dest!: lift_target_stop dest: reg_transport_stop memory_stop)

lemma cpu_transport_stop:
  assumes "soc_inv x" and "cpu_access p" and "vp_transport throws p x = Inl e"
  shows "throws \<and> e = SC_ERROR"
proof -
  have "e \<noteq> HOST_UB" using vp_transport_defined [of x p throws] assms by (auto simp: soc_inv_def)
  moreover have "e = HOST_UB \<or> throws \<and> e = SC_ERROR"
    using assms(3) unfolding vp_transport_def bus_b_transport_def Let_def
    by (auto split: option.splits sum.splits dest: vp_target_stop)
  ultimately show ?thesis by blast
qed

section \<open>Accesses\<close>

text \<open>The world behind the callbacks is well formed, and the run goes on or an error report has thrown.\<close>

definition defined_env :: "bool \<Rightarrow> (tlb \<Rightarrow> u32) \<Rightarrow> CPUState \<Rightarrow> Env \<Rightarrow> bool" where
  "defined_env throws b s e = (env_inv b s e \<and> (e_stop e = None \<or> throws \<and> e_stop e = Some SC_ERROR))"

lemma aligned_no_wrap:
  assumes "aligned_access a n"
  shows "access_width n" and "unat a + n \<le> 2 ^ 32"
proof -
  show "access_width n" using assms by (auto simp: aligned_access_def access_width_def)
  have "unat a < 2 ^ 32" using unsigned_less [of a, where ?'a = nat] by simp
  moreover have "a AND 1 = 0 \<longleftrightarrow> even (unat a)" 
    using bit_unsigned_iff [where ?'a = nat, of a 0] by (simp add: and_one_eq even_iff_mod_2_eq_zero [symmetric] bit_0)
  ultimately show "unat a + n \<le> 2 ^ 32"
    using assms unfolding aligned_access_def and_3_iff by auto
qed

lemma hit_defined:
  assumes "env_inv b s e" and "access_width n" and "unat a + n \<le> 2 ^ 32" and "dmi_hit a n e"
  shows "vec_read (dmi_data e) (unat (ucast a - dmi_lo e)) n (replicate 4 0) \<noteq> None"
    and "vec_write (dmi_data e) (unat (ucast a - dmi_lo e)) n (le_bytes 4 d) \<noteq> None"
proof -
  have ok: "dmi_ok e" and len: "length (m_data (bootrom (e_plat e))) = 0x10000" "length (m_data (ram (e_plat e))) = 0x08000000"
    using assms(1) by (simp_all add: env_inv_def soc_inv_def plat_inv_def memory_ok_def)
  have n: "n \<le> 4" using assms(2) by (auto simp: access_width_def)
  from dmi_window [OF ok assms(4,2,3)] have "unat (ucast a - dmi_lo e) + n \<le> length (dmi_data e)"
    using dmi_offset [of "dmi_lo e" 0 a] dmi_offset [of "dmi_lo e" "0x80000000" a] len by (auto simp: dmi_data_def)
  with n show "vec_read (dmi_data e) (unat (ucast a - dmi_lo e)) n (replicate 4 0) \<noteq> None"
    "vec_write (dmi_data e) (unat (ucast a - dmi_lo e)) n (le_bytes 4 d) \<noteq> None"
    by (simp_all add: vec_read_def vec_write_def)
qed

lemma cpu_payload_access: "access_width n \<Longrightarrow> length buf = 4 \<Longrightarrow> cpu_access (cpu_payload cmd a buf n)"
  by (auto simp: cpu_access_def cpu_payload_def access_width_def)

lemma bus_read_defined:
  assumes "defined_env throws b s e" and "access_width n" and "unat a + n \<le> 2 ^ 32"
    and "bus_read throws a n s e = (v, s', e')"
  shows "defined_env throws b s' e'"
proof -
  have i: "env_inv b s e" "soc_inv (s, e_plat e)" "e_stop e = None \<or> throws \<and> e_stop e = Some SC_ERROR"
    using assms(1) by (simp_all add: defined_env_def env_inv_def)
  have "e_stop e' = None \<or> throws \<and> e_stop e' = Some SC_ERROR"
    using assms(4) i(3) hit_defined(1) [OF i(1) assms(2,3)]
      cpu_transport_stop [OF i(2) cpu_payload_access [OF assms(2), of "replicate 4 0" TLM_READ a], of throws]
    by (auto simp: bus_read_def Let_def split: if_splits option.splits sum.splits prod.splits)
  with bus_read_inv [OF assms(4) i(1)] show ?thesis by (simp add: defined_env_def)
qed

lemma bus_write_defined:
  assumes "defined_env throws b s e" and "access_width n" and "unat a + n \<le> 2 ^ 32"
    and "bus_write throws a d n s e = (s', e')"
  shows "defined_env throws b s' e'"
proof -
  have i: "env_inv b s e" "soc_inv (s, e_plat e)" "e_stop e = None \<or> throws \<and> e_stop e = Some SC_ERROR"
    using assms(1) by (simp_all add: defined_env_def env_inv_def)
  have buf: "length (take n (le_bytes 4 d) @ replicate (4 - n) 0) = 4" using assms(2) by (auto simp: access_width_def)
  have "e_stop e' = None \<or> throws \<and> e_stop e' = Some SC_ERROR"
    using assms(4) i(3) hit_defined(2) [OF i(1) assms(2,3), of d]
      cpu_transport_stop [OF i(2) cpu_payload_access [OF assms(2) buf, of TLM_WRITE a], of throws]
    by (auto simp: bus_write_def put_dmi_data_def split: if_splits option.splits sum.splits prod.splits)
  with bus_write_inv [OF assms(4) i(1)] show ?thesis by (simp add: defined_env_def)
qed

section \<open>Translation\<close>

text \<open>A physical address keeps the offset within the page, and so the alignment.\<close>

lemma phys_addr_offset: "phys_addr sp n va AND 3 = va AND 3" "phys_addr sp n va AND 1 = va AND 1"
proof -
  have m: "(0x003FFFFF :: u32) = mask 22" "(PAGE_SIZE - 1 :: u32) = mask 12" "(3 :: u32) = mask 2" "(1 :: u32) = mask 1"
    by (simp_all add: mask_eq_exp_minus_1)
  show "phys_addr sp n va AND 3 = va AND 3" unfolding phys_addr_def m(1,2) unfolding m(3) by (rule u32_eqI) (auto simp: bit_simps)
  show "phys_addr sp n va AND 1 = va AND 1" unfolding phys_addr_def m(1,2) unfolding m(4) by (rule u32_eqI) (auto simp: bit_simps)
qed

lemma walk_leaf_offset:
  "walk_leaf M b va ty pv ms l pa p t m = (r, t', m') \<Longrightarrow> \<not> res_fault r \<Longrightarrow> res_paddr r AND 3 = va AND 3 \<and> res_paddr r AND 1 = va AND 1"
  by (auto simp: walk_leaf_def Let_def mmu_fault_def mmu_ok_def phys_addr_offset split: if_splits)

lemma walk_loop_offset:
  "walk_loop M b va ty pv ms n a l t m = (r, t', m') \<Longrightarrow> \<not> res_fault r \<Longrightarrow> res_paddr r AND 3 = va AND 3 \<and> res_paddr r AND 1 = va AND 1"
  by (induction n arbitrary: a l m)
    (auto simp: Let_def mmu_fault_def split: if_splits prod.splits dest: walk_leaf_offset)

lemma translate_offset:
  "translate M b va ty pv sa ms t m = (r, t', m') \<Longrightarrow> \<not> res_fault r \<Longrightarrow> res_paddr r AND 3 = va AND 3 \<and> res_paddr r AND 1 = va AND 1"
  by (auto simp: translate_def walk_def mmu_ok_def mmu_fault_def Let_def phys_addr_offset split: if_splits option.splits
      dest: walk_loop_offset)

lemma iss_translate_defined:
  assumes "iss_translate throws b va ty pv s e = (r, s', e')" and "defined_env throws b s e"
  shows "defined_env throws b s' e'" and "\<not> res_fault r \<Longrightarrow> res_paddr r AND 3 = va AND 3 \<and> res_paddr r AND 1 = va AND 1"
proof -
  let ?P = "\<lambda>(x, y). defined_env throws b x y"
  from assms(1) obtain t e1 where t: "translate (pt_mem throws) b va ty pv (satp (csr s)) (mstatus (csr s)) (e_tlb e) (s, e) =
      (r, t, (s', e1))" and e': "e' = e1\<lparr>e_tlb := t\<rparr>"
    by (auto simp: iss_translate_def split: prod.splits)
  have word: "access_width 4" "unat a + 4 \<le> 2 ^ 32" if "a AND 3 = 0" for a :: u32
    using aligned_no_wrap [of a 4] that by (simp_all add: aligned_access_def)
  have "?P (s', e1)"
    by (rule translate_keeps [where P = ?P, OF t])
      (use assms(2) in \<open>auto simp: pt_mem_def split: prod.splits dest!: bus_read_snd
        dest: bus_read_defined [OF _ word] bus_write_defined [OF _ word]\<close>)
  with iss_translate_inv [OF assms(1)] assms(2) e' show "defined_env throws b s' e'" by (simp add: defined_env_def)
  show "\<not> res_fault r \<Longrightarrow> res_paddr r AND 3 = va AND 3 \<and> res_paddr r AND 1 = va AND 1" by (rule translate_offset [OF t])
qed

lemma set_fault_defined [simp]: "defined_env throws b s (set_fault c va e) = defined_env throws b s e"
  unfolding defined_env_def set_fault_inv by (simp add: set_fault_def)

lemma aligned_translation:
  assumes "aligned_access va n" and "pa AND 3 = va AND 3 \<and> pa AND 1 = va AND 1"
  shows "access_width n" and "unat pa + n \<le> 2 ^ 32"
  using aligned_no_wrap [of pa n] assms by (auto simp: aligned_access_def)

text \<open>The two memory callbacks, on an aligned access.\<close>

lemma iss_mem_read_defined:
  assumes "defined_env throws b s e" and "aligned_access va n" and "iss_mem_read throws b va n s e = (v, s', e')"
  shows "defined_env throws b s' e'"
proof (cases "mmu_active_data s")
  case True
  obtain r s1 e1 where t: "iss_translate throws b va LOAD (effective_data_priv s) s e = (r, s1, e1)"
    by (rule prod_cases3)
  note d1 = iss_translate_defined [OF t assms(1)]
  show ?thesis
  proof (cases "res_fault r")
    case False
    with assms(3) True t have "bus_read throws (res_paddr r) n s1 e1 = (v, s', e')" by (simp add: iss_mem_read_def)
    with d1(1) aligned_translation [OF assms(2) d1(2) [OF False]] show ?thesis by (rule bus_read_defined)
  qed (use assms(3) True t d1(1) in \<open>auto simp: iss_mem_read_def\<close>)
next
  case False
  with assms(3) have "bus_read throws va n s e = (v, s', e')" by (simp add: iss_mem_read_def)
  with assms(1) aligned_no_wrap [OF assms(2)] show ?thesis by (rule bus_read_defined)
qed

lemma iss_mem_write_defined:
  assumes "defined_env throws b s e" and "aligned_access va n" and "iss_mem_write throws b va d n s e = (s', e')"
  shows "defined_env throws b s' e'"
proof (cases "mmu_active_data s")
  case True
  obtain r s1 e1 where t: "iss_translate throws b va STORE (effective_data_priv s) s e = (r, s1, e1)"
    by (rule prod_cases3)
  note d1 = iss_translate_defined [OF t assms(1)]
  show ?thesis
  proof (cases "res_fault r")
    case False
    with assms(3) True t have "bus_write throws (res_paddr r) d n s1 e1 = (s', e')" by (simp add: iss_mem_write_def)
    with d1(1) aligned_translation [OF assms(2) d1(2) [OF False]] show ?thesis by (rule bus_write_defined)
  qed (use assms(3) True t d1(1) in \<open>auto simp: iss_mem_write_def\<close>)
next
  case False
  with assms(3) have "bus_write throws va d n s e = (s', e')" by (simp add: iss_mem_write_def)
  with assms(1) aligned_no_wrap [OF assms(2)] show ?thesis by (rule bus_write_defined)
qed

interpretation iss_defined: mem_if_keeps "iss_mem throws tlb_begin" "defined_env throws tlb_begin" for throws tlb_begin
proof
  fix s s' e e' a v n
  show "defined_env throws tlb_begin s' e'"
    if "defined_env throws tlb_begin s e" "aligned_access a n" "mem_read (iss_mem throws tlb_begin) a n s e = (v, s', e')"
    using that by (auto simp: iss_mem_def intro: iss_mem_read_defined)
  show "defined_env throws tlb_begin s' e'"
    if "defined_env throws tlb_begin s e" "aligned_access a n" "mem_write (iss_mem throws tlb_begin) a v n s e = (s', e')"
    using that by (auto simp: iss_mem_def intro: iss_mem_write_defined)
  show "defined_env throws tlb_begin s' e'"
    if "defined_env throws tlb_begin s e" "on_satp_write (iss_mem throws tlb_begin) s e = (s', e')"
    using that iss.satp_keeps [of tlb_begin s e throws s' e'] by (auto simp: defined_env_def iss_mem_def)
  show "defined_env throws tlb_begin s' e"
    if "hw_mip (csr s') = hw_mip (csr s)" "defined_env throws tlb_begin s e"
    using that env_inv_lines by (auto simp: defined_env_def)
qed

section \<open>An iteration of the loop\<close>

text \<open>The outcome of an iteration: a well-formed simulator, or an error report of SystemC that throws.\<close>

definition step_result :: "bool \<Rightarrow> (tlb \<Rightarrow> u32) \<Rightarrow> stop + ISS \<Rightarrow> bool" where
  "step_result throws b r = (case r of Inl x \<Rightarrow> throws \<and> x = SC_ERROR | Inr I \<Rightarrow> iss_inv b I)"

text \<open>The physical address the iteration fetches from.\<close>

definition fetch_paddr :: "bool \<Rightarrow> (tlb \<Rightarrow> u32) \<Rightarrow> ISS \<Rightarrow> u32" where
  "fetch_paddr throws b I =
     (if mmu_active_fetch (cpu I)
      then res_paddr (fst (iss_translate throws b (pc (cpu I)) FETCH (priv (cpu I)) (cpu I) (env I)))
      else pc (cpu I))"

lemma iss_inv_defined: "iss_inv b I \<Longrightarrow> defined_env throws b (cpu I) (env I)"
  by (simp add: iss_inv_def defined_env_def)

lemma iss_execute_defined:
  assumes "iss_inv b I"
  shows "step_result throws b (iss_execute throws b raw I)"
proof -
  define s1 where "s1 = (cpu I)\<lparr>next_pc := pc (cpu I) + instr_len (decode raw)\<rparr>"
  define e1 where "e1 = (env I)\<lparr>mem_fault := False\<rparr>"
  obtain r s2 e2 where x: "execute (iss_mem throws b) (decode raw) s1 e1 = (r, s2, e2)" by (rule prod_cases3)
  have "defined_env throws b (cpu I) e1"
    using assms by (simp add: iss_inv_def defined_env_def e1_def env_inv_def dmi_ok_def)
  then have "defined_env throws b s1 e1" by (rule iss_defined.lines_only [rotated]) (simp add: s1_def)
  from iss_defined.execute_keeps [OF x this] have "e_stop e2 = None \<or> throws \<and> e_stop e2 = Some SC_ERROR"
    by (simp add: defined_env_def)
  moreover have "e_stop e2 = Some y" if "iss_execute throws b raw I = Inl y" for y
    using that x by (auto simp: iss_execute_def Let_def s1_def e1_def split: option.splits if_splits)
  ultimately show ?thesis
    using iss_execute_inv [OF _ assms] by (auto simp: step_result_def split: sum.split)
qed

lemma iss_fetch_execute_defined:
  assumes "iss_inv b I" and "unat a + 4 \<le> 2 ^ 32"
  shows "step_result throws b (iss_fetch_execute throws b a I)"
proof -
  obtain raw s e where f: "bus_read throws a 4 (cpu I) (env I) = (raw, s, e)" by (rule prod_cases3)
  have d: "defined_env throws b s e"
    by (rule bus_read_defined [OF iss_inv_defined [OF assms(1)] _ assms(2) f]) (simp add: access_width_def)
  show ?thesis
  proof (cases "e_stop e")
    case None
    have "iss_inv b (I\<lparr>cpu := s, env := e\<rparr>)"
      using d None hw_frame_cpu_inv [OF bus_read_frame [OF f]] assms(1) by (simp add: iss_inv_def defined_env_def)
    with f None iss_execute_defined show ?thesis by (simp add: iss_fetch_execute_def)
  qed (use d f in \<open>simp add: iss_fetch_execute_def defined_env_def step_result_def\<close>)
qed

lemma even_fetch:
  assumes "a AND 1 = 0" and "a \<noteq> (0xFFFFFFFE :: u32)"
  shows "unat a + 4 \<le> 2 ^ 32"
proof -
  have "even (unat a)" using assms(1) bit_unsigned_iff [where ?'a = nat, of a 0]
    by (simp add: and_one_eq even_iff_mod_2_eq_zero [symmetric] bit_0)
  moreover have "unat a < 2 ^ 32" using unsigned_less [of a, where ?'a = nat] by simp
  moreover have "unat a \<noteq> 0xFFFFFFFE" using assms(2) by (simp add: word_unat_eq_iff)
  ultimately show ?thesis by simp presburger
qed

lemma iss_step_result:
  assumes "iss_inv b I" and "fetch_paddr throws b I \<noteq> 0xFFFFFFFE"
  shows "step_result throws b (iss_step throws b I)"
proof -
  obtain r s e where t: "iss_translate throws b (pc (cpu I)) FETCH (priv (cpu I)) (cpu I) (env I) = (r, s, e)"
    by (rule prod_cases3)
  note d = iss_translate_defined [OF t iss_inv_defined [OF assms(1)]]
  have i: "iss_inv b (I\<lparr>cpu := s, env := e\<rparr>)" if "e_stop e = None"
    using d(1) that hw_frame_cpu_inv [OF iss_translate_frame [OF t]] assms(1) by (simp add: iss_inv_def defined_env_def)
  have trap: "step_result throws b (Inr (iss_trap c tv J))" if "iss_inv b J" for c tv J
    using that iss_trap_inv [of J b c tv] by (simp add: iss_inv_def step_result_def)
  consider "halted I \<or> check_pending_interrupts (cpu I) \<noteq> 0 \<or> pc (cpu I) AND 1 \<noteq> 0"
    | "\<not> halted I" "check_pending_interrupts (cpu I) = 0" "pc (cpu I) AND 1 = 0" "mmu_active_fetch (cpu I)"
    | "\<not> halted I" "check_pending_interrupts (cpu I) = 0" "pc (cpu I) AND 1 = 0" "\<not> mmu_active_fetch (cpu I)"
    by blast
  then show ?thesis
  proof cases
    case 1
    with trap [OF assms(1)] assms(1) show ?thesis by (auto simp: iss_step_def Let_def step_result_def)
  next
    case 2
    have fetch: "unat (res_paddr r) + 4 \<le> 2 ^ 32" if "\<not> res_fault r"
      by (rule even_fetch) (use d(2) [OF that] 2 assms(2) t in \<open>simp_all add: fetch_paddr_def\<close>)
    show ?thesis
    proof (cases "e_stop e")
      case None
      with 2 t trap [OF i] iss_fetch_execute_defined [OF i fetch] show ?thesis by (simp add: iss_step_def Let_def)
    qed (use 2 t d(1) in \<open>simp add: iss_step_def Let_def defined_env_def step_result_def\<close>)
  next
    case 3
    with iss_fetch_execute_defined [OF assms(1) even_fetch] assms(2) show ?thesis
      by (simp add: iss_step_def Let_def fetch_paddr_def)
  qed
qed

section \<open>Property\<close>

text \<open>
  C24. Progress and memory safety of the processor loop: from a well-formed simulator, an iteration
  of \<open>ISS::run\<close> ends in a well-formed simulator, or with the error report of a device when such
  reports throw. It never copies outside a byte vector or a transaction's buffer, whatever the
  program, its page tables and the cached direct-memory window are, unless it fetches the last
  half-word of the address space, where the end of the four-byte fetch wraps around. Integer
  arithmetic is taken to wrap around; its overflow in C++ is outside this statement.
\<close>

theorem iss_step_defined:
  assumes "iss_inv b I" and "fetch_paddr throws b I \<noteq> 0xFFFFFFFE"
  shows "(\<exists>I'. iss_step throws b I = Inr I' \<and> iss_inv b I') \<or> throws \<and> iss_step throws b I = Inl SC_ERROR"
  using iss_step_result [OF assms] by (auto simp: step_result_def split: sum.splits)

theorem iss_step_defined_witness:
  "\<exists>I'. iss_step False (\<lambda>t. fst (hd t)) (iss_start RAM_BASE (CPUState_init, Plat_new)) = Inr I' \<and>
    iss_inv (\<lambda>t. fst (hd t)) I'"
proof -
  let ?b = "\<lambda>t :: tlb. fst (hd t)" and ?I = "iss_start RAM_BASE (CPUState_init, Plat_new)"
  have "GamingCPU_VP None None = Inr (CPUState_init, Plat_new)" by (simp add: GamingCPU_VP_def attach_card_def)
  from iss_start_inv [OF this] have "iss_inv ?b ?I" .
  moreover have "fetch_paddr False ?b ?I \<noteq> 0xFFFFFFFE"
    by (simp add: fetch_paddr_def iss_start_def mmu_active_fetch_def CPUState_init_def)
  ultimately show ?thesis using iss_step_defined [of ?b ?I False] by simp
qed

end
