(* ===== verification/ISS_Program.thy ===== *)
theory ISS_Program
  imports ISS_Run ISS_DMI Execute_Spec
begin

text \<open>
  Programs on the whole platform: fetch over the bus or through the direct-memory window, decode,
  execute and retire, against the reference semantics of \<open>Execute_Spec\<close>. The program is a partial
  map from addresses to instructions; the simulator finds it as encoded words in RAM.
\<close>

unbundle bit_operations_syntax

section \<open>The reference machine\<close>

text \<open>The hart and the bytes of RAM by address. Numbers in memory are little-endian integers.\<close>

type_synonym machine = "CPUState \<times> (nat \<Rightarrow> u8)"

fun read_int :: "(nat \<Rightarrow> u8) \<Rightarrow> nat \<Rightarrow> nat \<Rightarrow> int" where
  "read_int M a 0 = 0"
| "read_int M a (Suc n) = uint (M a) + 256 * read_int M (Suc a) n"

definition write_int :: "nat \<Rightarrow> nat \<Rightarrow> int \<Rightarrow> (nat \<Rightarrow> u8) \<Rightarrow> nat \<Rightarrow> u8" where
  "write_int a n v M x = (if a \<le> x \<and> x < a + n then word_of_int (v div 256 ^ (x - a)) else M x)"

primrec l_width :: "op_l \<Rightarrow> nat" where
  "l_width L_LB = 1" | "l_width L_LH = 2" | "l_width L_LW = 4" | "l_width L_LBU = 1" | "l_width L_LHU = 2"

primrec l_sem :: "op_l \<Rightarrow> int \<Rightarrow> int" where
  "l_sem L_LB v = signed_take_bit 7 v"
| "l_sem L_LH v = signed_take_bit 15 v"
| "l_sem L_LW v = v"
| "l_sem L_LBU v = v"
| "l_sem L_LHU v = v"

primrec s_width :: "op_s \<Rightarrow> nat" where
  "s_width S_SB = 1" | "s_width S_SH = 2" | "s_width S_SW = 4"

definition data_address :: "CPUState \<Rightarrow> 5 word \<Rightarrow> 12 word \<Rightarrow> u32" where
  "data_address s r imm = x_of s r + word_of_int (sint imm)"

definition accessible :: "u32 \<Rightarrow> nat \<Rightarrow> bool" where
  "accessible a n = (unat a mod n = 0 \<and> ram_mapped (unat a) n)"

text \<open>A load or store of aligned RAM, or a computational instruction, of \<open>n\<close> bytes.\<close>

fun machine_step :: "asm \<Rightarrow> u32 \<Rightarrow> machine \<Rightarrow> machine option" where
  "machine_step (ASM_L p imm r1 r) n (s, M) =
     (let a = data_address s r1 imm in
      if accessible a (l_width p)
      then Some (write_x r (word_of_int (l_sem p (read_int M (unat a) (l_width p)))) (pc s + n) s, M) else None)"
| "machine_step (ASM_S p imm r2 r1) n (s, M) =
     (let a = data_address s r1 imm in
      if accessible a (s_width p)
      then Some (s\<lparr>next_pc := pc s + n, lr_sc := reservation_clear (lr_sc s)\<rparr>,
                 write_int (unat a) (s_width p) (uint (x_of s r2)) M) else None)"
| "machine_step a n (s, M) = map_option (\<lambda>s'. (s', M)) (asm_step a n s)"

text \<open>The words that encode an instruction of \<open>n\<close> bytes.\<close>

definition encodes :: "u32 \<Rightarrow> asm \<Rightarrow> u32 \<Rightarrow> bool" where
  "encodes w a n = (w = assemble a \<and> n = 4 \<or>
     (\<exists>c h. rvc_legal c \<and> a = rvc_expand c \<and> w = ucast (rvc_encode c) OR push_bit 16 (ucast (h :: u16)) \<and> n = 2))"

text \<open>Retiring an instruction: both counters advance and the program counter moves.\<close>

definition retire :: "CPUState \<Rightarrow> CPUState" where
  "retire s = s\<lparr>csr := inc_minstret (inc_mcycle (csr s)), pc := next_pc s\<rparr>"

inductive machine_run :: "nat \<Rightarrow> machine \<Rightarrow> machine \<Rightarrow> bool" where
  stop: "machine_run 0 c c"
| step: "ram_mapped (unat (pc s)) 4 \<Longrightarrow> encodes (word_of_int (read_int M (unat (pc s)) 4)) a n \<Longrightarrow>
    machine_step a n (s, M) = Some (s', M') \<Longrightarrow> machine_run k (retire s', M') c \<Longrightarrow> machine_run (Suc k) (s, M) c"

inductive_cases machine_run_0: "machine_run 0 c c'"
inductive_cases machine_run_Suc: "machine_run (Suc k) (s, M) c"

section \<open>Bytes and numbers\<close>

lemma le_word_read_int: "le_word (map (\<lambda>i. M (a + i)) [0..<n]) = word_of_int (read_int M a n)"
proof (induction n arbitrary: a)
  case (Suc n)
  have "map (\<lambda>i. M (a + i)) [0..<Suc n] = M a # map (\<lambda>i. M (Suc a + i)) [0..<n]"
    by (simp add: upt_conv_Cons map_Suc_upt [symmetric] o_def del: upt_Suc)
  moreover have "ucast b OR push_bit 8 w = ucast b + 256 * w" for b :: u8 and w :: u32
  proof -
    have "ucast b AND push_bit 8 w = (0 :: u32)" by (rule u32_eqI) (auto simp: bit_simps dest: bit_imp_le_length)
    then have "ucast b OR push_bit 8 w = ucast b + push_bit 8 w" by (simp add: disjunctive_add_eq_or)
    then show ?thesis by (simp add: push_bit_eq_mult)
  qed
  ultimately show ?case using Suc [of "Suc a"] by (simp add: of_int_uint)
qed simp

lemma read_int_bounds: "0 \<le> read_int M a n \<and> read_int M a n < 256 ^ n"
proof (induction n arbitrary: a)
  case (Suc n)
  have "0 \<le> uint (M a)" "uint (M a) < 256" using unsigned_less [of "M a", where ?'a = int] by simp_all
  with Suc [of "Suc a"] show ?case by (simp only: read_int.simps power_Suc) linarith
qed simp

lemma le_bytes_nth: "i < n \<Longrightarrow> le_bytes n w ! i = ucast (drop_bit (8 * i) w)"
  by (induction n arbitrary: i w) (auto simp: nth_Cons' drop_bit_drop_bit le_Suc_eq gr0_conv_Suc algebra_simps)

lemma l_sem_word:
  assumes "0 \<le> x" "x < 256 ^ l_width p"
  shows "(word_of_int (l_sem p x) :: u32) =
    (case p of L_LB \<Rightarrow> scast (ucast (word_of_int x :: u32) :: u8) | L_LH \<Rightarrow> scast (ucast (word_of_int x :: u32) :: u16)
     | L_LW \<Rightarrow> word_of_int x | L_LBU \<Rightarrow> word_of_int x AND 0xFF | L_LHU \<Rightarrow> word_of_int x AND 0xFFFF)"
proof -
  have "word_of_int x AND mask k = (word_of_int (take_bit k x) :: u32)" for k
    by (rule u32_eqI) (auto simp: bit_simps)
  from this [of 8] this [of 16] assms show ?thesis
    by (cases p) (auto simp: mask_eq_exp_minus_1 take_bit_int_eq_self intro!: u32_eqI simp: bit_simps min_def)
qed

lemma stored_byte:
  assumes "k < n" and "n \<le> 4"
  shows "le_bytes 4 (w AND mask (8 * n)) ! k = word_of_int (uint w div 256 ^ k)"
proof -
  have "uint w div 256 ^ k = drop_bit (8 * k) (uint w)" by (simp add: drop_bit_eq_div power_mult)
  with assms show ?thesis
    by (simp add: le_bytes_nth) (rule bit_word_eqI, auto simp: bit_simps)
qed

lemma aligned_mask:
  "unat a mod 2 = 0 \<longleftrightarrow> a AND 1 = 0" "unat a mod 4 = 0 \<longleftrightarrow> a AND 3 = 0" for a :: u32
proof -
  have "a AND mask k = of_nat (unat a mod 2 ^ k)" for k
    by (simp add: take_bit_eq_mask [symmetric] take_bit_eq_mod [symmetric] unsigned_take_bit_eq [symmetric] del: unsigned_take_bit_eq)
  note k = this [of 1] this [of 2]
  have small: "(of_nat m :: u32) = 0 \<longleftrightarrow> m = 0" if "m < 4" for m
    using that of_nat_inverse [of m, where ?'a = 32] by (cases "m = 0") auto
  show "unat a mod 2 = 0 \<longleftrightarrow> a AND 1 = 0" "unat a mod 4 = 0 \<longleftrightarrow> a AND 3 = 0"
    using k small [of "unat a mod 2"] small [of "unat a mod 4"] by (simp_all add: mask_eq_exp_minus_1)
qed

section \<open>One instruction on the simulator\<close>

definition ram_bytes :: "Plat \<Rightarrow> nat \<Rightarrow> u8" where
  "ram_bytes pl = ram_byte (CPUState_init, pl)"

lemma ram_byte_bytes: "ram_byte (s, pl) = ram_bytes pl"
  by (rule ext) (simp add: ram_bytes_def ram_byte_def)

definition same_devices :: "Plat \<Rightarrow> Plat \<Rightarrow> bool" where
  "same_devices pl pl' = (pl'\<lparr>ram := ram pl\<rparr> = pl)"

lemma same_devices_refl [simp]: "same_devices pl pl"
  by (simp add: same_devices_def)

lemma same_devices_ram: "same_devices pl (pl\<lparr>ram := m\<rparr>)"
  by (simp add: same_devices_def)

lemma same_devices_trans: "same_devices a b \<Longrightarrow> same_devices b c \<Longrightarrow> same_devices a c"
  unfolding same_devices_def by (metis Plat.update_convs(1) Plat.surjective Plat.select_convs)

lemma bus_read_fault: "bus_read throws a n s e = (v, s', e') \<Longrightarrow> mem_fault e' = mem_fault e"
  by (auto simp: bus_read_def try_dmi_def Let_def split: if_splits option.splits sum.splits prod.splits)

lemma bus_write_fault: "bus_write throws a d n s e = (s', e') \<Longrightarrow> mem_fault e' = mem_fault e"
  by (auto simp: bus_write_def put_dmi_data_def split: if_splits option.splits sum.splits prod.splits)

text \<open>Without translation the memory callbacks are the bus.\<close>

definition bare :: "CPUState \<Rightarrow> bool" where
  "bare s = (drop_bit 31 (satp (csr s)) = 0)"

lemma bare_mem:
  assumes "bare s"
  shows "mem_read (iss_mem throws b) a n s e = bus_read throws a n s e"
    and "mem_write (iss_mem throws b) a v n s e = bus_write throws a v n s e"
  using assms by (simp_all add: iss_mem_def iss_mem_read_def iss_mem_write_def mmu_active_data_def bare_def)

lemma load_ram:
  assumes "env_inv b s e" and "e_stop e = None" and "accessible a n" and "access_width n"
  shows "\<exists>e'. bus_read throws a n s e = (word_of_int (read_int (ram_bytes (e_plat e)) (unat a) n), s, e') \<and>
    e_plat e' = e_plat e \<and> e_stop e' = None \<and> mem_fault e' = mem_fault e"
  using bus_read_ram [OF assms(1,2,4), of a throws] assms(3) bus_read_fault
  unfolding accessible_def ram_byte_bytes le_word_read_int by blast

lemma store_ram:
  assumes "env_inv b s e" and "e_stop e = None" and "accessible a n" and "access_width n"
  shows "\<exists>e'. bus_write throws a (w AND mask (8 * n)) n s e = (s, e') \<and>
    ram_bytes (e_plat e') = write_int (unat a) n (uint w) (ram_bytes (e_plat e)) \<and> same_devices (e_plat e) (e_plat e') \<and>
    e_stop e' = None \<and> mem_fault e' = mem_fault e"
proof -
  have m: "ram_mapped (unat a) n" using assms(3) by (simp add: accessible_def)
  obtain e' where e': "bus_write throws a (w AND mask (8 * n)) n s e = (s, e')" "e_stop e' = None"
    "\<forall>x. ram_bytes (e_plat e') x = (if unat a \<le> x \<and> x < unat a + n then le_bytes 4 (w AND mask (8 * n)) ! (x - unat a)
      else ram_bytes (e_plat e) x)"
    using bus_write_ram [OF assms(1,2,4) m, of throws "w AND mask (8 * n)"] unfolding ram_byte_bytes by blast
  have "ram_bytes (e_plat e') = write_int (unat a) n (uint w) (ram_bytes (e_plat e))"
  proof (rule ext)
    have "n \<le> 4" using assms(4) by (auto simp: access_width_def)
    then show "ram_bytes (e_plat e') x = write_int (unat a) n (uint w) (ram_bytes (e_plat e)) x" for x
      using e'(3) stored_byte [of "x - unat a" n w] by (auto simp: write_int_def)
  qed
  moreover have "same_devices (e_plat e) (e_plat e')"
    using bus_write_memory [OF assms(1,2,4), of a "w AND mask (8 * n)" throws] m e'(1) same_devices_ram
    by (auto simp: ram_mapped_def)
  ultimately show ?thesis using e' bus_write_fault by blast
qed

lemma decode_encoding:
  assumes "encodes w a n"
  obtains raw q where "decode w = (asm_decoded a)\<lparr>d_raw := raw, d_compressed := q\<rparr>" and "instr_len (decode w) = n"
  using assms unfolding encodes_def
proof (elim disjE exE)
  assume *: "w = assemble a \<and> n = 4"
  have "d_compressed (asm_decoded a) = False" by (cases a) (simp_all add: DecodedInstr_init_def)
  with * have "decode w = (asm_decoded a)\<lparr>d_raw := w, d_compressed := False\<rparr>" by (simp add: decode_assemble_eq)
  then show thesis using * by (intro that) (simp_all add: instr_len_def)
next
  fix c and h :: u16
  assume *: "rvc_legal c \<and> a = rvc_expand c \<and> w = ucast (rvc_encode c) OR push_bit 16 (ucast h) \<and> n = 2"
  then have "decode w = (asm_decoded a)\<lparr>d_raw := ucast (rvc_encode c), d_compressed := True\<rparr>"
    by (simp add: decode_rvc_eq)
  then show thesis using * by (intro that) (simp_all add: instr_len_def)
qed

definition executes :: "bool \<Rightarrow> (tlb \<Rightarrow> u32) \<Rightarrow> DecodedInstr \<Rightarrow> CPUState \<Rightarrow> Env \<Rightarrow> machine \<Rightarrow> bool" where
  "executes throws b d s e = (\<lambda>(s', M'). \<exists>e'. execute (iss_mem throws b) d s e = (ExecResult_init, s', e') \<and>
     ram_bytes (e_plat e') = M' \<and> same_devices (e_plat e) (e_plat e') \<and> e_stop e' = None \<and> mem_fault e' = mem_fault e)"

lemma execute_load:
  assumes "machine_step (ASM_L p imm r1 r) (instr_len d) (s, ram_bytes (e_plat e)) = Some c"
    and "d = (asm_decoded (ASM_L p imm r1 r))\<lparr>d_raw := w, d_compressed := q\<rparr>"
    and "env_inv b s e" and "e_stop e = None" and "bare s"
  shows "executes throws b d s e c"
proof -
  define s0 where "s0 = s\<lparr>next_pc := pc s + instr_len d\<rparr>"
  define a where "a = data_address s r1 imm"
  define v where "v = read_int (ram_bytes (e_plat e)) (unat a) (l_width p)"
  have acc: "accessible a (l_width p)" and c: "c = (write_x r (word_of_int (l_sem p v)) (pc s + instr_len d) s, ram_bytes (e_plat e))"
    using assms(1) by (auto simp: a_def v_def Let_def split: if_splits)
  have "env_inv b s0 e" by (rule env_inv_lines [OF _ assms(3)]) (simp add: s0_def)
  moreover have "access_width (l_width p)" by (cases p) (simp_all add: access_width_def)
  ultimately obtain e' where e': "bus_read throws a (l_width p) s0 e = (word_of_int v, s0, e')" "e_plat e' = e_plat e"
    "e_stop e' = None" "mem_fault e' = mem_fault e"
    unfolding v_def using load_ram [OF _ assms(4) acc] by blast
  have "bare s0" using assms(5) by (simp add: bare_def s0_def)
  note rd = bare_mem(1) [OF this] e'(1)
  have addr: "get_reg s0 (d_rs1 d) + d_imm d = a"
    using assms(2) by (simp add: a_def data_address_def s0_def imm_words x_of_def)
  have wr: "set_reg (d_rd d) u s0 = write_x r u (pc s + instr_len d) s" for u
    using assms(2) by (simp add: s0_def set_reg_ucast)
  have bounds: "0 \<le> v" "v < 256 ^ l_width p" using read_int_bounds by (simp_all add: v_def)
  have ty: "d_type d = fst (l_code p)" using assms(2) by simp
  from l_sem_word [OF bounds] have "execute (iss_mem throws b) d s e = (ExecResult_init, fst c, e')"
    using acc ty rd
    by (cases p) (simp_all add: execute_def Let_def s0_def [symmetric] exec_load_def addr set_rd_def exec_done_def wr c
        accessible_def aligned_mask)
  with e' c show ?thesis by (simp add: executes_def)
qed

lemma execute_store:
  assumes "machine_step (ASM_S p imm r2 r1) (instr_len d) (s, ram_bytes (e_plat e)) = Some c"
    and "d = (asm_decoded (ASM_S p imm r2 r1))\<lparr>d_raw := w, d_compressed := q\<rparr>"
    and "env_inv b s e" and "e_stop e = None" and "bare s"
  shows "executes throws b d s e c"
proof -
  define s0 where "s0 = s\<lparr>next_pc := pc s + instr_len d\<rparr>"
  define a where "a = data_address s r1 imm"
  define v where "v = x_of s r2 AND mask (8 * s_width p)"
  have acc: "accessible a (s_width p)" and c: "c = (s0\<lparr>lr_sc := reservation_clear (lr_sc s0)\<rparr>,
      write_int (unat a) (s_width p) (uint (x_of s r2)) (ram_bytes (e_plat e)))"
    using assms(1) by (auto simp: a_def s0_def Let_def split: if_splits)
  have "env_inv b s0 e" by (rule env_inv_lines [OF _ assms(3)]) (simp add: s0_def)
  moreover have "access_width (s_width p)" by (cases p) (simp_all add: access_width_def)
  ultimately obtain e' where e': "bus_write throws a v (s_width p) s0 e = (s0, e')" "ram_bytes (e_plat e') = snd c"
    "same_devices (e_plat e) (e_plat e')" "e_stop e' = None" "mem_fault e' = mem_fault e"
    unfolding v_def c snd_conv using store_ram [OF _ assms(4) acc] by blast
  have "bare s0" using assms(5) by (simp add: bare_def s0_def)
  note wr = bare_mem(2) [OF this] e'(1)
  have addr: "get_reg s0 (d_rs1 d) + d_imm d = a"
    using assms(2) by (simp add: a_def data_address_def s0_def imm_words x_of_def)
  have val: "get_reg s (d_rs2 d) = x_of s r2" using assms(2) by simp
  have ty: "d_type d = fst (s_code p)" using assms(2) by simp
  have "(mask 32 :: u32) = - 1" by (simp add: mask_eq_exp_minus_1)
  then have "v = (case p of S_SB \<Rightarrow> x_of s r2 AND 0xFF | S_SH \<Rightarrow> x_of s r2 AND 0xFFFF | S_SW \<Rightarrow> x_of s r2)"
    by (cases p) (simp_all add: v_def, simp_all add: mask_eq_exp_minus_1)
  then have "execute (iss_mem throws b) d s e = (ExecResult_init, fst c, e')"
    using acc ty wr
    by (cases p) (simp_all add: execute_def Let_def s0_def [symmetric] exec_store_def addr val exec_done_def c
        accessible_def aligned_mask)
  with e' show ?thesis by (cases c) (simp add: executes_def)
qed

lemma machine_step_cases:
  assumes "machine_step a n (s, M) = Some c"
  obtains (load) p imm r1 r where "a = ASM_L p imm r1 r"
  | (store) p imm r2 r1 where "a = ASM_S p imm r2 r1"
  | (compute) s' where "asm_step a n s = Some s'" "c = (s', M)"
  using assms by (cases "(a, n, s, M)" rule: machine_step.cases) auto

lemma execute_machine_step:
  assumes "machine_step a n (s, ram_bytes (e_plat e)) = Some c" and "encodes w a n"
    and "env_inv b s e" and "e_stop e = None" and "bare s"
  shows "executes throws b (decode w) s e c"
proof -
  obtain raw q where d: "decode w = (asm_decoded a)\<lparr>d_raw := raw, d_compressed := q\<rparr>" "instr_len (decode w) = n"
    using decode_encoding [OF assms(2)] .
  note step = assms(1) [folded d(2)]
  from step show ?thesis
  proof (cases rule: machine_step_cases)
    case (load p imm r1 r)
    from execute_load [OF step [unfolded load] d(1) [unfolded load] assms(3-5)] show ?thesis .
  next
    case (store p imm r2 r1)
    from execute_store [OF step [unfolded store] d(1) [unfolded store] assms(3-5)] show ?thesis .
  next
    case (compute s')
    from execute_computational [OF compute(1) d(1), where m = "iss_mem throws b" and e = e] compute(2) assms(4) show ?thesis
      by (simp add: executes_def)
  qed
qed

section \<open>Programs\<close>

text \<open>A hart without translation and with nothing to interrupt it, running freely.\<close>

definition undisturbed :: "ISS \<Rightarrow> bool" where
  "undisturbed I = (bare (cpu I) \<and> check_pending_interrupts (cpu I) = 0 \<and> \<not> halted I \<and> \<not> single_step I)"

fun iss_steps :: "bool \<Rightarrow> (tlb \<Rightarrow> u32) \<Rightarrow> nat \<Rightarrow> ISS \<Rightarrow> stop + ISS" where
  "iss_steps throws b 0 I = Inr I"
| "iss_steps throws b (Suc k) I = (case iss_step throws b I of Inl x \<Rightarrow> Inl x | Inr I' \<Rightarrow> iss_steps throws b k I')"

definition machine_of :: "ISS \<Rightarrow> machine" where
  "machine_of I = (cpu I, ram_bytes (e_plat (env I)))"

lemma machine_step_next_pc:
  "machine_step a n (s\<lparr>next_pc := x\<rparr>, M) = machine_step a n (s, M)"
proof -
  have "asm_step a n (s\<lparr>next_pc := x\<rparr>) = asm_step a n s" for a
    by (cases "(a, n, s)" rule: asm_step.cases) (simp_all add: write_x_def x_of_def)
  then show ?thesis
    by (cases "(a, n, s, M)" rule: machine_step.cases) (simp_all add: write_x_def x_of_def data_address_def Let_def)
qed

lemma machine_step_context:
  assumes "machine_step a n (s, M) = Some (s', M')"
  shows "csr s' = csr s" and "priv s' = priv s"
proof -
  have "csr s1 = csr s \<and> priv s1 = priv s" if "asm_step a n s = Some s1" for s1
    using that by (cases "(a, n, s)" rule: asm_step.cases) (auto simp: write_x_def)
  with assms show "csr s' = csr s" "priv s' = priv s"
    by (cases "(a, n, s, M)" rule: machine_step.cases; auto simp: write_x_def Let_def split: if_splits)+
qed

lemma retire_context:
  assumes "csr s' = csr s" and "priv s' = priv s"
  shows "check_pending_interrupts (retire s') = check_pending_interrupts s" and "bare (retire s') = bare s"
  using assms
  by (simp_all add: retire_def check_pending_interrupts_def get_mip_def bare_def inc_mcycle_def inc_minstret_def Let_def)

lemma fetch:
  assumes "iss_inv b I" and "undisturbed I" and "ram_mapped (unat (pc (cpu I))) 4"
  shows "\<exists>e. iss_step throws b I =
      iss_execute throws b (word_of_int (read_int (ram_bytes (e_plat (env I))) (unat (pc (cpu I))) 4)) (I\<lparr>env := e\<rparr>) \<and>
    e_plat e = e_plat (env I) \<and> e_stop e = None \<and> env_inv b (cpu I) e"
proof -
  have i: "env_inv b (cpu I) (env I)" "e_stop (env I) = None" "even (pc (cpu I))"
    using assms(1) by (simp_all add: iss_inv_def)
  have "access_width 4" by (simp add: access_width_def)
  from bus_read_ram [OF i(1,2) this assms(3), of throws, unfolded ram_byte_bytes le_word_read_int]
  obtain e where e: "bus_read throws (pc (cpu I)) 4 (cpu I) (env I) =
      (word_of_int (read_int (ram_bytes (e_plat (env I))) (unat (pc (cpu I))) 4), cpu I, e)"
      "e_plat e = e_plat (env I)" "e_stop e = None"
    by blast
  have "pc (cpu I) AND 1 = 0" using i(3) by (simp add: and_one_eq even_iff_mod_2_eq_zero)
  then have "iss_step throws b I = iss_fetch_execute throws b (pc (cpu I)) I"
    using assms(2) by (simp add: iss_step_def undisturbed_def bare_def mmu_active_fetch_def Let_def)
  with e bus_read_inv [OF e(1) i(1)] show ?thesis by (intro exI [of _ e]) (simp add: iss_fetch_execute_def)
qed

lemma iss_step_machine:
  assumes "iss_inv b I" and "undisturbed I" and "ram_mapped (unat (pc (cpu I))) 4"
    and "encodes (word_of_int (read_int (ram_bytes (e_plat (env I))) (unat (pc (cpu I))) 4)) a n"
    and "machine_step a n (machine_of I) = Some (s', M')"
  obtains I' where "iss_step throws b I = Inr I'" and "machine_of I' = (retire s', M')"
    and "same_devices (e_plat (env I)) (e_plat (env I'))" and "insn_count I' = insn_count I + 1"
    and "iss_inv b I'" and "undisturbed I'" and "stop_on_ebreak I' = stop_on_ebreak I"
proof -
  obtain e where f: "iss_step throws b I =
      iss_execute throws b (word_of_int (read_int (ram_bytes (e_plat (env I))) (unat (pc (cpu I))) 4)) (I\<lparr>env := e\<rparr>)"
    "e_plat e = e_plat (env I)" "e_stop e = None" "env_inv b (cpu I) e"
    using fetch [OF assms(1-3)] by blast
  let ?w = "word_of_int (read_int (ram_bytes (e_plat (env I))) (unat (pc (cpu I))) 4) :: u32"
  define s1 where "s1 = (cpu I)\<lparr>next_pc := pc (cpu I) + instr_len (decode ?w)\<rparr>"
  define e1 where "e1 = e\<lparr>mem_fault := False\<rparr>"
  have "machine_step a n (s1, ram_bytes (e_plat e1)) = Some (s', M')"
    using assms(5) f(2) by (simp add: s1_def e1_def machine_of_def machine_step_next_pc)
  moreover have "env_inv b s1 e1"
  proof (rule env_inv_lines)
    show "env_inv b (cpu I) e1" using f(4) by (simp add: e1_def env_inv_def dmi_ok_def)
  qed (simp add: s1_def)
  moreover have "e_stop e1 = None" "bare s1" using f(3) assms(2) by (simp_all add: e1_def s1_def undisturbed_def bare_def)
  ultimately have "executes throws b (decode ?w) s1 e1 (s', M')" using execute_machine_step assms(4) by blast
  then obtain e2 where x: "execute (iss_mem throws b) (decode ?w) s1 e1 = (ExecResult_init, s', e2)"
    "ram_bytes (e_plat e2) = M'" "same_devices (e_plat (env I)) (e_plat e2)" "e_stop e2 = None" "\<not> mem_fault e2"
    using f(2) by (auto simp: executes_def e1_def)
  have run: "\<not> single_step I" "\<not> halted I" using assms(2) by (simp_all add: undisturbed_def)
  define I' where "I' = I\<lparr>env := e, cpu := s', env := e2, insn_count := insn_count I + 1, cpu := retire s', env := e2\<rparr>"
  have "iss_step throws b I = Inr I'"
    unfolding f(1) iss_execute_def Let_def using x(1,4,5) run(1)
    by (simp add: s1_def [symmetric] e1_def [symmetric] iss_retire_def Let_def retire_def I'_def ExecResult_init_def)
  moreover have "undisturbed I'"
    using assms(2) run retire_context machine_step_context [of a n "cpu I" _ s' M'] assms(5)
    by (simp add: undisturbed_def I'_def machine_of_def)
  ultimately show thesis
    using iss_step_inv [OF _ assms(1)] x(2,3) by (intro that [of I']) (simp_all add: I'_def machine_of_def)
qed

lemma iss_steps_machine:
  assumes "iss_inv b I" and "undisturbed I" and "machine_run k (machine_of I) c"
  shows "\<exists>I'. iss_steps throws b k I = Inr I' \<and> machine_of I' = c \<and> same_devices (e_plat (env I)) (e_plat (env I')) \<and>
    insn_count I' = insn_count I + of_nat k \<and> iss_inv b I' \<and> undisturbed I' \<and> stop_on_ebreak I' = stop_on_ebreak I"
  using assms
proof (induction k arbitrary: I)
  case (Suc k)
  from Suc.prems(3) obtain a n s' M' where
    st: "ram_mapped (unat (pc (cpu I))) 4" "encodes (word_of_int (read_int (ram_bytes (e_plat (env I))) (unat (pc (cpu I))) 4)) a n"
      "machine_step a n (machine_of I) = Some (s', M')" "machine_run k (retire s', M') c"
    unfolding machine_of_def by (auto elim: machine_run_Suc)
  obtain I1 where I1: "iss_step throws b I = Inr I1" "machine_of I1 = (retire s', M')"
    "same_devices (e_plat (env I)) (e_plat (env I1))" "insn_count I1 = insn_count I + 1" "iss_inv b I1" "undisturbed I1"
    "stop_on_ebreak I1 = stop_on_ebreak I"
    by (rule iss_step_machine [OF Suc.prems(1,2) st(1-3)])
  from Suc.IH [OF I1(5,6)] st(4) I1 show ?case by (auto simp: algebra_simps intro: same_devices_trans)
qed (auto elim: machine_run_0)

text \<open>
  C5. The platform runs programs as the reference machine does. Take a well-formed simulator
  without address translation and with no interrupt to take, in any privilege mode. If the
  reference machine, whose memory is the bytes of RAM, can make \<open>k\<close> steps from the simulator's hart
  and RAM, fetching each instruction, 32-bit or compressed, from that memory (computational
  instructions, and loads and stores of aligned RAM, which may change the program), then \<open>k\<close>
  iterations of the simulator end without an error in exactly the same hart and RAM, with every
  device untouched and \<open>k\<close> more instructions counted.
\<close>

theorem iss_runs_program:
  assumes "iss_inv b I" and "undisturbed I" and "machine_run k (machine_of I) c"
  shows "\<exists>I'. iss_steps throws b k I = Inr I' \<and> machine_of I' = c \<and> same_devices (e_plat (env I)) (e_plat (env I')) \<and>
    insn_count I' = insn_count I + of_nat k"
  using iss_steps_machine [OF assms] by blast

section \<open>An example\<close>

text \<open>Running a list of assembled instructions, for concrete programs.\<close>

fun code_run :: "asm list \<Rightarrow> machine \<Rightarrow> machine option" where
  "code_run [] c = Some c"
| "code_run (a # as) (s, M) =
     (if ram_mapped (unat (pc s)) 4 \<and> word_of_int (read_int M (unat (pc s)) 4) = assemble a
      then case machine_step a 4 (s, M) of None \<Rightarrow> None | Some (s', M') \<Rightarrow> code_run as (retire s', M') else None)"

lemma code_run_machine: "code_run as c = Some c' \<Longrightarrow> machine_run (length as) c c'"
proof (induction as c rule: code_run.induct)
  case (2 a as s M)
  then obtain s' M' where "machine_step a 4 (s, M) = Some (s', M')" "ram_mapped (unat (pc s)) 4"
    "word_of_int (read_int M (unat (pc s)) 4) = assemble a" "code_run as (retire s', M') = Some c'"
    by (auto split: if_splits option.splits)
  moreover from this "2.IH" have "machine_run (length as) (retire s', M') c'" by blast
  ultimately show ?case by (auto intro!: machine_run.step simp: encodes_def)
qed (simp add: machine_run.stop)

lemma read_int_write:
  "a + n \<le> b \<or> b + m \<le> a \<Longrightarrow> read_int (write_int b m v M) a n = read_int M a n"
  by (induction n arbitrary: a) (auto simp: write_int_def)

text \<open>A platform with the given words at the start of RAM.\<close>

definition with_program :: "u32 list \<Rightarrow> Plat" where
  "with_program ws = Plat_new\<lparr>ram := (ram Plat_new)\<lparr>m_data :=
     concat (map (le_bytes 4) ws) @ replicate (0x08000000 - 4 * length ws) 0\<rparr>\<rparr>"

lemma length_program [simp]: "length (concat (map (le_bytes 4) ws)) = 4 * length ws"
  by (induction ws) simp_all

lemma program_word:
  assumes "k < length ws" and "4 * length ws \<le> 0x08000000"
  shows "word_of_int (read_int (ram_bytes (with_program ws)) (0x80000000 + 4 * k) 4) = ws ! k"
proof -
  have at: "take 4 (drop (4 * k) (concat (map (le_bytes 4) ws) @ rest)) = le_bytes 4 (ws ! k)" for rest
    using assms(1)
  proof (induction ws arbitrary: k)
    case (Cons w ws)
    then show ?case by (cases k) simp_all
  qed simp
  let ?d = "m_data (ram (with_program ws))"
  have d: "take 4 (drop (4 * k) ?d) = le_bytes 4 (ws ! k)"
    using at by (simp add: with_program_def del: take_append drop_append)
  have "ram_bytes (with_program ws) (0x80000000 + 4 * k + i) = take 4 (drop (4 * k) ?d) ! i" if "i < 4" for i
    using assms that by (simp add: ram_bytes_def ram_byte_def add.assoc with_program_def nth_append)
  then have "map (\<lambda>i. ram_bytes (with_program ws) (0x80000000 + 4 * k + i)) [0..<4] = map (nth (take 4 (drop (4 * k) ?d))) [0..<4]"
    by (intro map_cong refl) simp
  also have "\<dots> = le_bytes 4 (ws ! k)"
    using map_nth [of "le_bytes 4 (ws ! k)"] by (simp only: length_le_bytes d)
  finally show ?thesis using le_word_read_int [of "ram_bytes (with_program ws)" "0x80000000 + 4 * k" 4] by simp
qed

lemma program_start:
  assumes "4 * length ws \<le> 0x08000000"
  shows "iss_inv b (iss_start RAM_BASE (CPUState_init, with_program ws))"
    and "undisturbed (iss_start RAM_BASE (CPUState_init, with_program ws))"
proof -
  have "soc_inv (CPUState_init\<lparr>pc := RAM_BASE\<rparr>, with_program ws)"
    using soc_inv_new assms
    by (simp add: soc_inv_def plat_inv_def lines_exact_def memory_ok_def with_program_def Plat_new_def Memory_new_def)
  moreover have "cpu_inv (CPUState_init\<lparr>pc := RAM_BASE\<rparr>)" using cpu_inv_init by simp
  ultimately show "iss_inv b (iss_start RAM_BASE (CPUState_init, with_program ws))"
    by (simp add: iss_inv_def iss_start_def Env_new_def env_inv_def dmi_ok_def tlb_inv_def)
  show "undisturbed (iss_start RAM_BASE (CPUState_init, with_program ws))"
    by (simp add: undisturbed_def iss_start_def bare_def check_pending_interrupts_def CPUState_init_def CSRFile_init_def)
qed

text \<open>A program that stores a word in RAM and loads its low byte again.\<close>

definition demo_code :: "asm list" where
  "demo_code = [ASM_I II_ADDI 42 0 1, ASM_U U_LUI 0x80000 4, ASM_S S_SW 256 1 4, ASM_L L_LB 256 4 5]"

definition demo_iss :: ISS where
  "demo_iss = iss_start RAM_BASE (CPUState_init, with_program (map assemble demo_code))"

lemma demo_words:
  "word_of_int (read_int (ram_bytes (with_program (map assemble demo_code))) 0x80000000 4) = assemble (ASM_I II_ADDI 42 0 1)"
  "word_of_int (read_int (ram_bytes (with_program (map assemble demo_code))) 0x80000004 4) = assemble (ASM_U U_LUI 0x80000 4)"
  "word_of_int (read_int (ram_bytes (with_program (map assemble demo_code))) 0x80000008 4) = assemble (ASM_S S_SW 256 1 4)"
  "word_of_int (read_int (ram_bytes (with_program (map assemble demo_code))) 0x8000000C 4) = assemble (ASM_L L_LB 256 4 5)"
  using program_word [of 0 "map assemble demo_code"] program_word [of 1 "map assemble demo_code"]
    program_word [of 2 "map assemble demo_code"] program_word [of 3 "map assemble demo_code"]
  unfolding demo_code_def by (simp_all del: assemble.simps)

lemmas run_defs = machine_of_def iss_start_def Env_new_def ram_mapped_def CPUState_init_def write_x_def x_of_def retire_def
  accessible_def data_address_def Let_def

lemma demo_runs:
  "\<exists>s M. code_run demo_code (machine_of demo_iss) = Some (s, M) \<and> regs s ! 5 = 42 \<and> M 0x80000100 = 42 \<and> pc s = 0x80000010"
  using demo_words unfolding demo_iss_def
  by (simp add: run_defs demo_code_def read_int_write write_int_def del: assemble.simps)

theorem iss_runs_program_witness:
  "\<exists>I'. iss_steps True (\<lambda>t. 0) 4 demo_iss = Inr I' \<and> regs (cpu I') ! 5 = 42 \<and> ram_bytes (e_plat (env I')) 0x80000100 = 42 \<and>
    pc (cpu I') = 0x80000010 \<and> insn_count I' = 4"
proof -
  obtain s M where r: "code_run demo_code (machine_of demo_iss) = Some (s, M)" "regs s ! 5 = 42" "M 0x80000100 = 42" "pc s = 0x80000010"
    using demo_runs by blast
  have l: "length demo_code = 4" by (simp add: demo_code_def)
  then have ok: "iss_inv (\<lambda>t. 0) demo_iss" "undisturbed demo_iss" unfolding demo_iss_def by (simp_all add: program_start)
  from code_run_machine [OF r(1)] l have "machine_run 4 (machine_of demo_iss) (s, M)" by simp
  from iss_runs_program [OF ok this, of True] r(2-4) show ?thesis
    by (auto simp: machine_of_def demo_iss_def iss_start_def)
qed

end
