(* ===== verification/Self_Test_CPU.thy ===== *)
theory Self_Test_CPU
  imports Execute_Spec Trap MMU
begin

text \<open>
  The unit tests of \<open>src/src/main.cpp\<close> for the processor core, steps 3 to 8, run on the model.
  A step is the list of its checks, each with the name the source prints and the condition it
  tests; \<open>check\<close> counts a pass or a failure, so a step passes if every condition holds.
\<close>

unbundle bit_operations_syntax

type_synonym checks = "(string \<times> bool) list"

definition passed :: "checks \<Rightarrow> bool" where "passed cs = list_all snd cs"

section \<open>Steps 3 and 4: fields and decoder\<close>

definition step3_rv32_defs :: checks where
  "step3_rv32_defs =
    [(''imm_i extracts 42'', imm_i(0x02A00293) = 42),
     (''imm_i sign-extends -1'', imm_i(0xFFF00293) = -1),
     (''rd extracts x5'', rd(0x02A00293) = 5),
     (''rs1 extracts x1'', rs1(0x002081B3) = 1),
     (''rs2 extracts x2'', rs2(0x002081B3) = 2),
     (''opcode extracts OP_IMM'', opcode(0x02A00293) = OP_IMM),
     (''funct3 extracts ADD'', funct3(0x002081B3) = F3_ADD_SUB),
     (''funct7 extracts ALT (SUB)'', funct7(0x402081B3) = F7_ALT),
     (''imm_u extracts upper'', imm_u(0x123450B7) = 0x12345000),
     (''imm_b extracts +8'', imm_b(0x00208463) = 8)]"

definition step4_decoder_base :: checks where
  "step4_decoder_base =
    [(''LUI type'', let d = decode 0x123450B7 in d_type d = I_LUI),
     (''LUI rd=x1'', let d = decode 0x123450B7 in d_rd d = 1),
     (''LUI imm=0x12345000'', let d = decode 0x123450B7 in d_imm d = 0x12345000),
     (''ADDI type'', let d = decode 0x02A00293 in d_type d = I_ADDI),
     (''ADDI operands'', let d = decode 0x02A00293 in d_rd d = 5 \<and> d_rs1 d = 0 \<and> d_imm d = 42),
     (''ADDI imm=-1 (sign extend)'', d_imm (decode 0xFFF00293) = -1),
     (''ADD type'', let d = decode 0x002081B3 in d_type d = I_ADD),
     (''ADD operands'', let d = decode 0x002081B3 in d_rd d = 3 \<and> d_rs1 d = 1 \<and> d_rs2 d = 2),
     (''SUB type'', d_type (decode 0x402081B3) = I_SUB),
     (''BEQ type'', let d = decode 0x00208463 in d_type d = I_BEQ),
     (''BEQ operands'', let d = decode 0x00208463 in d_rs1 d = 1 \<and> d_rs2 d = 2 \<and> d_imm d = 8),
     (''LW type'', let d = decode 0x0005A503 in d_type d = I_LW),
     (''LW operands'', let d = decode 0x0005A503 in d_rd d = 10 \<and> d_rs1 d = 11 \<and> d_imm d = 0),
     (''SW type'', let d = decode 0x00A5A223 in d_type d = I_SW),
     (''SW operands'', let d = decode 0x00A5A223 in d_rs1 d = 11 \<and> d_rs2 d = 10 \<and> d_imm d = 4),
     (''JAL type'', let d = decode 0x000000EF in d_type d = I_JAL),
     (''JAL operands'', let d = decode 0x000000EF in d_rd d = 1 \<and> d_imm d = 0),
     (''JALR type'', let d = decode 0x000280E7 in d_type d = I_JALR),
     (''JALR operands'', let d = decode 0x000280E7 in d_rd d = 1 \<and> d_rs1 d = 5),
     (''ECALL type'', d_type (decode 0x00000073) = I_ECALL),
     (''EBREAK type'', d_type (decode 0x00100073) = I_EBREAK),
     (''MRET type'', d_type (decode 0x30200073) = I_MRET),
     (''CSRRW type'', let d = decode 0x300110F3 in d_type d = I_CSRRW),
     (''CSRRW operands'', let d = decode 0x300110F3 in d_rd d = 1 \<and> d_rs1 d = 2 \<and> d_csr d = 0x300),
     (''MUL type'', let d = decode 0x022081B3 in d_type d = I_MUL),
     (''MUL operands'', let d = decode 0x022081B3 in d_rd d = 3 \<and> d_rs1 d = 1 \<and> d_rs2 d = 2),
     (''DIV type'', d_type (decode 0x0220C1B3) = I_DIV),
     (''LR.W type'', let d = decode 0x1005A52F in d_type d = I_LR_W),
     (''LR.W operands'', let d = decode 0x1005A52F in d_rd d = 10 \<and> d_rs1 d = 11),
     (''FENCE type'', d_type (decode 0x0FF0000F) = I_FENCE),
     (''NOP type'', let d = decode 0x00000013 in d_type d = I_ADDI),
     (''NOP fields'', let d = decode 0x00000013 in d_rd d = 0 \<and> d_rs1 d = 0 \<and> d_imm d = 0),
     (''NOP 32-bit'', let d = decode 0x00000013 in \<not> d_compressed d \<and> instr_len d = 4),
     (''All-zeros is ILLEGAL'', d_type (decode 0x00000000) = I_ILLEGAL),
     (''C.NOP type'', let d = decode 0x0001 in d_type d = I_ADDI),
     (''C.NOP compressed/len'', let d = decode 0x0001 in d_compressed d \<and> instr_len d = 2),
     (''C.LI x10,5'', let d = decode 0x4515 in d_type d = I_ADDI \<and> d_rd d = 10 \<and> d_imm d = 5),
     (''C.LI compressed'', let d = decode 0x4515 in d_compressed d),
     (''C.MV compressed'', d_type (decode 0x856E) = I_ADD \<and> d_compressed (decode 0x856E)),
     (''C.EBREAK compressed'', d_type (decode 0x9002) = I_EBREAK \<and> d_compressed (decode 0x9002)),
     (''C.LWSP x10,0(sp)'', let d = decode 0x4502 in d_type d = I_LW \<and> d_rd d = 10 \<and> d_rs1 d = 2),
     (''C.LWSP compressed'', let d = decode 0x4502 in d_compressed d)]"

definition step4_decoder_rvc :: checks where
  "step4_decoder_rvc =
    [(''C.ADDI4SPN nzuimm=8'', let d = decode 0x0020 in d_type d = I_ADDI \<and> d_rd d = 8 \<and> d_rs1 d = 2 \<and> d_imm d = 8),
     (''C.ADDI4SPN nzuimm=1020 (max)'', let d = decode 0x1FE0 in d_type d = I_ADDI \<and> d_rd d = 8 \<and> d_imm d = 1020),
     (''C.ADDI4SPN nzuimm=256 (tests upper bits)'', let d = decode 0x0200 in d_type d = I_ADDI \<and> d_imm d = 256),
     (''C.LW x8,0(x8)'', let d = decode 0x4000 in d_type d = I_LW \<and> d_rd d = 8 \<and> d_rs1 d = 8 \<and> d_imm d = 0),
     (''C.LW offset=124'', let d = decode 0x5C60 in d_type d = I_LW \<and> d_imm d = 124),
     (''C.SW x9,0(x8)'', let d = decode 0xC004 in d_type d = I_SW \<and> d_rs1 d = 8 \<and> d_rs2 d = 9),
     (''C.ADDI x1,-1'', let d = decode 0x10FD in d_type d = I_ADDI \<and> d_rd d = 1 \<and> d_rs1 d = 1 \<and> d_imm d = -1),
     (''C.JAL decodes to JAL x1'', let d = decode 0x2001 in d_type d = I_JAL \<and> d_rd d = 1),
     (''C.JAL compressed'', let d = decode 0x2001 in d_compressed d),
     (''C.J decodes to JAL x0'', let d = decode 0xA001 in d_type d = I_JAL \<and> d_rd d = 0),
     (''C.J compressed'', let d = decode 0xA001 in d_compressed d),
     (''C.BEQZ x8'', let d = decode 0xC001 in d_type d = I_BEQ \<and> d_rs1 d = 8 \<and> d_rs2 d = 0),
     (''C.BEQZ compressed'', let d = decode 0xC001 in d_compressed d),
     (''C.BNEZ x9'', let d = decode 0xE081 in d_type d = I_BNE \<and> d_rs1 d = 9 \<and> d_rs2 d = 0),
     (''C.BNEZ compressed'', let d = decode 0xE081 in d_compressed d),
     (''C.SRLI x8,4'', let d = decode 0x8011 in d_type d = I_SRLI \<and> d_rd d = 8 \<and> d_rs1 d = 8 \<and> d_imm d = 4),
     (''C.SRAI x8,4'', let d = decode 0x8411 in d_type d = I_SRAI \<and> d_rd d = 8 \<and> d_rs1 d = 8 \<and> d_imm d = 4)]"

definition step4_decoder_rvc_alu :: checks where
  "step4_decoder_rvc_alu =
    [(''C.ANDI x8,0xF'', let d = decode 0x883D in d_type d = I_ANDI \<and> d_rd d = 8 \<and> d_imm d = 0xF),
     (''C.SUB x8,x9'', let d = decode 0x8C05 in d_type d = I_SUB \<and> d_rd d = 8 \<and> d_rs1 d = 8 \<and> d_rs2 d = 9),
     (''C.XOR x8,x9'', let d = decode 0x8C25 in d_type d = I_XOR \<and> d_rd d = 8 \<and> d_rs2 d = 9),
     (''C.OR x8,x9'', let d = decode 0x8C45 in d_type d = I_OR \<and> d_rd d = 8 \<and> d_rs2 d = 9),
     (''C.AND x8,x9'', let d = decode 0x8C65 in d_type d = I_AND \<and> d_rd d = 8 \<and> d_rs2 d = 9),
     (''C.SLLI x1,4'', let d = decode 0x0092 in d_type d = I_SLLI \<and> d_rd d = 1 \<and> d_rs1 d = 1 \<and> d_imm d = 4),
     (''C.JR x1 (ret)'', let d = decode 0x8082 in d_type d = I_JALR \<and> d_rd d = 0 \<and> d_rs1 d = 1),
     (''C.JR compressed'', let d = decode 0x8082 in d_compressed d),
     (''C.JALR x5'', let d = decode 0x9282 in d_type d = I_JALR \<and> d_rd d = 1 \<and> d_rs1 d = 5),
     (''C.SWSP x1,0(sp)'', let d = decode 0xC006 in d_type d = I_SW \<and> d_rs1 d = 2 \<and> d_rs2 d = 1),
     (''C.SWSP compressed'', let d = decode 0xC006 in d_compressed d),
     (''C.ADDI16SP nzimm=16'', let d = decode 0x6141 in d_type d = I_ADDI \<and> d_rd d = 2 \<and> d_rs1 d = 2 \<and> d_imm d = 16),
     (''C.LUI x1'', let d = decode 0x6085 in d_type d = I_LUI \<and> d_rd d = 1),
     (''C.LUI compressed'', let d = decode 0x6085 in d_compressed d),
     (''C.ADD x1,x2'', let d = decode 0x908A in d_type d = I_ADD \<and> d_rd d = 1 \<and> d_rs1 d = 1 \<and> d_rs2 d = 2)]"

section \<open>Step 5: CSR file\<close>

text \<open>\<open>csr.read\<close> into a variable and \<open>csr.write\<close> as statements: a refused access leaves the
  variable or the file as it was.\<close>

definition rd_csr :: "CSRFile \<Rightarrow> u16 \<Rightarrow> u8 \<Rightarrow> u32 \<Rightarrow> u32" where
  "rd_csr c addr p val = (case csr_read c addr p of Some v \<Rightarrow> v | None \<Rightarrow> val)"

definition wr_csr :: "CSRFile \<Rightarrow> u16 \<Rightarrow> u8 \<Rightarrow> u32 \<Rightarrow> CSRFile" where
  "wr_csr c addr p val = (case csr_write c addr p val of Some (c', cb) \<Rightarrow> c' | None \<Rightarrow> c)"

definition step5_csr :: checks where
  "step5_csr =
    (let c = CSRFile_init;
         val1 = rd_csr c CSR_MISA PRV_M 0;
         val2 = rd_csr c CSR_MVENDORID PRV_M val1;
         val3 = rd_csr c CSR_MHARTID PRV_M val2;
         c1 = wr_csr c CSR_MSTATUS PRV_M (MSTATUS_MIE OR MSTATUS_MPIE);
         val4 = rd_csr c1 CSR_MSTATUS PRV_M val3;
         c2 = wr_csr c1 CSR_MSTATUS PRV_M (push_bit 11 2);
         val5 = rd_csr c2 CSR_MSTATUS PRV_M val4;
         c3 = wr_csr c2 CSR_MSTATUS PRV_M (push_bit 11 3);
         val6 = rd_csr c3 CSR_MSTATUS PRV_M val5;
         c4 = wr_csr c3 CSR_MTVEC PRV_M 0x80000100;
         val7 = rd_csr c4 CSR_MTVEC PRV_M val6;
         c5 = wr_csr c4 CSR_MEPC PRV_M 0x80000005;
         val8 = rd_csr c5 CSR_MEPC PRV_M val7;
         c6 = wr_csr c5 CSR_MSCRATCH PRV_M 0xDEADBEEF;
         val9 = rd_csr c6 CSR_MSCRATCH PRV_M val8;
         c7 = set_mip_mtip True c6;
         c8 = set_mip_mtip False c7;
         c9 = set_mip_meip True c8;
         c10 = wr_csr c9 CSR_MIP PRV_M 0xFFFFFFFF;
         c11 = wr_csr c10 CSR_STVEC PRV_S 0x80001000;
         val10 = rd_csr c11 CSR_STVEC PRV_S val9;
         c12 = wr_csr c11 CSR_MSTATUS PRV_M (MSTATUS_SIE OR MSTATUS_MIE);
         val11 = rd_csr c12 CSR_SSTATUS PRV_S val10;
         c13 = inc_minstret (inc_mcycle (inc_mcycle c12));
         val12 = rd_csr c13 CSR_MCYCLE PRV_M val11;
         val13 = rd_csr c13 CSR_MINSTRET PRV_M val12;
         flushed = (case csr_write c13 CSR_SATP PRV_S 0x80012345 of Some (c', cb) \<Rightarrow> cb | None \<Rightarrow> False);
         c14 = wr_csr c13 CSR_SATP PRV_S 0x80012345;
         val14 = rd_csr c14 CSR_SATP PRV_S val13
     in [(''misa = RV32IMACSU'', csr_read c CSR_MISA PRV_M \<noteq> None \<and> val1 = MISA_VALUE),
         (''mvendorid = 0'', val2 = 0),
         (''mhartid = 0'', val3 = 0),
         (''mstatus.MIE set'', val4 AND MSTATUS_MIE \<noteq> 0),
         (''mstatus.MPIE set'', val4 AND MSTATUS_MPIE \<noteq> 0),
         (''mstatus.MPP rejects illegal value 2'', drop_bit 11 val5 AND 0x3 \<noteq> 2),
         (''mstatus.MPP = M allowed'', drop_bit 11 val6 AND 0x3 = 3),
         (''mtvec write/read'', val7 = 0x80000100),
         (''mepc bit 0 cleared'', val8 = 0x80000004),
         (''mscratch write/read'', val9 = 0xDEADBEEF),
         (''mip.MTIP set by hardware'', get_mip c7 AND MIP_MTIP \<noteq> 0),
         (''mip.MTIP cleared'', get_mip c8 AND MIP_MTIP = 0),
         (''mip.MEIP set'', get_mip c9 AND MIP_MEIP \<noteq> 0),
         (''mip SSIP writable by software'', get_mip c10 AND MIP_SSIP \<noteq> 0),
         (''mip MSIP not writable by software'', get_mip c10 AND MIP_MSIP = 0),
         (''stvec write/read from S-mode'', val10 = 0x80001000),
         (''sstatus.SIE reflects mstatus'', val11 AND push_bit 1 1 \<noteq> 0),
         (''sstatus does not expose MIE'', val11 AND push_bit 3 1 = 0),
         (''S-mode cannot read mstatus'', csr_read c12 CSR_MSTATUS PRV_S = None),
         (''S-mode cannot read mtvec'', csr_read c12 CSR_MTVEC PRV_S = None),
         (''cannot write mvendorid'', csr_write c12 CSR_MVENDORID PRV_M 42 = None),
         (''mcycle incremented to 2'', val12 = 2),
         (''minstret incremented to 1'', val13 = 1),
         (''satp write triggers callback'', flushed),
         (''satp write/read'', val14 = 0x80012345)])"

section \<open>Step 6: execution\<close>

definition step6_arith :: checks where
  "step6_arith =
    [(''MUL 6*7=42'', mul 6 7 = 42),
     (''MUL -1*2=-2'', mul 0xFFFFFFFF 2 = 0xFFFFFFFE),
     (''MULH -2^31*2 upper'', mulh 0x80000000 2 = 0xFFFFFFFF),
     (''MULHU 0x80000000*2 upper=1'', mulhu 0x80000000 2 = 1),
     (''MULHSU -1*2 upper=-1'', mulhsu 0xFFFFFFFF 2 = 0xFFFFFFFF),
     (''DIV 42/7=6'', div_w 42 7 = 6),
     (''DIV by zero=-1'', div_w 42 0 = 0xFFFFFFFF),
     (''DIV overflow=-2^31'', div_w 0x80000000 0xFFFFFFFF = 0x80000000),
     (''DIVU 42/7=6'', divu 42 7 = 6),
     (''DIVU by zero=max'', divu 42 0 = 0xFFFFFFFF),
     (''REM 43 mod 7=1'', rem 43 7 = 1),
     (''REM by zero=dividend'', rem 43 0 = 43),
     (''REM overflow=0'', rem 0x80000000 0xFFFFFFFF = 0),
     (''REMU 43 mod 7=1'', remu 43 7 = 1),
     (''REMU by zero=dividend'', remu 43 0 = 43),
     (''AMO swap'', amo_swap 10 20 = 20),
     (''AMO add'', amo_add 10 20 = 30),
     (''AMO xor'', amo_xor 0xFF 0x0F = 0xF0),
     (''AMO and'', amo_and 0xFF 0x0F = 0x0F),
     (''AMO or'', amo_or 0xF0 0x0F = 0xFF),
     (''AMO min signed'', amo_min 5 (- 3) = - 3),
     (''AMO max signed'', amo_max 5 (- 3) = 5),
     (''AMO minu unsigned'', amo_minu 5 (- 3) = 5),
     (''AMO maxu unsigned'', amo_maxu 5 (- 3) = - 3)]"

text \<open>
  The test memory, a vector of 4096 bytes; every access of the tests is inside it. It is kept as
  the bytes stored so far, zero elsewhere.
\<close>

type_synonym tmem = "u32 \<Rightarrow> u8"

definition tmem_read :: "tmem \<Rightarrow> u32 \<Rightarrow> nat \<Rightarrow> u32" where
  "tmem_read m addr bytes = foldl (\<lambda>v i. v OR push_bit (i * 8) (ucast (m (addr + of_nat i)))) 0 [0..<bytes]"

definition tmem_write :: "u32 \<Rightarrow> u32 \<Rightarrow> nat \<Rightarrow> tmem \<Rightarrow> tmem" where
  "tmem_write addr data bytes m = foldl (\<lambda>m i. m(addr + of_nat i := ucast (drop_bit (i * 8) data AND 0xFF))) m [0..<bytes]"

definition test_mem :: "tmem MemIf" where
  "test_mem = \<lparr>mem_read = (\<lambda>a n s m. (tmem_read m a n, s, m)), mem_write = (\<lambda>a d n s m. (s, tmem_write a d n m)),
     on_satp_write = (\<lambda>s m. (s, m))\<rparr>"

text \<open>\<open>make_cpu\<close> with some registers set, and \<open>execute(s, decode(word))\<close>.\<close>

definition make_cpu :: "(nat \<times> u32) list \<Rightarrow> CPUState" where
  "make_cpu rs = CPUState_init\<lparr>regs := foldl (\<lambda>r (i, v). r[i := v]) (regs CPUState_init) rs\<rparr>"

definition run_word :: "u32 \<Rightarrow> CPUState \<Rightarrow> tmem \<Rightarrow> tmem exec" where
  "run_word w s m = execute test_mem (decode w) s m"

abbreviation (input) res :: "tmem exec \<Rightarrow> ExecResult" where "res x \<equiv> fst x"
abbreviation (input) st :: "tmem exec \<Rightarrow> CPUState" where "st x \<equiv> fst (snd x)"
abbreviation (input) mm :: "tmem exec \<Rightarrow> tmem" where "mm x \<equiv> snd (snd x)"

definition step6_alu :: "tmem \<Rightarrow> checks" where
  "step6_alu m =
    (let addi = run_word 0x02A00093 (make_cpu []) m;
         add = run_word 0x002081B3 (make_cpu [(1, 10), (2, 20)]) m;
         sub = run_word 0x402081B3 (make_cpu [(1, 50), (2, 8)]) m;
         lui = run_word 0x123450B7 (make_cpu []) m;
         auipc = run_word 0x00001097 ((make_cpu [])\<lparr>pc := 0x100\<rparr>) m;
         slt = run_word 0x0020A1B3 (make_cpu [(1, - 5), (2, 3)]) m;
         sltu = run_word 0x0020B1B3 (st slt) m;
         srli = run_word 0x0040D113 (make_cpu [(1, 0x80000000)]) m;
         srai = run_word 0x4040D193 (st srli) m
     in [(''exec ADDI x1=42'', \<not> exception (res addi) \<and> get_reg (st addi) 1 = 42),
         (''exec ADD 10+20=30'', get_reg (st add) 3 = 30),
         (''exec SUB 50-8=42'', get_reg (st sub) 3 = 42),
         (''exec LUI x1=0x12345000'', get_reg (st lui) 1 = 0x12345000),
         (''exec AUIPC pc+0x1000'', get_reg (st auipc) 1 = 0x1100),
         (''exec SLT -5<3=1'', get_reg (st slt) 3 = 1),
         (''exec SLTU 0xFFFFFFFB<3=0'', get_reg (st sltu) 3 = 0),
         (''exec SRLI >>4'', get_reg (st srli) 2 = 0x08000000),
         (''exec SRAI >>4 sign-ext'', get_reg (st srai) 3 = 0xF8000000)])"

definition step6_memory :: "tmem \<Rightarrow> checks \<times> tmem" where
  "step6_memory m =
    (let sw = run_word 0x0020A023 (make_cpu [(1, 0x100), (2, 0xDEADBEEF)]) m;
         lw = run_word 0x0000A183 (st sw) (mm sw);
         m1 = (mm lw)(0x200 := 0xFF);
         lb = run_word 0x00008183 (make_cpu [(1, 0x200)]) m1;
         lbu = run_word 0x0000C183 (st lb) (mm lb);
         mis = run_word 0x0000A183 (make_cpu [(1, 0x101)]) (mm lbu);
         s = (make_cpu [(1, 42), (2, 42)])\<lparr>pc := 0x1000\<rparr>;
         beq = run_word 0x00208463 s (mm mis);
         bne = run_word 0x00208463 ((st beq)\<lparr>regs := (regs (st beq))[2 := 99], pc := 0x1000\<rparr>) (mm beq);
         jal = run_word 0x008000EF ((make_cpu [])\<lparr>pc := 0x2000\<rparr>) (mm bne);
         jalr = run_word 0x000280E7 ((make_cpu [(5, 0x4000)])\<lparr>pc := 0x3000\<rparr>) (mm jal);
         x0 = run_word 0x02A00013 (make_cpu []) (mm jalr);
         mul' = run_word 0x022080B3 (make_cpu [(1, 6), (2, 7)]) (mm x0);
         div' = run_word 0x0220C1B3 (make_cpu [(1, 42), (2, 0)]) (mm mul')
     in ([(''exec SW stores to mem'', tmem_read (mm sw) 0x100 4 = 0xDEADBEEF),
          (''exec LW loads from mem'', get_reg (st lw) 3 = 0xDEADBEEF),
          (''exec LB sign-extends 0xFF=-1'', get_reg (st lb) 3 = - 1),
          (''exec LBU zero-extends 0xFF=255'', get_reg (st lbu) 3 = 255),
          (''exec LW misaligned exception'', exception (res mis) \<and> cause (res mis) = CAUSE_MISALIGNED_LOAD),
          (''exec BEQ taken'', next_pc (st beq) = 0x1008),
          (''exec BEQ not taken'', next_pc (st bne) = 0x1004),
          (''exec JAL link=pc+4'', get_reg (st jal) 1 = 0x2004),
          (''exec JAL target=pc+8'', next_pc (st jal) = 0x2008),
          (''exec JALR link=pc+4'', get_reg (st jalr) 1 = 0x3004),
          (''exec JALR target=x5'', next_pc (st jalr) = 0x4000),
          (''exec write to x0 ignored'', get_reg (st x0) 0 = 0),
          (''exec MUL 6*7=42'', get_reg (st mul') 1 = 42),
          (''exec DIV by zero=-1'', get_reg (st div') 3 = 0xFFFFFFFF)], mm div'))"

definition step6_atomic :: "tmem \<Rightarrow> checks \<times> tmem" where
  "step6_atomic m =
    (let m0 = tmem_write 0x300 0xAAAAAAAA 4 m;
         lr = run_word 0x1000A52F (make_cpu [(1, 0x300), (2, 0xBBBBBBBB)]) m0;
         sc = run_word 0x1820A5AF (st lr) (mm lr);
         m1 = tmem_write 0x300 0x11111111 4 (mm sc);
         sc2 = run_word 0x1820A5AF (make_cpu [(1, 0x300), (2, 0xCCCCCCCC)]) m1;
         m2 = tmem_write 0x400 100 4 (mm sc2);
         swap = run_word 0x0820A52F (make_cpu [(1, 0x400), (2, 200)]) m2;
         m3 = tmem_write 0x400 30 4 (mm swap);
         add = run_word 0x0020A52F (make_cpu [(1, 0x400), (2, 12)]) m3
     in ([(''exec LR.W loads value'', get_reg (st lr) 10 = 0xAAAAAAAA),
          (''exec LR.W sets reservation'', res_valid (lr_sc (st lr))),
          (''exec SC.W success=0'', get_reg (st sc) 11 = 0),
          (''exec SC.W wrote value'', tmem_read (mm sc) 0x300 4 = 0xBBBBBBBB),
          (''exec SC.W failure=1'', get_reg (st sc2) 11 = 1),
          (''exec SC.W did not write'', tmem_read (mm sc2) 0x300 4 = 0x11111111),
          (''exec AMOSWAP old=100'', get_reg (st swap) 10 = 100),
          (''exec AMOSWAP new=200'', tmem_read (mm swap) 0x400 4 = 200),
          (''exec AMOADD old=30'', get_reg (st add) 10 = 30),
          (''exec AMOADD new=42'', tmem_read (mm add) 0x400 4 = 42)], mm add))"

definition step6_system :: "tmem \<Rightarrow> checks" where
  "step6_system m =
    (let csrrw = run_word 0x30509173 (make_cpu [(1, 0x80000100)]) m;
         s = make_cpu [];
         csrrs = run_word 0x340020F3 (s\<lparr>csr := wr_csr (csr s) CSR_MSCRATCH PRV_M 0xDEADBEEF\<rparr>) m;
         ecall_m = run_word 0x00000073 (s\<lparr>priv := PRV_M\<rparr>) m;
         ecall_u = run_word 0x00000073 (s\<lparr>priv := PRV_U\<rparr>) m;
         ebreak = run_word 0x00100073 (s\<lparr>pc := 0x5000\<rparr>) m;
         mret = run_word 0x30200073 (s\<lparr>priv := PRV_M,
           csr := (csr s)\<lparr>mepc := 0x80000000, mstatus := MSTATUS_MPIE OR push_bit MSTATUS_MPP_SHIFT (ucast PRV_S)\<rparr>\<rparr>) m;
         illegal = run_word 0x00000000 s m;
         fence = run_word 0x0FF0000F s m
     in [(''exec CSRRW writes mtvec'', rd_csr (csr (st csrrw)) CSR_MTVEC PRV_M 0 = 0x80000100),
         (''exec CSRRS reads mscratch'', get_reg (st csrrs) 1 = 0xDEADBEEF),
         (''exec ECALL M-mode'', exception (res ecall_m) \<and> cause (res ecall_m) = CAUSE_ECALL_M),
         (''exec ECALL U-mode'', exception (res ecall_u) \<and> cause (res ecall_u) = CAUSE_ECALL_U),
         (''exec EBREAK'', exception (res ebreak) \<and> cause (res ebreak) = CAUSE_BREAKPOINT),
         (''exec MRET no exception'', \<not> exception (res mret)),
         (''exec MRET pc=mepc'', next_pc (st mret) = 0x80000000),
         (''exec MRET priv=S (from MPP)'', priv (st mret) = PRV_S),
         (''exec MRET restores MIE from MPIE'', mstatus (csr (st mret)) AND MSTATUS_MIE \<noteq> 0),
         (''exec ILLEGAL exception'', exception (res illegal) \<and> cause (res illegal) = CAUSE_ILLEGAL_INSTR),
         (''exec FENCE no-op'', \<not> exception (res fence))])"

definition step6_execute :: checks where
  "step6_execute =
    (let m = (\<lambda>a. 0); x = step6_memory m; y = step6_atomic (snd x)
     in step6_arith @ step6_alu m @ fst x @ fst y @ step6_system (snd y))"

section \<open>Step 7: traps\<close>

text \<open>\<open>make_cpu()\<close> with privilege, program counter and CSR fields set.\<close>

definition trap_cpu :: "u8 \<Rightarrow> u32 \<Rightarrow> (CSRFile \<Rightarrow> CSRFile) \<Rightarrow> CPUState" where
  "trap_cpu p a f = (make_cpu [])\<lparr>priv := p, pc := a, csr := f (csr (make_cpu []))\<rparr>"

definition step7_entry :: checks where
  "step7_entry =
    (let s1 = take_trap CAUSE_ECALL_U 0 (trap_cpu PRV_U 0x80001000 (\<lambda>c. c\<lparr>mtvec := 0x80000100, mstatus := MSTATUS_MIE\<rparr>));
         s2 = take_trap CAUSE_ILLEGAL_INSTR 0xDEADBEEF
                (trap_cpu PRV_S 0x80002000 (\<lambda>c. c\<lparr>mtvec := 0x80000200, mstatus := MSTATUS_MIE OR MSTATUS_SIE\<rparr>));
         s3 = take_trap CAUSE_ECALL_U 0
                (trap_cpu PRV_U 0x80003000 (\<lambda>c. c\<lparr>mtvec := 0x80000100, stvec := 0x80000400,
                   medeleg := push_bit (unat CAUSE_ECALL_U) 1, mstatus := MSTATUS_SIE\<rparr>));
         s4 = take_trap CAUSE_LOAD_PAGE_FAULT 0x1234
                (trap_cpu PRV_S 0x80004000 (\<lambda>c. c\<lparr>stvec := 0x80000500,
                   medeleg := push_bit (unat CAUSE_LOAD_PAGE_FAULT) 1, mstatus := MSTATUS_SIE\<rparr>));
         s5 = take_trap CAUSE_BREAKPOINT 0x80005000
                (trap_cpu PRV_M 0x80005000 (\<lambda>c. c\<lparr>mtvec := 0x80000100, stvec := 0x80000400,
                   medeleg := push_bit (unat CAUSE_BREAKPOINT) 1\<rparr>));
         s6 = take_trap IRQ_M_TIMER 0 (trap_cpu PRV_U 0x80006000 (\<lambda>c. c\<lparr>mtvec := 0x80000100 OR 1\<rparr>));
         s7 = take_trap CAUSE_ECALL_U 0 (trap_cpu PRV_U 0x80007000 (\<lambda>c. c\<lparr>mtvec := 0x80000100 OR 1\<rparr>))
     in [(''trap mepc = faulting pc'', mepc (csr s1) = 0x80001000),
         (''trap mcause = ECALL_U'', mcause (csr s1) = CAUSE_ECALL_U),
         (''trap mtval = 0'', mtval (csr s1) = 0),
         (''trap escalates to M-mode'', priv s1 = PRV_M),
         (''trap jumps to mtvec'', next_pc s1 = 0x80000100),
         (''trap clears MIE'', mstatus (csr s1) AND MSTATUS_MIE = 0),
         (''trap saves MIE to MPIE'', mstatus (csr s1) AND MSTATUS_MPIE \<noteq> 0),
         (''trap MPP = U'', drop_bit MSTATUS_MPP_SHIFT (mstatus (csr s1)) AND 0x3 = ucast PRV_U),
         (''trap S->M on non-delegated exception'', priv s2 = PRV_M),
         (''trap mepc from S-mode'', mepc (csr s2) = 0x80002000),
         (''trap mtval = bad instr'', mtval (csr s2) = 0xDEADBEEF),
         (''trap MPP = S'', drop_bit MSTATUS_MPP_SHIFT (mstatus (csr s2)) AND 0x3 = ucast PRV_S),
         (''delegated trap goes to S-mode'', priv s3 = PRV_S),
         (''delegated trap sepc'', sepc (csr s3) = 0x80003000),
         (''delegated trap scause'', scause (csr s3) = CAUSE_ECALL_U),
         (''delegated trap jumps to stvec'', next_pc s3 = 0x80000400),
         (''delegated trap clears SIE'', mstatus (csr s3) AND MSTATUS_SIE = 0),
         (''delegated trap saves SIE to SPIE'', mstatus (csr s3) AND MSTATUS_SPIE \<noteq> 0),
         (''delegated trap SPP = U'', mstatus (csr s3) AND MSTATUS_SPP = 0),
         (''S-mode delegated stays S-mode'', priv s4 = PRV_S),
         (''SPP = S when trap from S'', mstatus (csr s4) AND MSTATUS_SPP \<noteq> 0),
         (''stval = faulting addr'', stval (csr s4) = 0x1234),
         (''M-mode trap never delegates'', priv s5 = PRV_M),
         (''M-mode trap uses mtvec'', next_pc s5 = 0x80000100),
         (''vectored mtvec for timer IRQ'', next_pc s6 = 0x80000100 + 4 * 7),
         (''mcause has interrupt bit'', mcause (csr s6) = IRQ_M_TIMER),
         (''vectored mtvec uses base for exceptions'', next_pc s7 = 0x80000100)])"

definition step7_pending :: checks where
  "step7_pending =
    (let irq = (\<lambda>p f. check_pending_interrupts (trap_cpu p 0 f));
         s = trap_cpu PRV_U 0x80010000 (\<lambda>c. c\<lparr>mtvec := 0x80000100\<rparr>);
         x = run_word 0x00000073 s (\<lambda>a. 0);
         t = take_trap (cause (res x)) (tval (res x)) (st x)
     in [(''pending timer IRQ detected'',
           irq PRV_M (\<lambda>c. set_mip_mtip True (c\<lparr>mstatus := MSTATUS_MIE, mie := MIP_MTIP\<rparr>)) = IRQ_M_TIMER),
         (''no IRQ when MIE disabled in M-mode'', irq PRV_M (\<lambda>c. set_mip_mtip True (c\<lparr>mstatus := 0, mie := MIP_MTIP\<rparr>)) = 0),
         (''M-mode IRQ taken from U-mode regardless of MIE'',
           irq PRV_U (\<lambda>c. set_mip_mtip True (c\<lparr>mstatus := 0, mie := MIP_MTIP\<rparr>)) = IRQ_M_TIMER),
         (''no IRQ when mie bit not set'', irq PRV_M (\<lambda>c. set_mip_mtip True (c\<lparr>mstatus := MSTATUS_MIE, mie := 0\<rparr>)) = 0),
         (''MEI has priority over MTI'',
           irq PRV_M (\<lambda>c. set_mip_meip True (set_mip_mtip True (c\<lparr>mstatus := MSTATUS_MIE, mie := MIP_MTIP OR MIP_MEIP\<rparr>))) =
             IRQ_M_EXTERNAL),
         (''delegated S-timer IRQ in S-mode'',
           irq PRV_S (\<lambda>c. set_mip_stip True (c\<lparr>mstatus := MSTATUS_SIE, mie := MIP_STIP, mideleg := MIP_STIP\<rparr>)) = IRQ_S_TIMER),
         (''delegated S-IRQ not taken in M-mode'',
           irq PRV_M (\<lambda>c. set_mip_stip True
             (c\<lparr>mstatus := MSTATUS_MIE OR MSTATUS_SIE, mie := MIP_STIP, mideleg := MIP_STIP\<rparr>)) = 0),
         (''S-IRQ blocked when SIE=0 in S-mode'',
           irq PRV_S (\<lambda>c. set_mip_seip True (c\<lparr>mstatus := 0, mie := MIP_SEIP, mideleg := MIP_SEIP\<rparr>)) = 0),
         (''ecall returns exception'', exception (res x)),
         (''round-trip: ecall -> M-mode trap'', priv t = PRV_M),
         (''round-trip: pc = mtvec'', next_pc t = 0x80000100),
         (''round-trip: mepc = ecall pc'', mepc (csr t) = 0x80010000)])"

section \<open>Step 8: MMU\<close>

text \<open>
  Simulated physical memory, a vector of words that starts as zeros, kept as the words stored so
  far by their index. \<open>unordered_map::begin\<close> gives some entry of the TLB, here the first.
\<close>

type_synonym pmem = "(u32 \<times> u32) list"

definition pword :: "pmem \<Rightarrow> u32 \<Rightarrow> u32" where
  "pword m i = (case map_of m i of Some v \<Rightarrow> v | None \<Rightarrow> 0)"

definition pset :: "u32 \<Rightarrow> u32 \<Rightarrow> pmem \<Rightarrow> pmem" where "pset i v m = AList.update i v m"

definition pmem_if :: "pmem PTMem" where
  "pmem_if = \<lparr>pt_read = (\<lambda>addr m. (pword m (addr div 4), m)), pt_write = (\<lambda>addr val m. pset (addr div 4) val m)\<rparr>"

definition mmu_test :: "u32 \<Rightarrow> AccessType \<Rightarrow> u8 \<Rightarrow> u32 \<Rightarrow> u32 \<Rightarrow> tlb \<times> pmem \<Rightarrow> MMUResult \<times> tlb \<times> pmem" where
  "mmu_test vaddr ty p sa ms x = translate pmem_if (\<lambda>t. fst (hd t)) vaddr ty p sa ms (fst x) (snd x)"

abbreviation (input) pte :: "u32 \<Rightarrow> u32 \<Rightarrow> u32" where "pte page flags \<equiv> push_bit PTE_PPN_SHIFT page OR flags"
abbreviation (input) flushed :: "MMUResult \<times> tlb \<times> pmem \<Rightarrow> tlb \<times> pmem" where
  "flushed x \<equiv> (flush_tlb (fst (snd x)), snd (snd x))"

definition step8_pages :: "pmem \<Rightarrow> checks \<times> pmem" where
  "step8_pages pmem0 =
    (let satp = push_bit SATP_MODE_SHIFT SATP_MODE_SV32 OR 1;
         l2 = 0x2000 div 4;
         pmem = pset (0x1000 div 4 + 2) (pte 0x80400 (PTE_V OR PTE_R OR PTE_W OR PTE_X))
                  (pset l2 (pte 0x80000 (PTE_V OR PTE_R OR PTE_W OR PTE_X OR PTE_U))
                  (pset (0x1000 div 4 + 1) (pte 2 PTE_V) pmem0));
         r1 = mmu_test 0x00400ABC LOAD PRV_U satp 0 ([], pmem);
         pte1 = pword (snd (snd r1)) l2;
         r2 = mmu_test 0x00400000 STORE PRV_U satp 0 (flushed r1);
         pte2 = pword (snd (snd r2)) l2;
         r3 = mmu_test 0x00800123 LOAD PRV_S satp 0 (flushed r2);
         r4 = mmu_test 0x00BFFF00 LOAD PRV_S satp 0 (snd r3);
         r5 = mmu_test 0x00400000 LOAD PRV_S satp 0 (flushed r4);
         r6 = mmu_test 0x00400000 LOAD PRV_S satp MSTATUS_SUM (flushed r5);
         r7 = mmu_test 0x00800000 LOAD PRV_U satp 0 (flushed r6);
         m7 = pset l2 (pte 0x80000 (PTE_V OR PTE_R OR PTE_U)) (snd (snd r7));
         r8 = mmu_test 0x00400000 FETCH PRV_U satp 0 (flush_tlb (fst (snd r7)), m7);
         r9 = mmu_test 0x00400000 STORE PRV_U satp 0 (snd r8)
     in ([(''MMU 4KB page translates'', \<not> res_fault (fst r1)),
          (''MMU 4KB paddr correct'', res_paddr (fst r1) = 0x80000ABC),
          (''MMU sets A bit on read'', pte1 AND PTE_A \<noteq> 0),
          (''MMU store translates'', \<not> res_fault (fst r2)),
          (''MMU sets D bit on store'', pte2 AND PTE_D \<noteq> 0),
          (''MMU 4MB superpage translates'', \<not> res_fault (fst r3)),
          (''MMU superpage paddr correct'', res_paddr (fst r3) = 0x80400123),
          (''MMU superpage high offset translates'', \<not> res_fault (fst r4)),
          (''MMU superpage high offset paddr'', res_paddr (fst r4) = 0x807FFF00),
          (''MMU S-mode fault on U page without SUM'', res_fault (fst r5)),
          (''MMU load page fault cause'', res_cause (fst r5) = CAUSE_LOAD_PAGE_FAULT),
          (''MMU S-mode reads U page with SUM'', \<not> res_fault (fst r6)),
          (''MMU U-mode fault on S page'', res_fault (fst r7)),
          (''MMU fetch fault on non-X page'', res_fault (fst r8)),
          (''MMU fetch page fault cause'', res_cause (fst r8) = CAUSE_FETCH_PAGE_FAULT),
          (''MMU store fault on R-only page'', res_fault (fst r9)),
          (''MMU store page fault cause'', res_cause (fst r9) = CAUSE_STORE_PAGE_FAULT)], snd (snd r9)))"

definition step8_faults :: "pmem \<Rightarrow> checks" where
  "step8_faults pmem0 =
    (let satp = push_bit SATP_MODE_SHIFT SATP_MODE_SV32 OR 1;
         l2 = 0x2000 div 4;
         full = pte 0x80000 (PTE_V OR PTE_R OR PTE_W OR PTE_X OR PTE_U);
         m1 = pset (0x1000 div 4 + 3) 0 (pset l2 full pmem0);
         r1 = mmu_test 0x00C00000 LOAD PRV_U satp 0 ([], m1);
         m2 = pset (0x1000 div 4 + 3) (pte 0x90000 (PTE_V OR PTE_W)) (snd (snd r1));
         r2 = mmu_test 0x00C00000 LOAD PRV_U satp 0 ([], m2);
         m3 = pset (0x1000 div 4 + 4) (pte 0x80401 (PTE_V OR PTE_R OR PTE_W)) (snd (snd r2));
         r3 = mmu_test 0x01000000 LOAD PRV_S satp 0 ([], m3);
         r4 = mmu_test 0xDEADBEEF LOAD PRV_M 0 0 (snd r3);
         r5 = mmu_test 0x00400000 LOAD PRV_U satp 0 (flushed r4);
         saved_pte = pword (snd (snd r5)) l2;
         r6 = mmu_test 0x00400000 LOAD PRV_U satp 0 (fst (snd r5), pset l2 0 (snd (snd r5)));
         m6 = pset l2 saved_pte (snd (snd r6));
         r7 = mmu_test 0x00400000 LOAD PRV_U satp 0 (flush_tlb (fst (snd r6)), m6);
         m7 = pset l2 (pte 0x80000 (PTE_V OR PTE_X OR PTE_U)) (snd (snd r7));
         r8 = mmu_test 0x00400000 LOAD PRV_U satp MSTATUS_MXR (flush_tlb (fst (snd r7)), m7);
         r9 = mmu_test 0x00400000 LOAD PRV_U satp 0 (flushed r8)
     in [(''MMU fault on invalid PTE'', res_fault (fst r1)),
         (''MMU fault on reserved R=0 W=1 encoding'', res_fault (fst r2)),
         (''MMU fault on misaligned superpage'', res_fault (fst r3)),
         (''MMU bare mode passthrough'', \<not> res_fault (fst r4) \<and> res_paddr (fst r4) = 0xDEADBEEF),
         (''MMU TLB hit after PTE corrupted'', \<not> res_fault (fst r6)),
         (''MMU TLB returns correct paddr'', res_paddr (fst r6) = 0x80000000),
         (''MMU re-walks after TLB flush'', \<not> res_fault (fst r7)),
         (''MMU MXR allows load from X-only page'', \<not> res_fault (fst r8)),
         (''MMU no MXR faults on X-only load'', res_fault (fst r9))])"

definition step8_mmu :: checks where
  "step8_mmu = (let x = step8_pages [] in fst x @ step8_faults (snd x))"

section \<open>The checks hold\<close>

lemma step3_passes: "passed step3_rv32_defs" by code_simp
lemma step4_base_passes: "passed step4_decoder_base" by code_simp
lemma step4_rvc_passes: "passed step4_decoder_rvc" by code_simp
lemma step4_alu_passes: "passed step4_decoder_rvc_alu" by code_simp
lemma step5_passes: "passed step5_csr" by code_simp
lemma step6_passes: "passed step6_execute" by code_simp
lemma step7_entry_passes: "passed step7_entry" by code_simp
lemma step7_pending_passes: "passed step7_pending" by code_simp
lemma step8_passes: "passed step8_mmu" by code_simp

lemmas cpu_steps_pass = step3_passes step4_base_passes step4_rvc_passes step4_alu_passes step5_passes step6_passes
  step7_entry_passes step7_pending_passes step8_passes

end
