(* ===== verification/Self_Test_Platform.thy ===== *)
theory Self_Test_Platform
  imports ISS_Program Self_Test_CPU
begin

text \<open>
  Step 14 of the unit tests of \<open>src/src/main.cpp\<close>: a program on the whole platform. It adds two
  numbers, writes a character to the UART and stops at a breakpoint. The processor's iterations
  and the ticks of the CLINT are those of the model; the waiting belongs to the SystemC kernel.
\<close>

unbundle bit_operations_syntax

section \<open>Output\<close>

lemma raise_irq_rest:
  "ram (snd (raise_irq src v x)) = ram (snd x)" "console (snd (raise_irq src v x)) = console (snd x)"
  "clint (snd (raise_irq src v x)) = clint (snd x)"
proof -
  have ext: "snd (fold on_external_irq evs y) = snd y" for evs y
    by (induction evs arbitrary: y) (auto simp: on_external_irq_def split: prod.splits)
  show "ram (snd (raise_irq src v x)) = ram (snd x)" "console (snd (raise_irq src v x)) = console (snd x)"
    "clint (snd (raise_irq src v x)) = clint (snd x)"
    by (simp_all add: raise_irq_def ext split: prod.splits)
qed

text \<open>A byte stored at the base of the UART appears on the console, whatever the interrupt settings.\<close>

lemma uart_store:
  assumes "env_inv b s e" and "e_stop e = None"
  shows "\<exists>s' e'. bus_write throws UART_BASE v 1 s e = (s', e') \<and> hw_frame s s' \<and> e_stop e' = None \<and>
    console (e_plat e') = console (e_plat e) @ [ucast v] \<and> ram (e_plat e') = ram (e_plat e) \<and>
    clint (e_plat e') = clint (e_plat e) \<and> mem_fault e' = mem_fault e"
proof -
  have "\<not> dmi_hit UART_BASE 1 e"
    using dmi_window [of e UART_BASE 1] assms(1) by (auto simp: env_inv_def access_width_def)
  moreover define p where "p = cpu_payload TLM_WRITE UART_BASE (take 1 (le_bytes 4 v) @ replicate 3 0) 1"
  moreover define q where "q = cpu_payload TLM_WRITE 0 (take 1 (le_bytes 4 v) @ replicate 3 0) 1"
  have "vp_transport throws p (s, e_plat e) =
      (case vp_target throws 4 q (s, e_plat e) of Inl x \<Rightarrow> Inl x | Inr (p', x') \<Rightarrow> Inr (p'\<lparr>p_addr := ucast UART_BASE\<rparr>, x'))"
    using vp_route [of 4 UART_BASE UART_SIZE UART_BASE throws q "(s, e_plat e)"]
    by (simp add: vp_ranges_def p_def q_def cpu_payload_def)
  moreover have byte: "ucast (ucast (ucast v :: u8) :: u32) = (ucast v :: u8)"
    by (rule bit_word_eqI) (simp add: bit_simps)
  obtain u w where t: "uart_b_transport q (uart (e_plat e)) = Inr (q\<lparr>p_status := TLM_OK\<rparr>, u, [UART_TX (ucast v), UART_IRQ w])"
    using byte by (auto simp: uart_b_transport_def q_def cpu_payload_def reg_transport_def copy_in_def uart_switch_def uart_update_irq_def
        Let_def numeral_eq_Suc)
  moreover define x where "x = raise_irq IRQ_UART w (s, (e_plat e)\<lparr>uart := u, console := console (e_plat e) @ [ucast v]\<rparr>)"
  ultimately have "bus_write throws UART_BASE v 1 s e = (fst x, e\<lparr>e_plat := snd x\<rparr>)"
    using assms(2) by (simp add: bus_write_def vp_target_def lift_target_def t on_uart_def split: prod.splits)
  moreover have "hw_frame s (fst x)" using raise_irq_frame by (metis x_def fst_conv)
  ultimately show ?thesis
    using assms(2) by (simp add: x_def raise_irq_rest)
qed

section \<open>Step 14\<close>

definition plat_prog :: "u32 list" where
  "plat_prog = [0x02A00093, 0x00700113, 0x002081B3, 0x10000237, 0x05600293, 0x00520023, 0x00028213, 0x00100073]"

definition step14_platform :: "ISS \<Rightarrow> checks" where
  "step14_platform I =
    [(''Platform ISS executed instructions'', insn_count I > 0),
     (''Platform ISS x1 = 42'', get_reg (cpu I) 1 = 42),
     (''Platform ISS x2 = 7'', get_reg (cpu I) 2 = 7),
     (''Platform ISS x3 = 49'', get_reg (cpu I) 3 = 49),
     (''Platform ISS x4'', get_reg (cpu I) 4 = 0x56),
     (''Platform CLINT mtime ticking'', mtime (clint (e_plat (env I))) > 0)]"

text \<open>The platform of \<open>sc_main\<close>, with the program copied to the start of RAM.\<close>

definition prog_platform :: ISS where
  "prog_platform = (iss_start RAM_BASE (CPUState_init, with_program plat_prog))\<lparr>stop_on_ebreak := True\<rparr>"

definition sum_code :: "asm list" where
  "sum_code = [ASM_I II_ADDI 42 0 1, ASM_I II_ADDI 7 0 2, ASM_R R_ADD 2 1 3, ASM_U U_LUI 0x10000 4, ASM_I II_ADDI 0x56 0 5]"

lemma prog_assemble:
  "map assemble (sum_code @ [ASM_S S_SB 0 5 4, ASM_I II_ADDI 0 5 4]) @ [0x00100073] = plat_prog"
  by code_simp

lemma prog_words:
  "word_of_int (read_int (ram_bytes (with_program plat_prog)) 0x80000000 4) = assemble (ASM_I II_ADDI 42 0 1)"
  "word_of_int (read_int (ram_bytes (with_program plat_prog)) 0x80000004 4) = assemble (ASM_I II_ADDI 7 0 2)"
  "word_of_int (read_int (ram_bytes (with_program plat_prog)) 0x80000008 4) = assemble (ASM_R R_ADD 2 1 3)"
  "word_of_int (read_int (ram_bytes (with_program plat_prog)) 0x8000000C 4) = assemble (ASM_U U_LUI 0x10000 4)"
  "word_of_int (read_int (ram_bytes (with_program plat_prog)) 0x80000010 4) = assemble (ASM_I II_ADDI 0x56 0 5)"
  "word_of_int (read_int (ram_bytes (with_program plat_prog)) 0x80000014 4) = assemble (ASM_S S_SB 0 5 4)"
  "word_of_int (read_int (ram_bytes (with_program plat_prog)) 0x80000018 4) = assemble (ASM_I II_ADDI 0 5 4)"
  "word_of_int (read_int (ram_bytes (with_program plat_prog)) 0x8000001C 4) = (0x00100073 :: u32)"
  using program_word [of 0 plat_prog] program_word [of 1 plat_prog] program_word [of 2 plat_prog] program_word [of 3 plat_prog]
    program_word [of 4 plat_prog] program_word [of 5 plat_prog] program_word [of 6 plat_prog] program_word [of 7 plat_prog]
  unfolding prog_assemble [symmetric] sum_code_def by (simp_all del: assemble.simps)

text \<open>The state after the first five instructions, up to the counters.\<close>

definition at_store :: "CPUState \<Rightarrow> bool" where
  "at_store s = (pc s = 0x80000014 \<and> x_of s 1 = 42 \<and> x_of s 2 = 7 \<and> x_of s 3 = 49 \<and> x_of s 4 = UART_BASE \<and> x_of s 5 = 0x56 \<and>
     mie (csr s) = 0 \<and> bare s)"

lemma sum_runs: "\<exists>s. code_run sum_code (machine_of prog_platform) = Some (s, ram_bytes (with_program plat_prog)) \<and> at_store s"
  using prog_words unfolding prog_platform_def
  by (simp add: run_defs sum_code_def at_store_def bare_def CSRFile_init_def inc_mcycle_def inc_minstret_def del: assemble.simps)

text \<open>What the steps keep: the program in RAM and a simulator that nothing disturbs.\<close>

definition runs :: "(tlb \<Rightarrow> u32) \<Rightarrow> ISS \<Rightarrow> bool" where
  "runs b I = (iss_inv b I \<and> undisturbed I \<and> stop_on_ebreak I \<and> mie (csr (cpu I)) = 0 \<and>
     clint (e_plat (env I)) = CLINT_new \<and> ram_bytes (e_plat (env I)) = ram_bytes (with_program plat_prog))"

lemma same_devices_fields: "same_devices pl pl' \<Longrightarrow> console pl' = console pl \<and> clint pl' = clint pl"
  unfolding same_devices_def by (metis Plat.select_convs Plat.surjective Plat.update_convs(1))

lemma no_interrupt: "mie (csr s) = 0 \<Longrightarrow> check_pending_interrupts s = 0"
  by (simp add: check_pending_interrupts_def Let_def)

lemma retire_fields [simp]:
  "pc (retire s) = next_pc s" "x_of (retire s) r = x_of s r" "mie (csr (retire s)) = mie (csr s)" "bare (retire s) = bare s"
  "get_reg (retire s) i = get_reg s i" "regs (retire s) = regs s"
  by (simp_all add: retire_def x_of_def get_reg_def bare_def inc_mcycle_def inc_minstret_def Let_def)

lemma store_step:
  assumes "runs b I" and "at_store (cpu I)"
  shows "\<exists>I'. iss_step throws b I = Inr I' \<and> runs b I' \<and> at_store ((cpu I')\<lparr>pc := 0x80000014\<rparr>) \<and> pc (cpu I') = 0x80000018 \<and>
    console (e_plat (env I')) = console (e_plat (env I)) @ [0x56] \<and> insn_count I' = insn_count I + 1"
proof -
  let ?a = "ASM_S S_SB 0 5 4"
  have r: "iss_inv b I" "undisturbed I" "stop_on_ebreak I" "ram_bytes (e_plat (env I)) = ram_bytes (with_program plat_prog)"
    "clint (e_plat (env I)) = CLINT_new"
    using assms(1) by (simp_all add: runs_def)
  have at: "pc (cpu I) = 0x80000014" "x_of (cpu I) 4 = UART_BASE" "x_of (cpu I) 5 = 0x56" "mie (csr (cpu I)) = 0" "bare (cpu I)"
    using assms(2) by (simp_all add: at_store_def)
  obtain e where f: "iss_step throws b I = iss_execute throws b (assemble ?a) (I\<lparr>env := e\<rparr>)" "e_plat e = e_plat (env I)"
    "e_stop e = None" "env_inv b (cpu I) e"
    using fetch [OF r(1,2), of throws] prog_words(6) by (auto simp: at(1) r(4) ram_mapped_def simp del: assemble.simps)
  define d where "d = decode (assemble ?a)"
  have d: "d_type d = I_SB" "d_rs1 d = ucast (4 :: 5 word)" "d_rs2 d = ucast (5 :: 5 word)" "d_imm d = 0" "instr_len d = 4"
    by (simp_all add: d_def decode_assemble_eq instr_len_def DecodedInstr_init_def del: assemble.simps)
  define s1 where "s1 = (cpu I)\<lparr>next_pc := 0x80000018\<rparr>"
  define e1 where "e1 = e\<lparr>mem_fault := False\<rparr>"
  have "env_inv b (cpu I) e1" using f(4) by (simp add: e1_def env_inv_def dmi_ok_def)
  then have "env_inv b s1 e1" by (rule env_inv_lines [rotated]) (simp add: s1_def)
  then obtain s2 e2 where w: "bus_write throws UART_BASE 0x56 1 s1 e1 = (s2, e2)" "hw_frame s1 s2" "e_stop e2 = None"
    "console (e_plat e2) = console (e_plat (env I)) @ [0x56]" "ram (e_plat e2) = ram (e_plat (env I))" "\<not> mem_fault e2"
    "clint (e_plat e2) = CLINT_new"
    using uart_store [of b s1 e1 throws "0x56"] f(2,3) r(5) by (auto simp: e1_def)
  have "bare s1" using at(5) by (simp add: s1_def bare_def)
  note mw = bare_mem(2) [OF this] w(1)
  define s3 where "s3 = s2\<lparr>lr_sc := reservation_clear (lr_sc s2)\<rparr>"
  have x: "execute (iss_mem throws b) d s1 e1 = (ExecResult_init, s3, e2)"
    using mw at(2,3) by (simp add: execute_def d Let_def exec_store_def exec_done_def s1_def at(1) s3_def x_of_def get_reg_def)
  define I' where "I' = I\<lparr>env := e, cpu := s3, env := e2, insn_count := insn_count I + 1, cpu := retire s3, env := e2\<rparr>"
  have st: "iss_step throws b I = Inr I'"
    unfolding f(1) iss_execute_def Let_def using x w(3,6) r(2)
    by (simp add: d_def [symmetric] d(5) at(1) s1_def [symmetric] e1_def [symmetric] iss_retire_def Let_def retire_def I'_def
        ExecResult_init_def undisturbed_def del: assemble.simps)
  obtain h where h: "s2 = s1\<lparr>csr := (csr s1)\<lparr>hw_mip := h\<rparr>\<rparr>" using w(2) by (auto simp: hw_frame_def)
  have s3: "regs s3 = regs (cpu I)" "mie (csr s3) = 0" "bare s3" "next_pc s3 = 0x80000018"
    using at(4,5) by (simp_all add: s3_def h s1_def bare_def)
  have "undisturbed I'" using r(2) s3 no_interrupt [of "retire s3"] by (simp add: undisturbed_def I'_def)
  moreover have "ram_bytes (e_plat e2) = ram_bytes (e_plat (env I))"
    using w(5) by (simp add: ram_bytes_def ram_byte_def fun_eq_iff)
  ultimately have "runs b I'" using iss_step_inv [OF st r(1)] r(3,4) s3(2) w(7) by (simp add: runs_def I'_def)
  moreover have "at_store ((cpu I')\<lparr>pc := 0x80000014\<rparr>)"
    using assms(2) s3 by (simp add: at_store_def I'_def x_of_def retire_def bare_def inc_mcycle_def inc_minstret_def Let_def)
  ultimately show ?thesis using st w(4) s3(4) by (auto simp: I'_def)
qed

lemma move_step:
  assumes "runs b I" and "at_store ((cpu I)\<lparr>pc := 0x80000014\<rparr>)" and "pc (cpu I) = 0x80000018"
  shows "\<exists>I'. iss_step throws b I = Inr I' \<and> runs b I' \<and> pc (cpu I') = 0x8000001C \<and> x_of (cpu I') 1 = 42 \<and> x_of (cpu I') 2 = 7 \<and>
    x_of (cpu I') 3 = 49 \<and> x_of (cpu I') 4 = 0x56 \<and> console (e_plat (env I')) = console (e_plat (env I)) \<and>
    insn_count I' = insn_count I + 1"
proof -
  let ?a = "ASM_I II_ADDI 0 5 4"
  let ?s = "write_x 4 (x_of (cpu I) 5 + 0) 0x8000001C (cpu I)"
  have r: "iss_inv b I" "undisturbed I" "stop_on_ebreak I" "ram_bytes (e_plat (env I)) = ram_bytes (with_program plat_prog)"
    "clint (e_plat (env I)) = CLINT_new"
    using assms(1) by (simp_all add: runs_def)
  have at: "x_of (cpu I) 1 = 42" "x_of (cpu I) 2 = 7" "x_of (cpu I) 3 = 49" "x_of (cpu I) 5 = 0x56" "mie (csr (cpu I)) = 0"
    using assms(2) by (simp_all add: at_store_def x_of_def)
  have m: "machine_step ?a 4 (machine_of I) = Some (?s, ram_bytes (e_plat (env I)))"
    by (simp add: machine_of_def r_sem_words assms(3) del: r_sem.simps)
  have "encodes (word_of_int (read_int (ram_bytes (e_plat (env I))) (unat (pc (cpu I))) 4)) ?a 4"
    using prog_words(7) by (simp add: encodes_def r(4) assms(3) del: assemble.simps)
  from iss_step_machine [OF r(1,2) _ this m, of throws] obtain I' where
    I': "iss_step throws b I = Inr I'" "machine_of I' = (retire ?s, ram_bytes (e_plat (env I)))"
      "same_devices (e_plat (env I)) (e_plat (env I'))" "insn_count I' = insn_count I + 1" "iss_inv b I'" "undisturbed I'"
      "stop_on_ebreak I' = stop_on_ebreak I"
    by (auto simp: assms(3) ram_mapped_def)
  have len: "length (regs (cpu I)) = 32" using r(1) by (simp add: iss_inv_def cpu_inv_def)
  have c: "cpu I' = retire ?s" "ram_bytes (e_plat (env I')) = ram_bytes (e_plat (env I))"
    using I'(2) by (simp_all add: machine_of_def)
  note dev = same_devices_fields [OF I'(3)]
  then have "runs b I'" using I' c r(3-5) at(5) by (simp add: runs_def write_x_def)
  then show ?thesis
    using I'(1,4) at len dev by (auto simp: c write_x_def x_of_def)
qed

lemma ebreak_step:
  assumes "runs b I" and "pc (cpu I) = 0x8000001C"
  shows "\<exists>e. iss_step throws b I =
      Inr (I\<lparr>cpu := (cpu I)\<lparr>next_pc := 0x80000020, csr := inc_minstret (inc_mcycle (csr (cpu I)))\<rparr>, env := e,
        insn_count := insn_count I + 1, halted := True\<rparr>) \<and> e_plat e = e_plat (env I)"
proof -
  have r: "iss_inv b I" "undisturbed I" "stop_on_ebreak I" "ram_bytes (e_plat (env I)) = ram_bytes (with_program plat_prog)"
    "clint (e_plat (env I)) = CLINT_new"
    using assms(1) by (simp_all add: runs_def)
  obtain e where f: "iss_step throws b I = iss_execute throws b 0x00100073 (I\<lparr>env := e\<rparr>)" "e_plat e = e_plat (env I)" "e_stop e = None"
    using fetch [OF r(1,2), of throws] prog_words(8) by (auto simp: assms(2) r(4) ram_mapped_def)
  have d: "d_type (decode 0x00100073) = I_EBREAK" "instr_len (decode 0x00100073) = 4" by code_simp+
  show ?thesis
    unfolding f(1) iss_execute_def Let_def using f(2,3) r(3)
    by (intro exI [of _ "e\<lparr>mem_fault := False\<rparr>"]) (simp add: d execute_def Let_def assms(2) make_exception_def iss_retire_def)
qed

lemma iss_steps_add: "iss_steps throws b (m + n) I = (case iss_steps throws b m I of Inl x \<Rightarrow> Inl x | Inr I' \<Rightarrow> iss_steps throws b n I')"
  by (induction m arbitrary: I) (auto split: sum.splits)

text \<open>
  Eight iterations from reset: the character is on the console, the breakpoint has halted the
  processor, and after a tick of the CLINT every check of the step holds.
\<close>

lemma step14_passes:
  "\<exists>I. iss_steps throws b 8 prog_platform = Inr I \<and> halted I \<and> console (e_plat (env I)) = [0x56] \<and>
    passed (step14_platform (put_soc (vp_clint_tick (get_soc I)) I))"
proof -
  have start: "iss_inv b prog_platform" "undisturbed prog_platform"
    using program_start(1) [of plat_prog b] program_start(2) [of plat_prog] by (simp_all add: prog_platform_def plat_prog_def iss_inv_def undisturbed_def)
  have init: "stop_on_ebreak prog_platform" "insn_count prog_platform = 0" "console (e_plat (env prog_platform)) = []"
    "clint (e_plat (env prog_platform)) = CLINT_new"
    by (simp_all add: prog_platform_def iss_start_def Env_new_def with_program_def Plat_new_def)
  obtain s where s: "code_run sum_code (machine_of prog_platform) = Some (s, ram_bytes (with_program plat_prog))" "at_store s"
    using sum_runs by blast
  have "length sum_code = 5" by (simp add: sum_code_def)
  with code_run_machine [OF s(1)] have "machine_run 5 (machine_of prog_platform) (s, ram_bytes (with_program plat_prog))" by simp
  from iss_steps_machine [OF start this, of throws] obtain I5 where
    I5: "iss_steps throws b 5 prog_platform = Inr I5" "cpu I5 = s" "ram_bytes (e_plat (env I5)) = ram_bytes (with_program plat_prog)"
      "same_devices (e_plat (env prog_platform)) (e_plat (env I5))" "insn_count I5 = 5" "iss_inv b I5" "undisturbed I5"
      "stop_on_ebreak I5"
    using init by (auto simp: machine_of_def)
  note dev = same_devices_fields [OF I5(4)]
  have "runs b I5" using I5 init dev s(2) by (simp add: runs_def at_store_def)
  from store_step [OF this] s(2) I5(2) obtain I6 where
    I6: "iss_step throws b I5 = Inr I6" "runs b I6" "at_store ((cpu I6)\<lparr>pc := 0x80000014\<rparr>)" "pc (cpu I6) = 0x80000018"
      "console (e_plat (env I6)) = [0x56]" "insn_count I6 = 6"
    using I5(5) dev init(3) by fastforce
  from move_step [OF I6(2-4), of throws] obtain I7 where
    I7: "iss_step throws b I6 = Inr I7" "runs b I7" "pc (cpu I7) = 0x8000001C" "x_of (cpu I7) 1 = 42" "x_of (cpu I7) 2 = 7"
      "x_of (cpu I7) 3 = 49" "x_of (cpu I7) 4 = 0x56" "console (e_plat (env I7)) = [0x56]" "insn_count I7 = 7"
    using I6(5,6) by auto
  obtain e where e: "e_plat e = e_plat (env I7)" and
    I8: "iss_step throws b I7 = Inr (I7\<lparr>cpu := (cpu I7)\<lparr>next_pc := 0x80000020, csr := inc_minstret (inc_mcycle (csr (cpu I7)))\<rparr>,
      env := e, insn_count := insn_count I7 + 1, halted := True\<rparr>)"
    using ebreak_step [OF I7(2,3), of throws] by blast
  let ?I = "I7\<lparr>cpu := (cpu I7)\<lparr>next_pc := 0x80000020, csr := inc_minstret (inc_mcycle (csr (cpu I7)))\<rparr>,
      env := e, insn_count := insn_count I7 + 1, halted := True\<rparr>"
  have "iss_steps throws b (5 + 3) prog_platform = Inr ?I"
    unfolding iss_steps_add I5(1) by (simp add: numeral_eq_Suc I6(1) I7(1) I8)
  moreover have "clint (e_plat e) = CLINT_new" using I7(2) e by (simp add: runs_def)
  ultimately show ?thesis
    using I7 e by (intro exI [of _ ?I])
      (simp add: passed_def step14_platform_def put_soc_def get_soc_def vp_clint_tick_def clint_tick_def CLINT_new_def x_of_def get_reg_def
        Let_def update_timer_irq_def on_clint_irq_def)
qed

end
