(* ===== verification/Self_Test_Devices.thy ===== *)
theory Self_Test_Devices
  imports Self_Test_CPU ELF Platform
begin

text \<open>
  The unit tests of \<open>src/src/main.cpp\<close> for the ELF loader and the devices, steps 10 to 13 and 15
  to 19, run on the model. A device under test is kept with the callbacks it has invoked since
  the test installed them.
\<close>

unbundle bit_operations_syntax

section \<open>Driving a device\<close>

definition setup_trans :: "tlm_command \<Rightarrow> u32 \<Rightarrow> u8 list \<Rightarrow> u32 \<Rightarrow> payload" where
  "setup_trans cmd addr data len =
     \<lparr>p_cmd = cmd, p_addr = ucast addr, p_data = data, p_len = len, p_status = TLM_INCOMPLETE\<rparr>"

text \<open>
  A device under test, the callbacks it has invoked, and whether a report or undefined behaviour
  has aborted the run.
\<close>

record ('d, 'ev) driven =
  dut :: 'd
  calls :: "'ev list"
  aborted :: bool

definition drive :: "'d \<Rightarrow> ('d, 'ev) driven" where
  "drive d = \<lparr>dut = d, calls = [], aborted = False\<rparr>"

definition target :: "('d, 'ev) transport \<Rightarrow> payload \<Rightarrow> ('d, 'ev) driven \<Rightarrow> stop + (payload \<times> ('d, 'ev) driven)" where
  "target bt p x = map_sum id (\<lambda>r. (fst r, x\<lparr>dut := fst (snd r), calls := calls x @ snd (snd r)\<rparr>)) (bt p (dut x))"

text \<open>The \<open>_read\<close> and \<open>_write\<close> lambdas of the steps: a 32-bit variable passed for the data.\<close>

definition reg_read :: "(payload \<Rightarrow> ('d, 'ev) driven \<Rightarrow> stop + (payload \<times> ('d, 'ev) driven)) \<Rightarrow> u32 \<Rightarrow> u32 \<Rightarrow>
    ('d, 'ev) driven \<Rightarrow> u32 \<times> ('d, 'ev) driven" where
  "reg_read bt len addr x =
     (case bt (setup_trans TLM_READ addr (le_bytes 4 0) len) x of
        Inr r \<Rightarrow> (le_word (p_data (fst r)), snd r)
      | Inl e \<Rightarrow> (0, x\<lparr>aborted := True\<rparr>))"

definition reg_write :: "(payload \<Rightarrow> ('d, 'ev) driven \<Rightarrow> stop + (payload \<times> ('d, 'ev) driven)) \<Rightarrow> u32 \<Rightarrow> u32 \<Rightarrow> u32 \<Rightarrow>
    ('d, 'ev) driven \<Rightarrow> ('d, 'ev) driven" where
  "reg_write bt len addr val x =
     (case bt (setup_trans TLM_WRITE addr (le_bytes 4 val) len) x of Inr r \<Rightarrow> snd r | Inl e \<Rightarrow> x\<lparr>aborted := True\<rparr>)"

text \<open>An aborted step does not count as passed.\<close>

definition finish :: "('d, 'ev) driven \<Rightarrow> checks \<Rightarrow> checks" where
  "finish x cs = (if aborted x then [(''aborted'', False)] else cs)"

text \<open>A flag that the callback sets to its argument.\<close>

definition flag :: "bool \<Rightarrow> bool list \<Rightarrow> bool" where "flag v evs = last (v # evs)"

definition invoke :: "('d \<Rightarrow> 'd \<times> 'ev list) \<Rightarrow> ('d, 'ev) driven \<Rightarrow> ('d, 'ev) driven" where
  "invoke f x = (let y = f (dut x) in x\<lparr>dut := fst y, calls := calls x @ snd y\<rparr>)"

text \<open>\<open>x->on_irq = ...\<close>: only later callbacks are seen.\<close>

definition install :: "('d, 'ev) driven \<Rightarrow> ('d, 'ev) driven" where "install x = x\<lparr>calls := []\<rparr>"

text \<open>
  The bus of \<open>sc_main\<close>. In each of the steps that use it only the device under test is accessed,
  so the other targets are left out of the state.
\<close>

definition test_ranges :: "(u32 \<times> u32) list" where
  "test_ranges = [(BOOTROM_BASE, BOOTROM_SIZE), (SRAM_BASE, SRAM_SIZE), (RAM_BASE, 0x100000), (CLINT_BASE, CLINT_SIZE),
     (PLIC_BASE, PLIC_SIZE), (UART_BASE, UART_SIZE)]"

definition test_bus :: Bus where
  "test_bus = (case map_all test_ranges Bus_new of Inr b \<Rightarrow> b | Inl x \<Rightarrow> Bus_new)"

lemma test_bus_code [code]:
  "test_bus =
    \<lparr>ranges =
       [\<lparr>r_base = BOOTROM_BASE, r_size = BOOTROM_SIZE, target_idx = 0\<rparr>, \<lparr>r_base = SRAM_BASE, r_size = SRAM_SIZE, target_idx = 1\<rparr>,
        \<lparr>r_base = CLINT_BASE, r_size = CLINT_SIZE, target_idx = 3\<rparr>, \<lparr>r_base = PLIC_BASE, r_size = PLIC_SIZE, target_idx = 4\<rparr>,
        \<lparr>r_base = UART_BASE, r_size = UART_SIZE, target_idx = 5\<rparr>, \<lparr>r_base = RAM_BASE, r_size = 0x100000, target_idx = 2\<rparr>],
     next_target_idx = 6\<rparr>"
  by code_simp

definition on_bus :: "u32 \<Rightarrow> ('d, 'ev) transport \<Rightarrow> payload \<Rightarrow> ('d, 'ev) driven \<Rightarrow> stop + (payload \<times> ('d, 'ev) driven)" where
  "on_bus k bt = bus_b_transport (\<lambda>i. if i = k then target bt else (\<lambda>p x. Inl HOST_UB)) test_bus"

section \<open>Step 10: ELF loader\<close>

fun put_bytes :: "nat \<Rightarrow> u8 list \<Rightarrow> u8 list \<Rightarrow> u8 list" where
  "put_bytes off [] xs = xs"
| "put_bytes off (b # bs) xs = put_bytes (Suc off) bs (xs[off := b])"

abbreviation (input) w16 :: "nat \<Rightarrow> u16 \<Rightarrow> u8 list \<Rightarrow> u8 list" where "w16 off v \<equiv> put_bytes off (le_bytes 2 (ucast v))"
abbreviation (input) w32 :: "nat \<Rightarrow> u32 \<Rightarrow> u8 list \<Rightarrow> u8 list" where "w32 off v \<equiv> put_bytes off (le_bytes 4 v)"

definition test_elf :: "u8 list" where
  "test_elf =
     (let elf = put_bytes 0 [0x7F, 0x45, 0x4C, 0x46, 1, 1, 1] (replicate (52 + 32 + 8) 0);
          elf = w16 44 1 (w16 42 32 (w16 40 52 (w32 28 52 (w32 24 0x80000000 (w32 20 1 (w16 18 0xF3 (w16 16 2 elf)))))));
          elf = w32 (52 + 24) 5 (w32 (52 + 20) 16 (w32 (52 + 16) 8 (w32 (52 + 12) 0x80000000 (w32 (52 + 8) 0x80000000
                  (w32 (52 + 4) 84 (w32 52 1 elf))))))
      in w32 88 0x00100073 (w32 84 0x02A00093 elf))"

definition test_write_fn :: "u8 list elf_write_fn" where
  "test_write_fn paddr data m = put_bytes (unat (paddr - 0x80000000)) data m"

definition step10_elf_loader :: checks where
  "step10_elf_loader =
    (let elf = test_elf; mem = replicate 256 0xFF in
     case load_elf_from_memory elf test_write_fn mem of
       Inl e \<Rightarrow> [(''uncaught exception'', False)]
     | Inr (r, m) \<Rightarrow>
        [(''ELF entry point'', entry_point r = 0x80000000),
         (''ELF 1 PT_LOAD segment'', segments_loaded r = 1),
         (''ELF load_min'', load_min r = 0x80000000),
         (''ELF load_max (includes bss)'', load_max r = 0x80000010),
         (''ELF code loaded correctly'', u32_at m 0 = 0x02A00093),
         (''ELF bss zeroed'', u32_at m 8 = 0),
         (''ELF rejects bad magic'', isl (load_elf_from_memory (elf[0 := 0x00]) test_write_fn m)),
         (''ELF rejects non-RISC-V'', isl (load_elf_from_memory (elf[18 := 0x03, 19 := 0x00]) test_write_fn m)),
         (''ELF rejects 64-bit'', isl (load_elf_from_memory (elf[4 := 2]) test_write_fn m))])"

lemma test_elf_fields:
  "e_phoff (read_ehdr test_elf) = 52" "e_phentsize (read_ehdr test_elf) = 32"
  "e_phnum (read_ehdr test_elf) = 1" "e_entry (read_ehdr test_elf) = 0x80000000"
  "validate_header (read_ehdr test_elf) = None" "length test_elf = 92"
  "take 8 (drop 84 test_elf) = [0x93, 0, 0xA0, 0x02, 0x73, 0, 0x10, 0]"
  "read_phdr test_elf 52 =
    \<lparr>p_type = 1, p_offset = 84, p_vaddr = 0x80000000, p_paddr = 0x80000000, p_filesz = 8, p_memsz = 16, p_flags = 5, p_align = 0\<rparr>"
  "validate_header (read_ehdr (test_elf[0 := 0x00])) = Some ELF_BAD_MAGIC"
  "validate_header (read_ehdr (test_elf[18 := 0x03, 19 := 0x00])) = Some ELF_NOT_RISCV"
  "validate_header (read_ehdr (test_elf[4 := 2])) = Some ELF_NOT_32BIT"
  by code_simp+

lemma test_elf_loads:
  "load_elf_from_memory test_elf w s =
    Inr (\<lparr>entry_point = 0x80000000, load_min = 0x80000000, load_max = 0x80000010, segments_loaded = 1\<rparr>,
      w 0x80000008 (replicate 8 0) (w 0x80000000 [0x93, 0, 0xA0, 0x02, 0x73, 0, 0x10, 0] s))"
  by (simp add: load_elf_from_memory_def do_load_def Let_def test_elf_fields phdr_at_def load_segment_def ElfLoadResult_new_def)

lemma test_elf_memory:
  "let m = test_write_fn 0x80000008 (replicate 8 0) (test_write_fn 0x80000000 [0x93, 0, 0xA0, 0x02, 0x73, 0, 0x10, 0] (replicate 256 0xFF))
   in u32_at m 0 = 0x02A00093 \<and> u32_at m 8 = 0"
  by code_simp

lemma step10_passes: "passed step10_elf_loader"
  using test_elf_memory
  by (simp add: step10_elf_loader_def passed_def test_elf_loads Let_def)
    (simp add: load_elf_from_memory_def do_load_def Let_def test_elf_fields)

section \<open>Step 11: CLINT\<close>

abbreviation (input) clint_read :: "u32 \<Rightarrow> (CLINT, clint_event) driven \<Rightarrow> u32 \<times> (CLINT, clint_event) driven" where
  "clint_read off \<equiv> reg_read (on_bus 3 clint_b_transport) 4 (CLINT_BASE + off)"
abbreviation (input) clint_write :: "u32 \<Rightarrow> u32 \<Rightarrow> (CLINT, clint_event) driven \<Rightarrow> (CLINT, clint_event) driven" where
  "clint_write off val \<equiv> reg_write (on_bus 3 clint_b_transport) 4 (CLINT_BASE + off) val"

definition sw_irqs :: "clint_event list \<Rightarrow> bool list" where "sw_irqs evs = List.map_filter sw_line evs"
definition timer_irqs :: "clint_event list \<Rightarrow> bool list" where "timer_irqs evs = List.map_filter timer_line evs"

text \<open>The thread has ticked while the earlier steps waited; at the end of the step it ticks three times.\<close>

definition step11_clint :: "CLINT \<Rightarrow> checks" where
  "step11_clint c =
    (let x0 = drive c;
         r1 = clint_read 0x0000 x0;
         x1 = clint_write 0x0000 0xDEADBEEF (snd r1);
         r2 = clint_read 0x0000 x1;
         x2 = clint_write 0x0000 1 (install (snd r2));
         x3 = clint_write 0x0000 0 x2;
         x4 = clint_write 0x4004 0xAABBCCDD (clint_write 0x4000 0x12345678 x3);
         r3 = clint_read 0x4000 x4;
         r4 = clint_read 0x4004 (snd r3);
         x5 = clint_write 0xBFFC 0x00000000 (clint_write 0xBFF8 0x00000042 (snd r4));
         r5 = clint_read 0xBFF8 x5;
         r6 = clint_read 0xBFFC (snd r5);
         x6 = clint_write 0x4004 0 (clint_write 0x4000 100 (install (snd r6)));
         x7 = clint_write 0xBFFC 0 (clint_write 0xBFF8 99 x6);
         x8 = clint_write 0xBFF8 100 x7;
         x9 = clint_write 0x4000 200 (install x8);
         x10 = invoke clint_tick (invoke clint_tick (invoke clint_tick x9))
     in finish x10
        [(''CLINT msip defaults 0'', fst r1 = 0),
         (''CLINT msip masks to bit 0'', fst r2 = 1),
         (''CLINT msip triggers sw_irq callback'', flag False (sw_irqs (calls x2))),
         (''CLINT msip=0 clears sw_irq'', \<not> flag False (sw_irqs (calls x3))),
         (''CLINT mtimecmp_lo readback'', fst r3 = 0x12345678),
         (''CLINT mtimecmp_hi readback'', fst r4 = 0xAABBCCDD),
         (''CLINT mtime_lo readback'', fst r5 = 0x42),
         (''CLINT mtime_hi readback'', fst r6 = 0x00),
         (''CLINT no IRQ when mtime < mtimecmp'', \<not> flag False (timer_irqs (calls x7))),
         (''CLINT IRQ when mtime >= mtimecmp'', flag False (timer_irqs (calls x8))),
         (''CLINT IRQ clears when mtimecmp raised'', \<not> flag True (timer_irqs (calls x9))),
         (''CLINT mtime increments via tick_thread'', mtime (dut x10) > mtime (dut x9))])"

section \<open>Step 12: PLIC\<close>

abbreviation (input) plic_read :: "u32 \<Rightarrow> (PLIC, bool) driven \<Rightarrow> u32 \<times> (PLIC, bool) driven" where
  "plic_read off \<equiv> reg_read (on_bus 4 plic_b_transport) 4 (PLIC_BASE + off)"
abbreviation (input) plic_write :: "u32 \<Rightarrow> u32 \<Rightarrow> (PLIC, bool) driven \<Rightarrow> (PLIC, bool) driven" where
  "plic_write off val \<equiv> reg_write (on_bus 4 plic_b_transport) 4 (PLIC_BASE + off) val"

definition step12_plic :: checks where
  "step12_plic =
    (let uart = push_bit (unat IRQ_UART) 1; gpio = push_bit (unat IRQ_GPIO) 1;
         pend = (\<lambda>src. invoke (set_pending src True));
         x1 = plic_write (IRQ_UART * 4) 5 (drive PLIC_new);
         r1 = plic_read (IRQ_UART * 4) x1;
         x2 = plic_write 0 7 (snd r1);
         r2 = plic_read 0 x2;
         x3 = plic_write (IRQ_GPIO * 4) 0xFF (snd r2);
         r3 = plic_read (IRQ_GPIO * 4) x3;
         x4 = plic_write 0x2000 uart (snd r3);
         r4 = plic_read 0x2000 x4;
         x5 = pend IRQ_UART (snd r4);
         r5 = plic_read 0x1000 x5;
         r6 = plic_read 0x200004 (snd r5);
         r7 = plic_read 0x200004 (snd r6);
         x6 = plic_write 0x2000 (uart OR gpio) (plic_write (IRQ_GPIO * 4) 7 (plic_write 0x200004 IRQ_UART (snd r7)));
         r8 = plic_read 0x200004 (pend IRQ_GPIO (pend IRQ_UART x6));
         r9 = plic_read 0x200004 (snd r8);
         x7 = plic_write 0x200000 5 (plic_write 0x200004 IRQ_UART (plic_write 0x200004 IRQ_GPIO (snd r9)));
         r10 = plic_read 0x200000 x7;
         x8 = pend IRQ_UART (snd r10);
         x9 = pend IRQ_GPIO x8
     in finish x9
        [(''PLIC priority write/read'', fst r1 = 5),
         (''PLIC source 0 priority stuck at 0'', fst r2 = 0),
         (''PLIC priority clamps to 0-7'', fst r3 = 7),
         (''PLIC enable readback'', fst r4 = uart),
         (''PLIC no IRQ without pending'', \<not> flag False (calls (snd r4))),
         (''PLIC pending bit set'', fst r5 AND uart \<noteq> 0),
         (''PLIC asserts external IRQ'', flag False (calls (snd r5))),
         (''PLIC claim returns UART'', fst r6 = IRQ_UART),
         (''PLIC IRQ clears after claim'', \<not> flag False (calls (snd r6))),
         (''PLIC second claim returns 0'', fst r7 = 0),
         (''PLIC higher priority wins'', fst r8 = IRQ_GPIO),
         (''PLIC second claim gets UART'', fst r9 = IRQ_UART),
         (''PLIC threshold readback'', fst r10 = 5),
         (''PLIC masks IRQ at or below threshold'', \<not> flag False (calls x8)),
         (''PLIC IRQ above threshold fires'', flag False (calls x9))])"

section \<open>Step 13: UART\<close>

abbreviation (input) uart_read :: "u32 \<Rightarrow> (UART, uart_event) driven \<Rightarrow> u32 \<times> (UART, uart_event) driven" where
  "uart_read off \<equiv> reg_read (on_bus 5 uart_b_transport) 1 (UART_BASE + off)"
abbreviation (input) uart_write :: "u32 \<Rightarrow> u32 \<Rightarrow> (UART, uart_event) driven \<Rightarrow> (UART, uart_event) driven" where
  "uart_write off val \<equiv> reg_write (on_bus 5 uart_b_transport) 1 (UART_BASE + off) val"

definition uart_irqs :: "uart_event list \<Rightarrow> bool list" where "uart_irqs evs = List.map_filter uart_irq_line evs"

definition tx_bytes :: "uart_event list \<Rightarrow> u8 list" where
  "tx_bytes evs = List.map_filter (\<lambda>e. case e of UART_TX c \<Rightarrow> Some c | UART_IRQ v \<Rightarrow> None) evs"

definition step13_data :: "(UART, uart_event) driven \<Rightarrow> checks \<times> (UART, uart_event) driven" where
  "step13_data x =
    (let rx = (\<lambda>b. invoke (push_rx b));
         lsr1 = uart_read 5 x;
         x1 = uart_write 0 0x48 (install (snd lsr1));
         r1 = uart_read 7 (uart_write 7 0xAB x1);
         lsr2 = uart_read 5 (rx 0x58 (snd r1));
         r2 = uart_read 0 (snd lsr2);
         lsr3 = uart_read 5 (snd r2);
         a = uart_read 0 (rx 0x43 (rx 0x42 (rx 0x41 (snd lsr3))));
         b = uart_read 0 (snd a);
         c = uart_read 0 (snd b)
     in ([(''UART LSR TX empty at init'', fst lsr1 AND 0xFF AND 0x60 = 0x60),
          (''UART LSR no RX data at init'', fst lsr1 AND 0xFF AND 0x01 = 0),
          (''UART TX callback fires'', last (0 # tx_bytes (calls x1)) = 0x48),
          (''UART scratch register'', fst r1 AND 0xFF = 0xAB),
          (''UART LSR DR after push_rx'', fst lsr2 AND 0xFF AND 0x01 = 1),
          (''UART RX reads pushed byte'', fst r2 AND 0xFF = 0x58),
          (''UART LSR DR clears after read'', fst lsr3 AND 0xFF AND 0x01 = 0),
          (''UART FIFO order A'', fst a AND 0xFF = 0x41),
          (''UART FIFO order B'', fst b AND 0xFF = 0x42),
          (''UART FIFO order C'', fst c AND 0xFF = 0x43)], snd c))"

definition step13_irq :: "(UART, uart_event) driven \<Rightarrow> checks" where
  "step13_irq x =
    (let x2 = uart_write 1 0x02 (install x);
         iir1 = uart_read 2 x2;
         x3 = uart_write 1 0x01 (snd iir1);
         x4 = invoke (push_rx 0x5A) x3;
         iir2 = uart_read 2 x4;
         r3 = uart_read 0 (snd iir2);
         lcr = uart_read 3 (uart_write 3 0x1B (snd r3));
         mcr = uart_read 4 (uart_write 4 0x0F (snd lcr));
         msr = uart_read 6 (snd mcr)
     in finish (snd msr)
        [(''UART TX empty IRQ fires when enabled'', flag False (uart_irqs (calls x2))),
         (''UART IIR reports TX empty'', fst iir1 AND 0xFF AND 0x0F = 0x02),
         (''UART IRQ clears with no RX data'', \<not> flag False (uart_irqs (calls x3))),
         (''UART RX avail IRQ fires'', flag False (uart_irqs (calls x4))),
         (''UART IIR reports RX avail'', fst iir2 AND 0xFF AND 0x0F = 0x04),
         (''UART IRQ clears after RX read'', \<not> flag False (uart_irqs (calls (snd r3)))),
         (''UART LCR round-trip'', fst lcr AND 0xFF = 0x1B),
         (''UART MCR round-trip'', fst mcr AND 0xFF = 0x0F),
         (''UART MSR always 0'', fst msr AND 0xFF = 0)])"

definition step13_uart :: checks where
  "step13_uart = (let r = step13_data (drive UART_new) in fst r @ step13_irq (snd r))"

section \<open>Steps 15 to 17: GPIO, timer, SPI\<close>

abbreviation (input) gpio_read :: "u32 \<Rightarrow> (GPIO, bool) driven \<Rightarrow> u32 \<times> (GPIO, bool) driven" where
  "gpio_read \<equiv> reg_read (target gpio_b_transport) 4"
abbreviation (input) gpio_write :: "u32 \<Rightarrow> u32 \<Rightarrow> (GPIO, bool) driven \<Rightarrow> (GPIO, bool) driven" where
  "gpio_write \<equiv> reg_write (target gpio_b_transport) 4"

definition step15_gpio :: checks where
  "step15_gpio =
    (let r1 = gpio_read 0x00 (gpio_write 0x00 0xFF (drive GPIO_new));
         r2 = gpio_read 0x04 (gpio_write 0x04 0x42 (snd r1));
         r3 = gpio_read 0x08 (invoke (set_input 0xAA) (snd r2));
         x1 = gpio_write 0x0C 0x01 (install (snd r3));
         x2 = invoke (set_input 0xAB) x1;
         r4 = gpio_read 0x10 x2;
         r5 = gpio_read 0x10 (gpio_write 0x10 0x01 (snd r4))
     in finish (snd r5)
        [(''GPIO direction readback'', fst r1 = 0xFF),
         (''GPIO output readback'', fst r2 = 0x42),
         (''GPIO input read'', fst r3 = 0xAA),
         (''GPIO IRQ on input change'', flag False (calls x2)),
         (''GPIO IRQ status bit set'', fst r4 = 0x01),
         (''GPIO IRQ status w1c'', fst r5 = 0x00),
         (''GPIO IRQ clears after w1c'', \<not> flag False (calls (snd r5)))])"

abbreviation (input) timer_read :: "u32 \<Rightarrow> (Timer, bool) driven \<Rightarrow> u32 \<times> (Timer, bool) driven" where
  "timer_read \<equiv> reg_read (target timer_b_transport) 4"
abbreviation (input) timer_write :: "u32 \<Rightarrow> u32 \<Rightarrow> (Timer, bool) driven \<Rightarrow> (Timer, bool) driven" where
  "timer_write \<equiv> reg_write (target timer_b_transport) 4"

text \<open>The thread has ticked before the step, and ticks five times while the step waits.\<close>

definition step16_timer :: "Timer \<Rightarrow> checks" where
  "step16_timer t =
    (let r1 = timer_read 0x00 (timer_write 0x00 0x100 (drive t));
         x1 = timer_write 0x0C 0 (timer_write 0x08 50 (timer_write 0x10 1 (install (snd r1))));
         x2 = timer_write 0x00 49 (timer_write 0x04 0 x1);
         x3 = timer_write 0x00 50 x2;
         tick = invoke timer_tick;
         x4 = tick (tick (tick (tick (tick x3))))
     in finish x4
        [(''Timer time_lo readback'', fst r1 = 0x100),
         (''Timer no IRQ below cmp'', \<not> flag False (calls x2)),
         (''Timer IRQ at cmp'', flag False (calls x3)),
         (''Timer ticks via thread'', tm_time (dut x4) > tm_time (dut x3))])"

definition step17_spi :: checks where
  "step17_spi =
    (let rd = (\<lambda>cb. reg_read (target (spi_b_transport cb)) 4); wr = (\<lambda>cb. reg_write (target (spi_b_transport cb)) 4);
         cb = Some (\<lambda>tx. tx XOR 0xFF);
         r1 = rd None 0x08 (drive SPI_new);
         r2 = rd cb 0x04 (wr cb 0x00 0x42 (snd r1));
         r3 = rd cb 0x0C (wr cb 0x0C 100 (snd r2));
         r4 = rd cb 0x10 (wr cb 0x10 3 (snd r3))
     in finish (snd r4)
        [(''SPI always ready'', fst r1 = 1),
         (''SPI transfer callback'', fst r2 = 0x42 XOR 0xFF),
         (''SPI clk_div readback'', fst r3 = 100),
         (''SPI config readback'', fst r4 = 3)])"

section \<open>Steps 18 and 19: video, audio\<close>

abbreviation (input) fb_read :: "u32 \<Rightarrow> (FBCtrl, fb_event) driven \<Rightarrow> u32 \<times> (FBCtrl, fb_event) driven" where
  "fb_read \<equiv> reg_read (target fb_b_transport) 4"
abbreviation (input) fb_write :: "u32 \<Rightarrow> u32 \<Rightarrow> (FBCtrl, fb_event) driven \<Rightarrow> (FBCtrl, fb_event) driven" where
  "fb_write \<equiv> reg_write (target fb_b_transport) 4"

definition vsync_fbs :: "fb_event list \<Rightarrow> u32 list" where
  "vsync_fbs evs = List.map_filter (\<lambda>e. case e of FB_VSYNC addr pal str \<Rightarrow> Some addr | FB_IRQ v \<Rightarrow> None) evs"
definition fb_irqs :: "fb_event list \<Rightarrow> bool list" where "fb_irqs evs = List.map_filter fb_irq_line evs"

definition step18_fb :: checks where
  "step18_fb =
    (let r1 = fb_read 0x00 (drive FBCtrl_new);
         r2 = fb_read 0x04 (snd r1);
         r3 = fb_read 0x08 (snd r2);
         x1 = fb_write 0x10 1 (install (snd r3));
         r4 = fb_read 0x14 x1;
         r5 = fb_read 0x14 (snd r4);
         x2 = fb_write 0x14 0 (snd r5)
     in finish x2
        [(''FB fb0 default'', fst r1 = FB0_DEFAULT),
         (''FB fb1 default'', fst r2 = FB1_DEFAULT),
         (''FB stride default'', fst r3 = 320),
         (''FB vsync swaps to fb1'', last (0 # vsync_fbs (calls x1)) = FB1_DEFAULT),
         (''FB vsync IRQ'', flag False (fb_irqs (calls x1))),
         (''FB active buffer = 1'', fst r4 AND 1 = 1),
         (''FB vsync pending'', fst r5 AND 2 = 2),
         (''FB IRQ clears'', \<not> flag False (fb_irqs (calls x2)))])"

definition test_playpal :: "u8 list" where
  "test_playpal = concat (map (\<lambda>i. [of_nat i, of_nat (255 - i), of_nat (i div 2)]) [0..<256])"

definition test_cmap :: "u8 list" where "test_cmap = map (\<lambda>i. of_nat (255 - i)) [0..<256]"

definition step18_palette :: checks where
  "step18_palette =
    [(''Palette load correct'',
        case load_playpal test_playpal 0 of None \<Rightarrow> False
        | Some pal \<Rightarrow> rgb_r (pal ! 42) = 42 \<and> rgb_g (pal ! 42) = 213 \<and> rgb_b (pal ! 42) = 21),
     (''Colormap apply correct'', apply_colormap test_cmap 0 100 = Some 155)]"

abbreviation (input) audio_read :: "u32 \<Rightarrow> (AudioOut, bool) driven \<Rightarrow> u32 \<times> (AudioOut, bool) driven" where
  "audio_read \<equiv> reg_read (target audio_b_transport) 4"
abbreviation (input) audio_write :: "u32 \<Rightarrow> u32 \<Rightarrow> (AudioOut, bool) driven \<Rightarrow> (AudioOut, bool) driven" where
  "audio_write \<equiv> reg_write (target audio_b_transport) 4"

definition step19_audio :: checks where
  "step19_audio =
    (let r1 = audio_read 0x00 (drive AudioOut_new);
         r2 = audio_read 0x04 (snd r1);
         r3 = audio_read 0x10 (snd r2);
         r4 = audio_read 0x00 (audio_write 0x00 0x90000000 (snd r3));
         r5 = audio_read 0x0C (audio_write 0x0C 512 (snd r4));
         r6 = audio_read 0x14 (audio_write 0x14 1 (snd r5))
     in finish (snd r6)
        [(''Audio ring_base default'', fst r1 = AUDIO_RING_DEFAULT),
         (''Audio ring_size default'', fst r2 = AUDIO_RING_SIZE_DEFAULT),
         (''Audio sample_rate default'', fst r3 = 11025),
         (''Audio ring_base write'', fst r4 = 0x90000000),
         (''Audio wr_ptr write'', fst r5 = 512),
         (''Audio ctrl enable'', fst r6 = 1)])"

section \<open>The steps pass\<close>

lemma step11_passes: "passed (step11_clint (fst (clint_tick (fst (clint_tick CLINT_new)))))" by code_simp
lemma step12_passes: "passed step12_plic" by code_simp
lemma step13_data_passes:
  "let r = step13_data (drive UART_new)
   in passed (fst r) \<and> install (snd r) = \<lparr>dut = UART_new\<lparr>scr := 0xAB\<rparr>, calls = [], aborted = False\<rparr>" by code_simp
lemma step13_irq_passes: "passed (step13_irq \<lparr>dut = UART_new\<lparr>scr := 0xAB\<rparr>, calls = [], aborted = False\<rparr>)" by code_simp

lemma step13_passes: "passed step13_uart"
proof -
  let ?r = "step13_data (drive UART_new)"
  have "step13_irq (snd ?r) = step13_irq (install (snd ?r))" by (simp add: step13_irq_def install_def)
  with step13_data_passes step13_irq_passes show ?thesis
    by (simp add: step13_uart_def passed_def Let_def)
qed

lemma step15_passes: "passed step15_gpio" by code_simp
lemma step16_passes: "passed (step16_timer (fst (timer_tick (fst (timer_tick Timer_new)))))" by code_simp
lemma step17_passes: "passed step17_spi" by code_simp
lemma step18_fb_passes: "passed step18_fb" by code_simp
lemma step19_passes: "passed step19_audio" by code_simp

lemma nth_triples:
  assumes "i < length xs"
  shows "concat (map (\<lambda>i. [f i, g i, h i]) xs) ! (i * 3) = f (xs ! i)"
    "concat (map (\<lambda>i. [f i, g i, h i]) xs) ! (i * 3 + 1) = g (xs ! i)"
    "concat (map (\<lambda>i. [f i, g i, h i]) xs) ! (i * 3 + 2) = h (xs ! i)"
  using assms
proof (induction xs arbitrary: i)
  case (Cons x xs)
  {
    case 1
    with Cons show ?case by (cases i) (simp_all add: nth_Cons')
  next
    case 2
    with Cons show ?case by (cases i) (simp_all add: nth_Cons')
  next
    case 3
    with Cons show ?case by (cases i) (simp_all add: nth_Cons')
  }
qed simp_all

lemma length_triples: "length (concat (map (\<lambda>i. [f i, g i, h i]) xs)) = 3 * length xs"
  by (induction xs) simp_all

lemma test_playpal_entry:
  assumes "i < 256"
  shows "load_entry test_playpal 0 i = Some \<lparr>rgb_r = of_nat i, rgb_g = of_nat (255 - i), rgb_b = of_nat (i div 2)\<rparr>"
proof -
  have at: "mem_at test_playpal (int n) = Some (test_playpal ! n)" if "n < 768" for n
    using that by (simp add: mem_at_def test_playpal_def length_triples)
  have "load_entry test_playpal 0 i =
      Some \<lparr>rgb_r = test_playpal ! (i * 3), rgb_g = test_playpal ! (i * 3 + 1), rgb_b = test_playpal ! (i * 3 + 2)\<rparr>"
    using assms at [of "i * 3"] at [of "i * 3 + 1"] at [of "i * 3 + 2"] by (simp add: load_entry_def add.commute)
  also have "\<dots> = Some \<lparr>rgb_r = of_nat i, rgb_g = of_nat (255 - i), rgb_b = of_nat (i div 2)\<rparr>"
    unfolding test_playpal_def using assms by (simp only: nth_triples length_upt nth_upt) simp
  finally show ?thesis .
qed

lemma step18_palette_passes: "passed step18_palette"
proof -
  have "load_playpal test_playpal 0 =
      Some (map (\<lambda>i. \<lparr>rgb_r = of_nat i, rgb_g = of_nat (255 - i), rgb_b = of_nat (i div 2)\<rparr>) [0..<256])"
    unfolding load_playpal_def by (rule those_map_Some) (simp add: test_playpal_entry)
  moreover have "apply_colormap test_cmap 0 100 = Some 155"
    by (simp add: apply_colormap_def mem_at_def test_cmap_def)
  ultimately show ?thesis by (simp add: step18_palette_def passed_def)
qed

end
