(* ===== verification/Logging.thy ===== *)
theory Logging
  imports TLM
begin

text \<open>
  Model of \<open>src/src/util/logging.cpp\<close>: the trace switch and the two trace lines. The console is the
  text written so far; \<open>stamp\<close> is what the simulation kernel prints for the current time. The
  stream is decimal between calls, since both functions put it back.
\<close>

unbundle bit_operations_syntax

record logging =
  trace_enabled :: bool
  trace_out :: string

definition logging_new :: logging where "logging_new = \<lparr>trace_enabled = False, trace_out = []\<rparr>"

definition set_trace_enabled :: "bool \<Rightarrow> logging \<Rightarrow> logging" where
  "set_trace_enabled enabled l = l\<lparr>trace_enabled := enabled\<rparr>"

definition is_trace_enabled :: "logging \<Rightarrow> bool" where "is_trace_enabled l = trace_enabled l"

text \<open>\<open>hex\<close>, \<open>setfill('0')\<close>, \<open>setw(8)\<close>: eight digits, the most significant first.\<close>

definition hex_digit :: "u32 \<Rightarrow> char" where
  "hex_digit d = ''0123456789abcdef'' ! unat (d AND 0xF)"

definition hex8 :: "u32 \<Rightarrow> string" where
  "hex8 v = map (\<lambda>i. hex_digit (drop_bit (4 * (7 - i)) v)) [0..<8]"

fun dec_digits :: "nat \<Rightarrow> string" where
  "dec_digits n = (if n < 10 then [''0123456789'' ! n] else dec_digits (n div 10) @ [''0123456789'' ! (n mod 10)])"

definition dec_int :: "int \<Rightarrow> string" where
  "dec_int i = (if i < 0 then CHR ''-'' # dec_digits (nat (- i)) else dec_digits (nat i))"

definition trace_transaction :: "string \<Rightarrow> u32 \<Rightarrow> u32 \<Rightarrow> bool \<Rightarrow> logging \<Rightarrow> logging" where
  "trace_transaction stamp addr data is_write l =
     (if \<not> trace_enabled l then l
      else l\<lparr>trace_out := trace_out l @ ''[TRC '' @ stamp @ ''] '' @ (if is_write then ''W'' else ''R'') @ '' 0x'' @ hex8 addr @
              '' = 0x'' @ hex8 data @ [CHR 0x0A]\<rparr>)"

definition trace_insn :: "string \<Rightarrow> u32 \<Rightarrow> u32 \<Rightarrow> u32 \<Rightarrow> u32 \<Rightarrow> logging \<Rightarrow> logging" where
  "trace_insn stamp pc raw rd val l =
     (if \<not> trace_enabled l then l
      else l\<lparr>trace_out := trace_out l @ ''[INS '' @ stamp @ ''] 0x'' @ hex8 pc @ '' '' @ hex8 raw @ '' x'' @
              dec_int (uint rd) @ ''='' @ dec_int (sint val) @ [CHR 0x0A]\<rparr>)"

lemma trace_off:
  assumes "\<not> is_trace_enabled l"
  shows "trace_transaction stamp addr data is_write l = l" and "trace_insn stamp pc raw rd val l = l"
  using assms by (simp_all add: trace_transaction_def trace_insn_def is_trace_enabled_def)

text \<open>The fixed-width numbers of a trace line determine the words they print.\<close>

lemma hex_digit_inj: "hex_digit a = hex_digit b \<longleftrightarrow> a AND 0xF = b AND 0xF"
proof
  have u: "unat (x AND 0xF) < 16" for x :: u32
  proof -
    have "x AND 0xF = take_bit 4 x" by (simp add: take_bit_eq_mask mask_eq_exp_minus_1)
    then show ?thesis using take_bit_nat_less_exp [of 4 "unat x"] by (simp add: unsigned_take_bit_eq)
  qed
  have d: "distinct ''0123456789abcdef''" "length ''0123456789abcdef'' = 16" by simp_all
  assume "hex_digit a = hex_digit b"
  then show "a AND 0xF = b AND 0xF"
    unfolding hex_digit_def using nth_eq_iff_index_eq [OF d(1)] u [of a] u [of b] d(2) by (simp only: word_unat_eq_iff)
qed (simp add: hex_digit_def)

lemma hex8_inj: "hex8 v = hex8 w \<longleftrightarrow> v = w"
proof
  assume "hex8 v = hex8 w"
  then have *: "drop_bit (4 * (7 - i)) v AND 0xF = drop_bit (4 * (7 - i)) w AND 0xF" if "i < 8" for i
    using that by (auto simp: hex8_def map_eq_conv hex_digit_inj)
  show "v = w"
  proof (rule bit_word_eqI)
    fix n :: nat
    assume "n < LENGTH(32)"
    then have i: "7 - n div 4 < 8" "n = 4 * (7 - (7 - n div 4)) + n mod 4" and m: "n mod 4 \<in> {0, 1, 2, 3}" by auto
    then show "bit v n \<longleftrightarrow> bit w n"
      using arg_cong [OF * [OF i(1)], of "\<lambda>x. bit x (n mod 4)"] by (auto simp: bit_simps)
  qed
qed simp

lemma length_hex8 [simp]: "length (hex8 v) = 8"
  by (simp add: hex8_def)

lemma trace_transaction_determines:
  assumes "is_trace_enabled l"
    and "trace_out (trace_transaction stamp a d w l) = trace_out (trace_transaction stamp a' d' w' l)"
  shows "a = a' \<and> d = d' \<and> w = w'"
  using assms by (auto simp: trace_transaction_def is_trace_enabled_def hex8_inj append_eq_append_conv split: if_splits)

end
