(* ===== verification/Self_Test_Memory.thy ===== *)
theory Self_Test_Memory
  imports Self_Test_Devices Logging
begin

text \<open>
  The unit tests of \<open>src/src/main.cpp\<close> for memory, bus and logging: steps 1, 2 and 20. The
  memories are those of \<open>sc_main\<close>; the steps are shown to pass for every initial content of RAM
  and SRAM, and whether or not an error report throws, without evaluating the vectors.
\<close>

unbundle bit_operations_syntax

text \<open>The payload after a transport; a report or undefined behaviour leaves it incomplete.\<close>

definition send :: "(payload \<Rightarrow> 's \<Rightarrow> stop + (payload \<times> 's)) \<Rightarrow> payload \<Rightarrow> 's \<Rightarrow> payload \<times> 's" where
  "send bt p s = (case bt p s of Inl e \<Rightarrow> (p\<lparr>p_status := TLM_INCOMPLETE\<rparr>, s) | Inr r \<Rightarrow> r)"

definition drop_events :: "(Memory, unit) transport \<Rightarrow> payload \<Rightarrow> Memory \<Rightarrow> stop + (payload \<times> Memory)" where
  "drop_events bt p m = map_sum id (\<lambda>(p', m', evs). (p', m')) (bt p m)"

definition ok_word :: "payload \<Rightarrow> u32 \<Rightarrow> bool" where
  "ok_word p v = (p_status p = TLM_OK \<and> le_word (p_data p) = v)"

section \<open>Step 1: memory\<close>

definition step1_memory :: "bool \<Rightarrow> Memory \<Rightarrow> Memory \<Rightarrow> checks" where
  "step1_memory throws ram0 rom =
    (let mem = send (drop_events (memory_b_transport throws)); boot = send (drop_events (bootrom_b_transport throws));
         w = mem (setup_trans TLM_WRITE 0x100 (le_bytes 4 0xDEADBEEF) 4) ram0;
         r = mem (setup_trans TLM_READ 0x100 (le_bytes 4 0) 4) (snd w);
         d = memory_get_direct_mem_ptr (snd r);
         b = boot (setup_trans TLM_READ 0 (le_bytes 4 0) 4) rom;
         bw = boot (setup_trans TLM_WRITE 0 (le_bytes 4 0xBAADF00D) 4) (snd b);
         bd = bootrom_get_direct_mem_ptr (snd bw)
     in [(''RAM direct write'', p_status (fst w) = TLM_OK),
         (''RAM direct read-back'', ok_word (fst r) 0xDEADBEEF),
         (''RAM DMI R/W'', dmi_write_allowed d),
         (''RAM DMI coherence'', le_word (take 4 (drop 0x100 (m_data (snd r)))) = 0xDEADBEEF),
         (''BootROM direct read'', ok_word (fst b) 0x00000013),
         (''BootROM write rejection'', p_status (fst bw) = TLM_COMMAND_ERROR),
         (''BootROM DMI read-only'', \<not> dmi_write_allowed bd)])"

section \<open>Step 2: bus\<close>

record memories =
  t_bootrom :: Memory
  t_sram :: Memory
  t_ram :: Memory

definition test_targets :: "bool \<Rightarrow> memories targets" where
  "test_targets throws i p ms =
     (if i = 0 then map_sum id (\<lambda>(p', m). (p', ms\<lparr>t_bootrom := m\<rparr>)) (drop_events (bootrom_b_transport throws) p (t_bootrom ms))
      else if i = 1 then map_sum id (\<lambda>(p', m). (p', ms\<lparr>t_sram := m\<rparr>)) (drop_events (memory_b_transport throws) p (t_sram ms))
      else if i = 2 then map_sum id (\<lambda>(p', m). (p', ms\<lparr>t_ram := m\<rparr>)) (drop_events (memory_b_transport throws) p (t_ram ms))
      else Inl HOST_UB)"

definition test_dmi :: "u32 \<Rightarrow> memories \<Rightarrow> tlm_dmi option" where
  "test_dmi i ms =
     (if i = 0 then Some (bootrom_get_direct_mem_ptr (t_bootrom ms))
      else if i = 1 then Some (memory_get_direct_mem_ptr (t_sram ms))
      else if i = 2 then Some (memory_get_direct_mem_ptr (t_ram ms)) else None)"

definition step2_bus :: "bool \<Rightarrow> memories \<Rightarrow> checks" where
  "step2_bus throws ms =
    (let bus = send (bus_b_transport (test_targets throws) test_bus);
         dmi = (\<lambda>addr ms. map_option snd (bus_get_direct_mem_ptr test_dmi test_bus addr ms));
         w = bus (setup_trans TLM_WRITE (RAM_BASE + 0x200) (le_bytes 4 0xCAFEBABE) 4) ms;
         r = bus (setup_trans TLM_READ (RAM_BASE + 0x200) (le_bytes 4 0) 4) (snd w);
         b = bus (setup_trans TLM_READ BOOTROM_BASE (le_bytes 4 0) 4) (snd r);
         bw = bus (setup_trans TLM_WRITE BOOTROM_BASE (le_bytes 4 0xBAADF00D) 4) (snd b);
         miss = bus (setup_trans TLM_READ 0x50000000 (le_bytes 4 0) 4) (snd bw);
         d = dmi (ucast RAM_BASE) (snd miss);
         bd = dmi (ucast BOOTROM_BASE) (snd miss);
         sw = bus (setup_trans TLM_WRITE (SRAM_BASE + 0x10) (le_bytes 4 0x12345678) 4) (snd miss);
         sr = bus (setup_trans TLM_READ (SRAM_BASE + 0x10) (le_bytes 4 0) 4) (snd sw)
     in [(''RAM write via bus'', p_status (fst w) = TLM_OK),
         (''RAM read-back via bus'', ok_word (fst r) 0xCAFEBABE),
         (''BootROM read via bus'', ok_word (fst b) 0x00000013),
         (''BootROM write rejection via bus'', p_status (fst bw) = TLM_COMMAND_ERROR),
         (''Address decode miss (unmapped 0x50000000)'', p_status (fst miss) = TLM_ADDRESS_ERROR),
         (''RAM DMI via bus'', d \<noteq> None),
         (''RAM DMI start=global'', map_option dmi_start d = Some (ucast RAM_BASE)),
         (''BootROM DMI via bus'', bd \<noteq> None),
         (''BootROM DMI start=global'', map_option dmi_start bd = Some (ucast BOOTROM_BASE)),
         (''BootROM DMI read-only via bus'', map_option dmi_write_allowed bd = Some False),
         (''SRAM write via bus'', p_status (fst sw) = TLM_OK),
         (''SRAM read-back via bus'', le_word (p_data (fst sr)) = 0x12345678)])"

section \<open>Step 20: logging\<close>

definition step20_logging :: checks where
  "step20_logging =
    (let l = logging_new; l1 = set_trace_enabled True l; l2 = set_trace_enabled False l1
     in [(''Logging default off'', \<not> is_trace_enabled l),
         (''Logging enable'', is_trace_enabled l1),
         (''Logging disable'', \<not> is_trace_enabled l2)])"

section \<open>The steps pass\<close>

text \<open>What \<open>sc_main\<close> makes of the memories: RAM and SRAM of the given size, the ROM starting with a nop.\<close>

definition nop_rom :: "Memory \<Rightarrow> bool" where
  "nop_rom m = (memory_ok BOOTROM_SIZE m \<and> take 4 (m_data m) = le_bytes 4 0x00000013)"

definition test_memories :: "memories \<Rightarrow> bool" where
  "test_memories ms = (nop_rom (t_bootrom ms) \<and> memory_ok SRAM_SIZE (t_sram ms) \<and> memory_ok 0x100000 (t_ram ms))"

definition put_word :: "nat \<Rightarrow> u32 \<Rightarrow> Memory \<Rightarrow> Memory" where
  "put_word a v m = m\<lparr>m_data := take a (m_data m) @ le_bytes 4 v @ drop (a + 4) (m_data m)\<rparr>"

lemma through_u64: "ucast (ucast a :: u64) = (a :: u32)"
  by (rule u32_eqI) (simp add: bit_simps)

lemma memory_word:
  assumes "memory_ok sz m" and "unat a + 4 \<le> unat sz"
  shows "drop_events (memory_b_transport throws) (setup_trans TLM_WRITE a (le_bytes 4 v) 4) m =
      Inr (setup_trans TLM_WRITE a (le_bytes 4 v) 4\<lparr>p_status := TLM_OK\<rparr>, put_word (unat a) v m)"
    and "drop_events (memory_b_transport throws) (setup_trans TLM_READ a (le_bytes 4 0) 4) m =
      Inr (setup_trans TLM_READ a (take 4 (drop (unat a) (m_data m))) 4\<lparr>p_status := TLM_OK\<rparr>, m)"
proof -
  have "unat (a + 4) = unat a + 4"
    using assms(2) unsigned_less [of sz, where ?'a = nat] by (simp add: unat_word_ariths)
  then have "\<not> a + 4 > sz" using assms(2) by (simp add: word_less_nat_alt)
  moreover note through_u64
  ultimately show
    "drop_events (memory_b_transport throws) (setup_trans TLM_WRITE a (le_bytes 4 v) 4) m =
      Inr (setup_trans TLM_WRITE a (le_bytes 4 v) 4\<lparr>p_status := TLM_OK\<rparr>, put_word (unat a) v m)"
    "drop_events (memory_b_transport throws) (setup_trans TLM_READ a (le_bytes 4 0) 4) m =
      Inr (setup_trans TLM_READ a (take 4 (drop (unat a) (m_data m))) 4\<lparr>p_status := TLM_OK\<rparr>, m)"
    using assms
    by (simp_all add: drop_events_def memory_b_transport_def setup_trans_def Let_def memory_ok_def vec_read_def vec_write_def put_word_def)
qed

lemma nop_rom_word:
  assumes "nop_rom m"
  shows "drop_events (bootrom_b_transport throws) (setup_trans TLM_WRITE 0 bs 4) m =
      Inr (setup_trans TLM_WRITE 0 bs 4\<lparr>p_status := TLM_COMMAND_ERROR\<rparr>, m)"
    and "drop_events (bootrom_b_transport throws) (setup_trans TLM_READ 0 (le_bytes 4 0) 4) m =
      Inr (setup_trans TLM_READ 0 (le_bytes 4 0x00000013) 4\<lparr>p_status := TLM_OK\<rparr>, m)"
  using assms
  by (simp_all add: nop_rom_def drop_events_def bootrom_b_transport_def setup_trans_def Let_def memory_ok_def vec_read_def)

lemma put_word_ok:
  assumes "memory_ok sz m" and "a + 4 \<le> unat sz"
  shows "memory_ok sz (put_word a v m)" and "take 4 (drop a (m_data (put_word a v m))) = le_bytes 4 v"
  using assms by (simp_all add: memory_ok_def put_word_def)

lemma step1_passes:
  assumes "memory_ok 0x100000 ram0" and "nop_rom rom"
  shows "passed (step1_memory throws ram0 rom)"
proof -
  let ?m = "put_word 0x100 0xDEADBEEF ram0"
  note put = put_word_ok [OF assms(1), of "0x100" "0xDEADBEEF"]
  have w: "send (drop_events (memory_b_transport throws)) (setup_trans TLM_WRITE 0x100 (le_bytes 4 0xDEADBEEF) 4) ram0 =
      (setup_trans TLM_WRITE 0x100 (le_bytes 4 0xDEADBEEF) 4\<lparr>p_status := TLM_OK\<rparr>, ?m)"
    using memory_word(1) [OF assms(1), of "0x100"] by (simp add: send_def)
  have r: "send (drop_events (memory_b_transport throws)) (setup_trans TLM_READ 0x100 (le_bytes 4 0) 4) ?m =
      (setup_trans TLM_READ 0x100 (le_bytes 4 0xDEADBEEF) 4\<lparr>p_status := TLM_OK\<rparr>, ?m)"
    using memory_word(2) [OF put(1), of "0x100"] put(2) by (simp add: send_def)
  have b: "send (drop_events (bootrom_b_transport throws)) (setup_trans TLM_READ 0 (le_bytes 4 0) 4) rom =
      (setup_trans TLM_READ 0 (le_bytes 4 0x13) 4\<lparr>p_status := TLM_OK\<rparr>, rom)"
    "send (drop_events (bootrom_b_transport throws)) (setup_trans TLM_WRITE 0 bs 4) rom =
      (setup_trans TLM_WRITE 0 bs 4\<lparr>p_status := TLM_COMMAND_ERROR\<rparr>, rom)" for bs
    using nop_rom_word [OF assms(2)] by (simp_all add: send_def)
  show ?thesis
    using put by (simp add: step1_memory_def passed_def w r b Let_def memory_get_direct_mem_ptr_def bootrom_get_direct_mem_ptr_def)
      (simp add: ok_word_def setup_trans_def)
qed

text \<open>Routing on the test's bus.\<close>

lemma test_bus_route:
  assumes "bus_decode test_bus a = Some k" and "ranges test_bus ! k = \<lparr>r_base = b, r_size = n, target_idx = i\<rparr>"
  shows "bus_b_transport tgt test_bus (setup_trans c a d l) s =
    map_sum id (\<lambda>(p, s'). (p\<lparr>p_addr := ucast a\<rparr>, s')) (tgt i (setup_trans c (a - b) d l) s)"
  using assms through_u64 [of a] by (simp add: bus_b_transport_def setup_trans_def split: sum.splits)

lemma test_bus_decode:
  "bus_decode test_bus (RAM_BASE + 0x200) = Some 5" "bus_decode test_bus RAM_BASE = Some 5"
  "bus_decode test_bus BOOTROM_BASE = Some 0" "bus_decode test_bus (SRAM_BASE + 0x10) = Some 1"
  "bus_decode test_bus 0x50000000 = None"
  by code_simp+

lemma test_bus_range:
  "ranges test_bus ! 5 = \<lparr>r_base = RAM_BASE, r_size = 0x100000, target_idx = 2\<rparr>"
  "ranges test_bus ! 0 = \<lparr>r_base = BOOTROM_BASE, r_size = BOOTROM_SIZE, target_idx = 0\<rparr>"
  "ranges test_bus ! 1 = \<lparr>r_base = SRAM_BASE, r_size = SRAM_SIZE, target_idx = 1\<rparr>"
  by (simp_all add: test_bus_code)

lemma test_bus_ram:
  assumes "test_memories ms"
  shows "send (bus_b_transport (test_targets throws) test_bus) (setup_trans TLM_WRITE (RAM_BASE + 0x200) (le_bytes 4 v) 4) ms =
      (setup_trans TLM_WRITE (RAM_BASE + 0x200) (le_bytes 4 v) 4\<lparr>p_status := TLM_OK\<rparr>, ms\<lparr>t_ram := put_word 0x200 v (t_ram ms)\<rparr>)"
    and "send (bus_b_transport (test_targets throws) test_bus) (setup_trans TLM_READ (RAM_BASE + 0x200) (le_bytes 4 0) 4) ms =
      (setup_trans TLM_READ (RAM_BASE + 0x200) (take 4 (drop 0x200 (m_data (t_ram ms)))) 4\<lparr>p_status := TLM_OK\<rparr>, ms)"
  unfolding send_def test_bus_route [OF test_bus_decode(1) test_bus_range(1)]
  using assms memory_word [of "0x100000" "t_ram ms" "0x200"]
  by (simp_all add: test_targets_def test_memories_def) (simp_all add: setup_trans_def)

lemma test_bus_sram:
  assumes "test_memories ms"
  shows "send (bus_b_transport (test_targets throws) test_bus) (setup_trans TLM_WRITE (SRAM_BASE + 0x10) (le_bytes 4 v) 4) ms =
      (setup_trans TLM_WRITE (SRAM_BASE + 0x10) (le_bytes 4 v) 4\<lparr>p_status := TLM_OK\<rparr>, ms\<lparr>t_sram := put_word 0x10 v (t_sram ms)\<rparr>)"
    and "send (bus_b_transport (test_targets throws) test_bus) (setup_trans TLM_READ (SRAM_BASE + 0x10) (le_bytes 4 0) 4) ms =
      (setup_trans TLM_READ (SRAM_BASE + 0x10) (take 4 (drop 0x10 (m_data (t_sram ms)))) 4\<lparr>p_status := TLM_OK\<rparr>, ms)"
  unfolding send_def test_bus_route [OF test_bus_decode(4) test_bus_range(3)]
  using assms memory_word [of SRAM_SIZE "t_sram ms" "0x10"]
  by (simp_all add: test_targets_def test_memories_def) (simp_all add: setup_trans_def)

lemma test_bus_rom:
  assumes "test_memories ms"
  shows "send (bus_b_transport (test_targets throws) test_bus) (setup_trans TLM_WRITE BOOTROM_BASE bs 4) ms =
      (setup_trans TLM_WRITE BOOTROM_BASE bs 4\<lparr>p_status := TLM_COMMAND_ERROR\<rparr>, ms)"
    and "send (bus_b_transport (test_targets throws) test_bus) (setup_trans TLM_READ BOOTROM_BASE (le_bytes 4 0) 4) ms =
      (setup_trans TLM_READ BOOTROM_BASE (le_bytes 4 0x00000013) 4\<lparr>p_status := TLM_OK\<rparr>, ms)"
  unfolding send_def test_bus_route [OF test_bus_decode(3) test_bus_range(2)]
  using assms nop_rom_word [of "t_bootrom ms"]
  by (simp_all add: test_targets_def test_memories_def) (simp_all add: setup_trans_def)

lemma test_memories_put:
  assumes "test_memories ms"
  shows "test_memories (ms\<lparr>t_ram := put_word 0x200 v (t_ram ms)\<rparr>)" and "test_memories (ms\<lparr>t_sram := put_word 0x10 v (t_sram ms)\<rparr>)"
  using assms by (simp_all add: test_memories_def put_word_ok)

lemma test_bus_miss:
  "send (bus_b_transport tgt test_bus) (setup_trans c 0x50000000 d l) s = (setup_trans c 0x50000000 d l\<lparr>p_status := TLM_ADDRESS_ERROR\<rparr>, s)"
  using test_bus_decode(5) by (simp add: bus_b_transport_def setup_trans_def send_def)

lemma step2_passes:
  assumes "test_memories ms"
  shows "passed (step2_bus throws ms)"
proof -
  define ms1 where "ms1 = ms\<lparr>t_ram := put_word 0x200 0xCAFEBABE (t_ram ms)\<rparr>"
  define ms2 where "ms2 = ms1\<lparr>t_sram := put_word 0x10 0x12345678 (t_sram ms1)\<rparr>"
  have ok: "test_memories ms1" "test_memories ms2"
    using test_memories_put(1) [OF assms] test_memories_put(2) unfolding ms1_def ms2_def by blast+
  have words: "take 4 (drop 0x200 (m_data (t_ram ms1))) = le_bytes 4 0xCAFEBABE"
    "take 4 (drop 0x10 (m_data (t_sram ms2))) = le_bytes 4 0x12345678"
    using assms ok(1) put_word_ok(2) [of "0x100000" "t_ram ms"] put_word_ok(2) [of SRAM_SIZE "t_sram ms1"]
    by (simp_all add: ms1_def ms2_def test_memories_def)
  note ram = test_bus_ram(1) [OF assms, of throws "0xCAFEBABE", folded ms1_def] test_bus_ram(2) [OF ok(1), unfolded words]
  note sram = test_bus_sram(1) [OF ok(1), of throws "0x12345678", folded ms2_def] test_bus_sram(2) [OF ok(2), unfolded words]
  show ?thesis
    unfolding step2_bus_def Let_def ram sram test_bus_rom [OF ok(1)] test_bus_miss snd_conv fst_conv bus_get_direct_mem_ptr_def
    by (simp add: passed_def ok_word_def test_bus_decode test_bus_range test_dmi_def memory_get_direct_mem_ptr_def
        bootrom_get_direct_mem_ptr_def) (simp add: setup_trans_def)
qed

lemma step20_passes: "passed step20_logging" by code_simp

end
