(* ===== verification/Spec2Isabelle.thy ===== *)
theory Spec2Isabelle
  imports Execute_Spec Decode_Sound Trap MMU Platform GDB_Props ISS_Defined Self_Test_Platform Self_Test_Memory
begin

text \<open>
  Verification of the GamingCPU virtual platform, a SystemC/TLM model of a small RISC-V computer
  (\<open>src/src\<close>): an RV32IMAC processor with Sv32 translation, a bus, memories, interrupt
  controllers, peripherals, a DMA engine, an SD controller, a debugger stub and an ELF loader.

  \<^bold>\<open>How the parts interact.\<close> \<open>ISS::run\<close> is the processor's loop: it asks \<open>trap\<close> for a pending
  interrupt, fetches through \<open>MMU\<close> and bus, decodes, executes, and takes the trap of an exception
  or of a page fault that a memory callback noted. Memory accesses go to the bus as transactions,
  or straight into a memory through a cached direct-memory window. The bus routes an address to
  one target at its offset. Devices answer register accesses and report their interrupt lines
  through callbacks: the CLINT to the hart, the others to the PLIC, and the PLIC to the hart. DMA
  engine and SD controller are bus masters with a thread of their own. The GDB server halts and
  steps the processor and patches memory. The platform's constructor wires all this and loads an
  ELF file.

  \<^bold>\<open>Representation.\<close> \<open>uint32_t\<close> and its relatives are words of that width. A class is a record and
  its methods are functions on it. A callback is an event in a list that the method returns; the
  platform applies the events in order. An exception, a fatal report or undefined behaviour of the
  host (an out-of-range copy, say) is a value of a sum type, so every theorem that an operation
  returns \<open>Inr\<close> says that none of them happens. SystemC threads are functions for one turn, and
  the step relations let them interleave between any two iterations of the processor. What the
  code does not fix is a parameter: \<open>throws\<close> (does an error report throw), \<open>tlb_begin\<close> (which entry
  \<open>unordered_map::begin\<close> yields), \<open>junk\<close> (an uninitialised buffer), the SPI transfer callback, the
  characters a debugger sends, the contents of host files.

  \<^bold>\<open>Theories.\<close>

  \<^item> \<open>VP_Prelude\<close>: word types, bit-level lemmas, collections of simplification rules.
  \<^item> \<open>RV32_Defs\<close> (\<open>cpu/rv32_defs.h\<close>): constants, field and immediate extractors.
  \<^item> \<open>Decode\<close> (\<open>cpu/decode.cpp\<close>): \<open>decode32\<close>, the RVC expander, \<open>decode\<close>. \<open>Decode_Spec\<close> and
    \<open>RVC_Spec\<close> give an independent assembler from the ISA manual, \<open>Decode_Correct\<close> the proof that
    decoding inverts assembling and compressed instructions decode to what they abbreviate,
    \<open>RVC_Sound\<close> and \<open>Decode_Sound\<close> that exactly the encodings of instructions are accepted, up to
    fields the decoder ignores.
  \<^item> \<open>CSR\<close> (\<open>cpu/csr.cpp\<close>): the register file. Invariant of the WARL fields, read-back, frame,
    confinement by privilege, 64-bit counters.
  \<^item> \<open>RV32M\<close>, \<open>RV32A\<close>, \<open>Execute\<close> (\<open>cpu/rv32m.cpp\<close>, \<open>rv32a.cpp\<close>, \<open>execute.cpp\<close>): the whole switch.
    \<open>Execute_Props\<close> and \<open>Execute_Keeps\<close> give what any instruction preserves, as client lemmas of
    the locales \<open>mem_if\<close> and \<open>mem_if_keeps\<close> of the memory callbacks; \<open>Execute_Spec\<close> the reference
    semantics over the integers and the precision of exceptions.
  \<^item> \<open>Trap\<close> (\<open>cpu/trap.cpp\<close>): interrupt selection, trap entry, and that MRET and SRET undo it.
  \<^item> \<open>MMU\<close> (\<open>cpu/mmu.cpp\<close>): the page walk and the TLB against a reference translation.
  \<^item> \<open>TLM\<close>: transactions and the locales of a bus target: \<open>tlm_target\<close>, its extension to register
    devices \<open>reg_device\<close> (a \<open>sublocale\<close>), and \<open>irq_device\<close>, whose interrupt line follows its state.
  \<^item> \<open>Memory\<close>, \<open>TLM_Bus\<close> (\<open>mem\<close>, \<open>bus\<close>): RAM, boot ROM, routing; \<open>Platform_Config\<close> the address map.
  \<^item> \<open>CLINT\<close>, \<open>PLIC\<close>, \<open>UART\<close>, \<open>GPIO\<close>, \<open>Timer\<close>, \<open>SPI\<close>, \<open>Video\<close>, \<open>Audio\<close>: the devices, each an
    interpretation of the locale that fits, with its own behaviour: arbitration of the PLIC, the
    UART's byte stream, latched GPIO edges, the timer's deadline, buffer swaps, palettes.
  \<^item> \<open>Bus_Master\<close>, \<open>DMA\<close>, \<open>SD\<close>: transfer loops proved in locales over an abstract memory bus
    (\<open>memory_bus\<close>, \<open>dma_bus\<close>, \<open>sd_bus\<close>).
  \<^item> \<open>Platform\<close> (\<open>platform/gamingcpu_vp.cpp\<close>): the wiring; interpretation of both masters on it;
    well-formedness of devices and exactness of interrupt lines under every transaction.
  \<^item> \<open>ELF\<close>, \<open>VP_Boot\<close> (\<open>util/elf_loader.cpp\<close>): the loader over the locale \<open>elf_store\<close>, and its
    interpretation on RAM: after boot, RAM holds the file's memory image.
  \<^item> \<open>ISS\<close>, \<open>ISS_Run\<close>, \<open>ISS_DMI\<close>, \<open>ISS_Defined\<close>, \<open>ISS_Program\<close> (\<open>cpu/iss.cpp\<close>): the loop's iteration, the
    step relation \<open>vp_step\<close> of the running platform with its invariant over all interleavings,
    the start of a loaded program, privilege, the transparency of the direct-memory window, progress
    and memory safety of an iteration, and whole programs against the reference machine.
  \<^item> \<open>GDB_Codec\<close>, \<open>GDB_Server\<close>, \<open>GDB_Props\<close> (\<open>debug/gdb_server.cpp\<close>): framing and hexadecimal text, the
    command handlers, the server thread beside the processor; round trips, breakpoints, the
    session invariant and termination of the packet loop.
  \<^item> \<open>Logging\<close> (\<open>util/logging.cpp\<close>): the trace switch and trace lines.
  \<^item> \<open>Self_Test_CPU\<close>, \<open>Self_Test_Devices\<close>, \<open>Self_Test_Memory\<close>, \<open>Self_Test_Platform\<close> (\<open>main.cpp\<close>): the
    repository's own unit tests, evaluated on the model; the last runs its program on the whole
    platform. They tie the definitions to the expectations of its authors.

  \<^bold>\<open>Abstract specifications.\<close> The assembler and the RVC table for the decoder; integer semantics
  (\<open>asm_step\<close>) and a machine with a byte memory (\<open>machine_run\<close>) for the processor; a page-table
  lookup for the MMU; the memory image of an ELF file; a stream of bytes for the UART; the set of
  claimable sources for the PLIC; a block copy for DMA and SD.

  \<^bold>\<open>Loops.\<close> Nothing runs on fuel. Loops over data recurse on it; the page walk counts its two
  levels; the transfer loops of DMA and SD have termination proofs by the bytes or blocks left. The
  debugger's client loop is a partial function, which returns if the processor halts again whenever
  it waits for it. The loops that do not end by design, \<open>ISS::run\<close> and the server thread beside it,
  are step relations with reachability; the number of steps in \<open>machine_run\<close> and \<open>iss_steps\<close> is the length of the run being
  described, and every run of the reference machine is shown to be performed.

  \<^bold>\<open>Deviations the proofs brought out.\<close> A store through the direct-memory window changes the boot ROM
  (\<open>ISS_DMI.dmi_store_changes_bootrom\<close>); its bounds test wraps (\<open>ISS_DMI.dmi_wraps\<close>); overlapping
  breakpoints destroy code (\<open>GDB_Props.overlapping_breakpoints_corrupt\<close>); a DMA burst to the UART is
  undefined (\<open>Platform.vp_dma_to_uart_undefined\<close>); a segment check in the ELF loader wraps
  (\<open>ELF.load_segment_wraps\<close>); the decoder ignores fields it should check (\<open>Decode_Sound.ignored\<close>); a failed SD read makes later ones fail (\<open>SD.sd_failure_sticky\<close>).
  Signed addition in \<open>execute.cpp\<close> that overflows is undefined in C++; the model wraps, as compiled.

  \<^bold>\<open>Not modelled.\<close> Simulated time: the quantum keeper, \<open>wait\<close> and the delays of transactions only
  decide when threads run, and any order is allowed. Creation of the debugger's socket: failure
  leaves the server listening for ever. Step 9 of the self tests: its processor is wired to the
  test's own bus, with a smaller RAM, while the model's simulator runs on the platform's bus. The
  printing and the instantiation of modules in \<open>sc_main\<close>. In step 14 the microsecond of waiting is
  replaced by the iterations and clock ticks that fall into it.
\<close>

end
